(* ===== verification/Prelude.thy ===== *)
theory Prelude
  imports Main "HOL-Library.Word" "HOL-Library.Finite_Map" "HOL-Library.Monad_Syntax"
begin

text \<open>
  Shared vocabulary of the development: the machine integers of the Rust code as words, slices
  with Rust's bounds checks (an out-of-range index is a panic, the value \<open>None\<close> of the
  \<open>option\<close> monad), little-endian and uuid byte encodings with their round trips, and the
  bulk operations of \<open>HashMap\<close> (\<open>retain\<close>, \<open>values().any\<close>, \<open>for_each\<close>) on
  finite maps.  The collections \<open>byte_simps\<close> and \<open>fm_simps\<close> carry the component
  proofs.
\<close>

unbundle bit_operations_syntax

named_theorems byte_simps "byte-level encoders, decoders and their lengths"
named_theorems fm_simps "lookup after a bulk operation on a finite map"

section \<open>Types\<close>

type_synonym u8 = "8 word"
type_synonym u16 = "16 word"
type_synonym u32 = "32 word"
type_synonym u64 = "64 word"
type_synonym uuid = "128 word"
type_synonym bytes = "u8 list"

text \<open>\<open>'a panics\<close>: a computation that may panic (\<open>None\<close>).\<close>

type_synonym 'a panics = "'a option"

section \<open>Rust arithmetic\<close>

definition saturating_add :: "'a::len word \<Rightarrow> 'a word \<Rightarrow> 'a word" where
  "saturating_add a b = (if unat a + unat b < 2 ^ LENGTH('a) then a + b else - 1)"

definition saturating_sub :: "'a::len word \<Rightarrow> 'a word \<Rightarrow> 'a word" where
  "saturating_sub a b = (if b \<le> a then a - b else 0)"

definition saturating_mul :: "'a::len word \<Rightarrow> 'a word \<Rightarrow> 'a word" where
  "saturating_mul a b = (if unat a * unat b < 2 ^ LENGTH('a) then a * b else - 1)"

lemma max_word_ge [simp]: "(a :: 'a::len word) \<le> - 1"
  by (simp add: word_order.extremum)

lemma unat_minus_one_word: "unat (- 1 :: 'a::len word) = 2 ^ LENGTH('a) - 1"
proof -
  have "uint (- 1 :: 'a word) = 2 ^ LENGTH('a) - 1"
    by transfer (simp add: take_bit_minus_one_eq_mask mask_eq_exp_minus_1)
  then show ?thesis
    by (simp add: unat_eq_nat_uint nat_diff_distrib nat_power_eq)
qed

lemma unat_saturating_add:
  "unat (saturating_add a (b :: 'a::len word)) = min (unat a + unat b) (2 ^ LENGTH('a) - 1)"
proof (cases "unat a + unat b < 2 ^ LENGTH('a)")
  case True
  then show ?thesis
    by (simp add: saturating_add_def unat_word_ariths)
next
  case False
  then show ?thesis
    by (simp add: saturating_add_def unat_minus_one_word)
qed

lemma unat_saturating_sub: "unat (saturating_sub a (b :: 'a::len word)) = unat a - unat b"
  by (auto simp: saturating_sub_def unat_sub word_le_nat_alt)

text \<open>The same by the wrapped sum and by integers, for evaluation.\<close>

lemma saturating_add_code [code]: "saturating_add a b = (if a \<le> a + b then a + b else - 1)"
  by (simp add: saturating_add_def no_olen_add_nat)

lemma saturating_mul_code [code]:
  "saturating_mul a (b :: 'a::len word) = (if uint a * uint b \<le> uint (- 1 :: 'a word) then a * b else - 1)"
proof -
  have "uint (- 1 :: 'a word) = 2 ^ LENGTH('a) - 1"
    using unat_minus_one_word [where ?'a = 'a] by (simp add: uint_nat of_nat_diff)
  moreover have "unat a * unat b < 2 ^ LENGTH('a) \<longleftrightarrow> uint a * uint b < 2 ^ LENGTH('a)"
    using of_nat_less_iff [of "unat a * unat b" "2 ^ LENGTH('a)", where ?'a = int]
    by (simp add: of_nat_mult)
  ultimately show ?thesis
    by (simp add: saturating_mul_def)
qed

lemma saturating_add_ge: "a \<le> saturating_add a b"
proof -
  have "unat a < 2 ^ LENGTH('a)" by simp
  then have "unat a \<le> 2 ^ LENGTH('a) - 1" by linarith
  then show ?thesis by (simp add: word_le_nat_alt unat_saturating_add)
qed

lemma saturating_add_gt:
  assumes "a < - 1" shows "a < saturating_add a 1"
proof -
  have "unat a < 2 ^ LENGTH('a) - 1"
    using assms by (simp add: word_less_nat_alt unat_minus_one_word)
  then show ?thesis
    by (simp add: word_less_nat_alt unat_saturating_add)
qed

section \<open>Slices\<close>

text \<open>\<open>data[i]\<close>, \<open>data[a..b]\<close> and \<open>data[a..]\<close>: a panic when out of range.\<close>

definition index_at :: "'a list \<Rightarrow> nat \<Rightarrow> 'a panics" where
  "index_at xs i = (if i < length xs then Some (xs ! i) else None)"

definition slice :: "'a list \<Rightarrow> nat \<Rightarrow> nat \<Rightarrow> 'a list panics" where
  "slice xs a b = (if a \<le> b \<and> b \<le> length xs then Some (take (b - a) (drop a xs)) else None)"

definition slice_from :: "'a list \<Rightarrow> nat \<Rightarrow> 'a list panics" where
  "slice_from xs a = (if a \<le> length xs then Some (drop a xs) else None)"

text \<open>\<open>data.get(i)\<close> never panics: \<open>None\<close> is its ordinary result.\<close>

definition get_at :: "'a list \<Rightarrow> nat \<Rightarrow> 'a option" where
  "get_at xs i = (if i < length xs then Some (xs ! i) else None)"

definition get_range :: "'a list \<Rightarrow> nat \<Rightarrow> nat \<Rightarrow> 'a list option" where
  "get_range xs a b = (if a \<le> b \<and> b \<le> length xs then Some (take (b - a) (drop a xs)) else None)"

definition get_from :: "'a list \<Rightarrow> nat \<Rightarrow> 'a list option" where
  "get_from xs a = (if a \<le> length xs then Some (drop a xs) else None)"

text \<open>\<open>iter().position(p)\<close>.\<close>

fun position :: "('a \<Rightarrow> bool) \<Rightarrow> 'a list \<Rightarrow> nat option" where
  "position p [] = None"
| "position p (x # xs) = (if p x then Some 0 else map_option Suc (position p xs))"

lemma position_le: "position p xs = Some i \<Longrightarrow> i < length xs"
  by (induction xs arbitrary: i) (auto split: if_splits)

lemma position_append:
  "(\<forall>x \<in> set xs. \<not> p x) \<Longrightarrow> p y \<Longrightarrow> position p (xs @ y # ys) = Some (length xs)"
  by (induction xs) auto

lemma position_none: "(\<forall>x \<in> set xs. \<not> p x) \<Longrightarrow> position p xs = None"
  by (induction xs) auto

text \<open>\<open>chunks_exact(n)\<close>: whole chunks, an incomplete last one is left out.\<close>

fun chunks4 :: "'a list \<Rightarrow> 'a list list" where
  "chunks4 (a # b # c # d # xs) = [a, b, c, d] # chunks4 xs"
| "chunks4 _ = []"

section \<open>Little-endian encodings\<close>

definition le_bytes :: "nat \<Rightarrow> 'a::len word \<Rightarrow> bytes" where
  "le_bytes n w = map (\<lambda>i. ucast (drop_bit (8 * i) w)) [0..<n]"

fun le_val :: "bytes \<Rightarrow> 'a::len word" where
  "le_val [] = 0"
| "le_val (b # bs) = ucast b OR push_bit 8 (le_val bs)"

lemma length_le_bytes [simp, byte_simps]: "length (le_bytes n w) = n"
  by (simp add: le_bytes_def)

lemma nth_le_bytes: "i < n \<Longrightarrow> le_bytes n w ! i = ucast (drop_bit (8 * i) w)"
  by (simp add: le_bytes_def)

lemma bit_le_val:
  "bit (le_val bs :: 'a::len word) i \<longleftrightarrow>
     i < LENGTH('a) \<and> i div 8 < length bs \<and> bit (bs ! (i div 8)) (i mod 8)"
proof (induction bs arbitrary: i)
  case Nil
  then show ?case by simp
next
  case (Cons b bs)
  show ?case
  proof (cases "i < 8")
    case True
    then have "i div 8 = 0" "i mod 8 = i" by auto
    with True show ?thesis
      by (auto simp: bit_simps bit_push_bit_iff bit_ucast_iff)
  next
    case False
    then obtain j where j: "i = j + 8" using le_Suc_ex by (metis add.commute not_less)
    have "\<not> bit b i" using False by (auto dest: bit_imp_le_length)
    then show ?thesis
      by (auto simp: j bit_simps bit_push_bit_iff bit_ucast_iff Cons.IH)
  qed
qed

lemma le_val_le_bytes:
  assumes "LENGTH('a) \<le> 8 * n" shows "le_val (le_bytes n w) = (w :: 'a::len word)"
proof (rule bit_word_eqI)
  fix i assume i: "i < LENGTH('a)"
  with assms have "i div 8 < n" by auto
  moreover have "8 * (i div 8) + i mod 8 = i" by simp
  ultimately show "bit (le_val (le_bytes n w) :: 'a word) i \<longleftrightarrow> bit w i"
    using i by (simp add: bit_le_val nth_le_bytes bit_ucast_iff bit_drop_bit_eq)
qed

lemma le_bytes_le_val:
  assumes "length bs = n" "8 * n \<le> LENGTH('a)"
  shows "le_bytes n (le_val bs :: 'a::len word) = bs"
proof (rule nth_equalityI)
  fix i assume "i < length (le_bytes n (le_val bs :: 'a word))"
  then have i: "i < n" by simp
  show "le_bytes n (le_val bs :: 'a word) ! i = bs ! i"
  proof (rule bit_word_eqI)
    fix j assume j: "j < LENGTH(8)"
    then have "(8 * i + j) div 8 = i" "(8 * i + j) mod 8 = j" by auto
    moreover have "8 * i + j < LENGTH('a)" using i j assms(2) by simp
    ultimately show "bit (le_bytes n (le_val bs :: 'a word) ! i) j \<longleftrightarrow> bit (bs ! i) j"
      using i j assms(1) by (simp add: nth_le_bytes bit_ucast_iff bit_drop_bit_eq bit_le_val)
  qed
qed (simp add: assms(1))

text \<open>The uuid crate keeps a uuid as its 16 bytes in order; read big-endian they are its
  128-bit value, so comparing uuids compares the numbers.\<close>

definition uuid_bytes :: "uuid \<Rightarrow> bytes" where
  "uuid_bytes u = rev (le_bytes 16 u)"

definition uuid_from_bytes :: "bytes \<Rightarrow> uuid" where
  "uuid_from_bytes bs = le_val (rev bs)"

lemma length_uuid_bytes [simp, byte_simps]: "length (uuid_bytes u) = 16"
  by (simp add: uuid_bytes_def)

lemma uuid_roundtrip [simp, byte_simps]: "uuid_from_bytes (uuid_bytes u) = u"
  by (simp add: uuid_bytes_def uuid_from_bytes_def le_val_le_bytes)

lemma uuid_bytes_inverse: "length bs = 16 \<Longrightarrow> uuid_bytes (uuid_from_bytes bs) = bs"
  by (simp add: uuid_bytes_def uuid_from_bytes_def le_bytes_le_val)

lemma le_val_le_bytes_simps [simp, byte_simps]:
  "le_val (le_bytes 2 (w :: u16)) = w"
  "le_val (le_bytes 4 (x :: u32)) = x"
  "le_val (le_bytes 8 (y :: u64)) = y"
  by (simp_all add: le_val_le_bytes)

text \<open>Field reads of the code: little-endian integers at an offset, panicking past the end.\<close>

definition le_at :: "nat \<Rightarrow> bytes \<Rightarrow> nat \<Rightarrow> 'a::len word panics" where
  "le_at n xs o' = (if o' + n \<le> length xs then Some (le_val (take n (drop o' xs))) else None)"

lemma le_at_Some: "o' + n \<le> length xs \<Longrightarrow> le_at n xs o' = Some (le_val (take n (drop o' xs)))"
  by (simp add: le_at_def)

lemma index_at_Some: "i < length xs \<Longrightarrow> index_at xs i = Some (xs ! i)"
  by (simp add: index_at_def)

lemma slice_Some: "a \<le> b \<Longrightarrow> b \<le> length xs \<Longrightarrow> slice xs a b = Some (take (b - a) (drop a xs))"
  by (simp add: slice_def)

lemma slice_from_Some: "a \<le> length xs \<Longrightarrow> slice_from xs a = Some (drop a xs)"
  by (simp add: slice_from_def)

text \<open>Bounds checks are decided by arithmetic on lengths; the library's rewriting of
  \<open>0 < length xs\<close> to \<open>xs \<noteq> []\<close> would hide them from it.\<close>

declare length_greater_0_conv [simp del]

lemmas no_panic_simps = le_at_Some index_at_Some slice_Some slice_from_Some

text \<open>When a checked read fails; \<open>bind_eq_None_conv\<close> pushes the question through a
  sequence of reads.\<close>

lemma panics_iff:
  "index_at xs i = None \<longleftrightarrow> length xs \<le> i"
  "le_at n bs k = None \<longleftrightarrow> length bs < k + n"
  "slice xs a b = None \<longleftrightarrow> b < a \<or> length xs < b"
  "slice_from xs a = None \<longleftrightarrow> length xs < a"
  by (auto simp: index_at_def le_at_def slice_def slice_from_def)

lemma bind_SomeE:
  assumes "Option.bind m f = Some y" obtains x where "m = Some x" "f x = Some y"
  using assms by (cases m) simp_all

section \<open>Finite maps as HashMap\<close>

text \<open>\<open>map.retain(|k, v| P k v)\<close>, \<open>map.values().any(..)\<close> (with the key) and an update
  of every value in place.\<close>

definition fm_retain :: "('k \<Rightarrow> 'v \<Rightarrow> bool) \<Rightarrow> ('k, 'v) fmap \<Rightarrow> ('k, 'v) fmap" where
  "fm_retain P m = fmfilter (\<lambda>k. case fmlookup m k of Some v \<Rightarrow> P k v | None \<Rightarrow> False) m"

definition fm_any :: "('k \<Rightarrow> 'v \<Rightarrow> bool) \<Rightarrow> ('k, 'v) fmap \<Rightarrow> bool" where
  "fm_any P m = (\<not> fmpred (\<lambda>k v. \<not> P k v) m)"

definition fm_update :: "'k \<Rightarrow> ('v \<Rightarrow> 'v) \<Rightarrow> ('k, 'v) fmap \<Rightarrow> ('k, 'v) fmap" where
  "fm_update k f m = (case fmlookup m k of Some v \<Rightarrow> fmupd k (f v) m | None \<Rightarrow> m)"

definition fm_keys_where :: "('k \<Rightarrow> 'v \<Rightarrow> bool) \<Rightarrow> ('k, 'v) fmap \<Rightarrow> 'k fset" where
  "fm_keys_where P m = fmdom (fm_retain P m)"

definition fm_items :: "('k::linorder, 'v) fmap \<Rightarrow> ('k \<times> 'v) list" where
  "fm_items m = map (\<lambda>k. (k, the (fmlookup m k))) (sorted_list_of_fset (fmdom m))"

lemma fmlookup_retain [simp, fm_simps]:
  "fmlookup (fm_retain P m) k =
     (case fmlookup m k of Some v \<Rightarrow> if P k v then Some v else None | None \<Rightarrow> None)"
  by (simp add: fm_retain_def split: option.splits)

lemma fm_any_iff [fm_simps]: "fm_any P m \<longleftrightarrow> (\<exists>k v. fmlookup m k = Some v \<and> P k v)"
  by (auto simp: fm_any_def fmpred_iff)

lemma fmlookup_update [simp, fm_simps]:
  "fmlookup (fm_update k f m) k' =
     (if k' = k then map_option f (fmlookup m k) else fmlookup m k')"
  by (auto simp: fm_update_def split: option.splits)

lemma fm_keys_where_iff [simp, fm_simps]:
  "k |\<in>| fm_keys_where P m \<longleftrightarrow> (\<exists>v. fmlookup m k = Some v \<and> P k v)"
  by (auto simp: fm_keys_where_def fmlookup_dom_iff split: option.splits if_splits)

lemma set_fm_items [simp, fm_simps]: "(k, v) \<in> set (fm_items m) \<longleftrightarrow> fmlookup m k = Some v"
proof -
  have "set (fm_items m) = (\<lambda>k. (k, the (fmlookup m k))) ` fset (fmdom m)"
    by (simp add: fm_items_def)
  then show ?thesis
    by (auto simp: image_iff fmlookup_dom_iff)
qed

lemma fst_fm_items: "map fst (fm_items m) = sorted_list_of_fset (fmdom m)"
  by (simp add: fm_items_def comp_def)

lemma distinct_fst_fm_items [simp]: "distinct (map fst (fm_items m))"
  by (simp add: fst_fm_items sorted_list_of_fset.rep_eq)

lemma fmdom_update [simp]: "fmdom (fm_update k f m) = fmdom m"
  by (auto simp: fm_update_def fmlookup_dom_iff split: option.splits intro: fmdomI)

end
