(* ===== verification/Utf8.thy ===== *)
theory Utf8
  imports Prelude
begin

text \<open>
  Rust strings: a \<open>String\<close> is a list of Unicode scalar values.  \<open>str::from_utf8\<close>
  (strict) and \<open>String::from_utf8_lossy\<close> (each maximal ill-formed part becomes one U+FFFD)
  are both read off one decoder that takes the next character or ill-formed part off the front,
  as the standard library's do.  The round trips relate it to the encoder \<open>as_bytes\<close>.
\<close>

type_synonym rstring = "nat list"

definition is_scalar :: "nat \<Rightarrow> bool" where
  "is_scalar c \<longleftrightarrow> c < 0xD800 \<or> (0xE000 \<le> c \<and> c \<le> 0x10FFFF)"

definition utf8_char :: "nat \<Rightarrow> bytes" where
  "utf8_char c =
     (if c < 0x80 then [of_nat c]
      else if c < 0x800 then [of_nat (0xC0 + c div 64), of_nat (0x80 + c mod 64)]
      else if c < 0x10000 then
        [of_nat (0xE0 + c div 4096), of_nat (0x80 + c div 64 mod 64), of_nat (0x80 + c mod 64)]
      else
        [of_nat (0xF0 + c div 262144), of_nat (0x80 + c div 4096 mod 64),
         of_nat (0x80 + c div 64 mod 64), of_nat (0x80 + c mod 64)])"

definition as_bytes :: "rstring \<Rightarrow> bytes" where
  "as_bytes s = concat (map utf8_char s)"

definition safe_get :: "bytes \<Rightarrow> nat \<Rightarrow> nat" where
  "safe_get bs i = (if i < length bs then unat (bs ! i) else 0)"

definition is_cont :: "nat \<Rightarrow> bool" where
  "is_cont b \<longleftrightarrow> 0x80 \<le> b \<and> b \<le> 0xBF"

definition second_ok :: "nat \<Rightarrow> nat \<Rightarrow> bool" where
  "second_ok b c \<longleftrightarrow>
     (if b = 0xE0 then 0xA0 \<le> c \<and> c \<le> 0xBF
      else if b = 0xED then 0x80 \<le> c \<and> c \<le> 0x9F
      else if b = 0xF0 then 0x90 \<le> c \<and> c \<le> 0xBF
      else if b = 0xF4 then 0x80 \<le> c \<and> c \<le> 0x8F
      else is_cont c)"

text \<open>The next character (or \<open>None\<close>, an ill-formed part) and how many bytes it takes.\<close>

definition utf8_dec :: "nat \<Rightarrow> nat \<Rightarrow> nat \<Rightarrow> nat \<Rightarrow> nat option \<times> nat" where
  "utf8_dec b c d e =
     (if b < 0x80 then (Some b, 1)
      else if b < 0xC2 \<or> 0xF4 < b then (None, 1)
      else if \<not> second_ok b c then (None, 1)
      else if b < 0xE0 then (Some ((b mod 32) * 64 + c mod 64), 2)
      else if \<not> is_cont d then (None, 2)
      else if b < 0xF0 then (Some ((b mod 16) * 4096 + (c mod 64) * 64 + d mod 64), 3)
      else if \<not> is_cont e then (None, 3)
      else (Some ((b mod 8) * 262144 + (c mod 64) * 4096 + (d mod 64) * 64 + e mod 64), 4))"

definition utf8_step :: "bytes \<Rightarrow> nat option \<times> nat" where
  "utf8_step bs = utf8_dec (safe_get bs 0) (safe_get bs 1) (safe_get bs 2) (safe_get bs 3)"

lemma utf8_step_pos: "0 < snd (utf8_step bs)"
  by (simp add: utf8_step_def utf8_dec_def)

function utf8_chunks :: "bytes \<Rightarrow> nat option list" where
  "utf8_chunks bs =
     (if bs = [] then []
      else fst (utf8_step bs) # utf8_chunks (drop (snd (utf8_step bs)) bs))"
  by pat_completeness auto
termination
  by (relation "measure length") (use utf8_step_pos in \<open>auto simp: neq_Nil_conv\<close>)

declare utf8_chunks.simps [simp del]

lemma utf8_chunks_Nil [simp]: "utf8_chunks [] = []"
  by (subst utf8_chunks.simps) simp

text \<open>\<open>std::str::from_utf8\<close> and \<open>String::from_utf8_lossy\<close>.\<close>

definition from_utf8 :: "bytes \<Rightarrow> rstring option" where
  "from_utf8 bs =
     (let cs = utf8_chunks bs in if None \<in> set cs then None else Some (map the cs))"

definition from_utf8_lossy :: "bytes \<Rightarrow> rstring" where
  "from_utf8_lossy bs = map (\<lambda>c. case c of Some v \<Rightarrow> v | None \<Rightarrow> 0xFFFD) (utf8_chunks bs)"

text \<open>Latin-1: \<open>b as char\<close>.\<close>

definition latin1 :: "bytes \<Rightarrow> rstring" where
  "latin1 bs = map unat bs"

section \<open>Round trips\<close>

lemma safe_get_Cons [simp]:
  "safe_get (b # bs) 0 = unat b"
  "safe_get (b # bs) (Suc i) = safe_get bs i"
  "safe_get (b # bs) (numeral k) = safe_get bs (pred_numeral k)"
  "safe_get [] i = 0"
  by (simp_all add: safe_get_def numeral_eq_Suc)

lemma utf8_char_nonempty [simp]: "utf8_char c \<noteq> []"
  by (simp add: utf8_char_def)

lemma unat_byte: "n < 256 \<Longrightarrow> unat (of_nat n :: u8) = n"
  by (simp add: unsigned_of_nat take_bit_eq_mod)

lemma safe_get_0: "safe_get (b # bs) 0 = unat b"
  and safe_get_1: "safe_get (b # c # bs) 1 = unat c"
  and safe_get_2: "safe_get (b # c # d # bs) 2 = unat d"
  and safe_get_3: "safe_get (b # c # d # e # bs) 3 = unat e"
  by (simp_all add: safe_get_def)

lemma mod_offset: "a < n \<Longrightarrow> (k * n + a) mod n = (a :: nat)"
  by simp

lemma utf8_dec2:
  assumes "2 \<le> a" "a < 32" "b < 64"
  shows "utf8_dec (0xC0 + a) (0x80 + b) d e = (Some (a * 64 + b), 2)"
proof -
  have m: "(0xC0 + a) mod 32 = a" "(0x80 + b) mod 64 = b"
    using mod_offset [of a 32 6] mod_offset [of b 64 2] assms by simp_all
  show ?thesis
    unfolding utf8_dec_def m second_ok_def is_cont_def using assms by simp
qed

lemma utf8_dec3:
  assumes "a < 16" "b < 64" "d < 64" "a = 0 \<Longrightarrow> 32 \<le> b" "a = 13 \<Longrightarrow> b < 32"
  shows "utf8_dec (0xE0 + a) (0x80 + b) (0x80 + d) e = (Some (a * 4096 + b * 64 + d), 3)"
proof -
  have m: "(0xE0 + a) mod 16 = a" "(0x80 + b) mod 64 = b" "(0x80 + d) mod 64 = d"
    using mod_offset [of a 16 14] mod_offset [of b 64 2] mod_offset [of d 64 2] assms(1-3)
    by simp_all
  show ?thesis
    unfolding utf8_dec_def m second_ok_def is_cont_def using assms by auto
qed

lemma utf8_dec4:
  assumes "a < 5" "b < 64" "d < 64" "e < 64" "a = 0 \<Longrightarrow> 16 \<le> b" "a = 4 \<Longrightarrow> b < 16"
  shows "utf8_dec (0xF0 + a) (0x80 + b) (0x80 + d) (0x80 + e) =
    (Some (a * 262144 + b * 4096 + d * 64 + e), 4)"
proof -
  have m: "(0xF0 + a) mod 8 = a" "(0x80 + b) mod 64 = b" "(0x80 + d) mod 64 = d"
    "(0x80 + e) mod 64 = e"
    using mod_offset [of a 8 30] mod_offset [of b 64 2] mod_offset [of d 64 2]
      mod_offset [of e 64 2] assms(1-4) by simp_all
  show ?thesis
    unfolding utf8_dec_def m second_ok_def is_cont_def using assms by auto
qed

lemma utf8_step_char:
  assumes "is_scalar c"
  shows "utf8_step (utf8_char c @ bs) = (Some c, length (utf8_char c))"
proof -
  consider "c < 0x80" | "0x80 \<le> c" "c < 0x800" | "0x800 \<le> c" "c < 0x10000"
    | "0x10000 \<le> c" "c \<le> 0x10FFFF"
    using assms by (force simp: is_scalar_def)
  then show ?thesis
  proof cases
    case 1
    then show ?thesis
      by (simp add: utf8_char_def utf8_step_def utf8_dec_def safe_get_0 unat_byte)
  next
    case 2
    define a b where ab: "a = c div 64" "b = c mod 64"
    have c: "a * 64 + b = c" "b < 64" by (simp_all add: ab)
    have char: "utf8_char c = [of_nat (0xC0 + a), of_nat (0x80 + b)]"
      using 2 unfolding ab utf8_char_def by simp
    have r: "2 \<le> a" "a < 32" "0xC0 + a < 256" "0x80 + b < 256" using 2 c by linarith+
    show ?thesis
      unfolding char utf8_step_def append.simps safe_get_0 safe_get_1 unat_byte [OF r(3)]
        unat_byte [OF r(4)] utf8_dec2 [OF r(1,2) c(2)] c(1) by simp
  next
    case 3
    define a b d where ab: "a = c div 4096" "b = c div 64 mod 64" "d = c mod 64"
    have "c div 64 div 64 = a" by (simp add: ab div_mult2_eq [symmetric])
    then have "c div 64 * 64 + d = c" "a * 64 + b = c div 64"
      unfolding ab by (metis div_mult_mod_eq)+
    then have c: "a * 4096 + b * 64 + d = c" by linarith
    have c': "b < 64" "d < 64" by (simp_all add: ab)
    have char: "utf8_char c = [of_nat (0xE0 + a), of_nat (0x80 + b), of_nat (0x80 + d)]"
      using 3 unfolding ab utf8_char_def by simp
    have r: "a < 16" "a = 0 \<Longrightarrow> 32 \<le> b" "a = 13 \<Longrightarrow> b < 32"
      "0xE0 + a < 256" "0x80 + b < 256" "0x80 + d < 256"
      using 3 c c' assms unfolding is_scalar_def by linarith+
    show ?thesis
      unfolding char utf8_step_def append.simps safe_get_0 safe_get_1 safe_get_2 unat_byte [OF r(4)]
        unat_byte [OF r(5)] unat_byte [OF r(6)]
      by (simp only: utf8_dec3 r c' c) simp
  next
    case 4
    define a b d e where ab: "a = c div 262144" "b = c div 4096 mod 64" "d = c div 64 mod 64" "e = c mod 64"
    have "c div 64 div 64 = c div 4096" "c div 4096 div 64 = a"
      by (simp_all add: ab div_mult2_eq [symmetric])
    then have "c div 64 * 64 + e = c" "c div 4096 * 64 + d = c div 64" "a * 64 + b = c div 4096"
      unfolding ab by (metis div_mult_mod_eq)+
    then have c: "a * 262144 + b * 4096 + d * 64 + e = c" by linarith
    have c': "b < 64" "d < 64" "e < 64" by (simp_all add: ab)
    have char: "utf8_char c = [of_nat (0xF0 + a), of_nat (0x80 + b), of_nat (0x80 + d), of_nat (0x80 + e)]"
      using 4 unfolding ab utf8_char_def by simp
    have r: "a < 5" "a = 0 \<Longrightarrow> 16 \<le> b" "a = 4 \<Longrightarrow> b < 16"
      "0xF0 + a < 256" "0x80 + b < 256" "0x80 + d < 256" "0x80 + e < 256"
      using 4 c c' by linarith+
    show ?thesis
      unfolding char utf8_step_def append.simps safe_get_0 safe_get_1 safe_get_2 safe_get_3
        unat_byte [OF r(4)] unat_byte [OF r(5)] unat_byte [OF r(6)] unat_byte [OF r(7)]
      by (simp only: utf8_dec4 r c' c) simp
  qed
qed

lemma utf8_chunks_as_bytes:
  "\<forall>c \<in> set s. is_scalar c \<Longrightarrow> utf8_chunks (as_bytes s) = map Some s"
proof (induction s)
  case Nil
  then show ?case by (simp add: as_bytes_def)
next
  case (Cons c s)
  then have step: "utf8_step (as_bytes (c # s)) = (Some c, length (utf8_char c))"
    by (simp add: as_bytes_def utf8_step_char)
  have "as_bytes (c # s) \<noteq> []" by (simp add: as_bytes_def)
  then have "utf8_chunks (as_bytes (c # s)) = Some c # utf8_chunks (drop (length (utf8_char c)) (as_bytes (c # s)))"
    by (subst utf8_chunks.simps) (simp add: step)
  also have "drop (length (utf8_char c)) (as_bytes (c # s)) = as_bytes s"
    by (simp add: as_bytes_def)
  finally show ?case using Cons by simp
qed

theorem from_utf8_as_bytes:
  "\<forall>c \<in> set s. is_scalar c \<Longrightarrow> from_utf8 (as_bytes s) = Some s"
  by (auto simp: from_utf8_def Let_def utf8_chunks_as_bytes comp_def)

lemma from_utf8_lossy_as_bytes:
  "\<forall>c \<in> set s. is_scalar c \<Longrightarrow> from_utf8_lossy (as_bytes s) = s"
  by (simp add: from_utf8_lossy_def utf8_chunks_as_bytes comp_def)

text \<open>Strict and lossy decoding agree wherever the strict one succeeds.\<close>

lemma from_utf8_lossy_agrees: "from_utf8 bs = Some s \<Longrightarrow> from_utf8_lossy bs = s"
  by (auto simp: from_utf8_def from_utf8_lossy_def Let_def split: if_splits option.splits)

end
