(* ===== verification/Protocol.thy ===== *)
theory Protocol
  imports Utf8
begin

text \<open>
  The Brew wire protocol (\<open>src/src/protocol.rs\<close>): message classes and types, the message
  data, the parser with its lazily detected protocol version, and the version adaptation of a
  forwarded message.  The parser runs in the panic monad, so every slice and index of the code
  is a bounds check of the model; \<open>Protocol_Parser\<close> discharges all of them.
\<close>

section \<open>Constants\<close>

abbreviation (input) CLASS_SUBSCRIBER :: u8 where "CLASS_SUBSCRIBER \<equiv> 0xf0"
abbreviation (input) CLASS_CALL_CONTROL :: u8 where "CLASS_CALL_CONTROL \<equiv> 0xf1"
abbreviation (input) CLASS_FRAME :: u8 where "CLASS_FRAME \<equiv> 0xf2"
abbreviation (input) CLASS_ERROR :: u8 where "CLASS_ERROR \<equiv> 0xf3"
abbreviation (input) CLASS_SERVICE :: u8 where "CLASS_SERVICE \<equiv> 0xf4"
abbreviation (input) CLASS_FEDERATION :: u8 where "CLASS_FEDERATION \<equiv> 0xfe"

abbreviation (input) FED_WITHDRAW :: u8 where "FED_WITHDRAW \<equiv> 0"
abbreviation (input) FED_ROUTE :: u8 where "FED_ROUTE \<equiv> 1"
abbreviation (input) FED_PRUNE :: u8 where "FED_PRUNE \<equiv> 2"
abbreviation (input) FED_BTS_HELLO :: u8 where "FED_BTS_HELLO \<equiv> 3"
abbreviation (input) FED_BTS :: u8 where "FED_BTS \<equiv> 4"
abbreviation (input) FED_MS_POS :: u8 where "FED_MS_POS \<equiv> 5"
abbreviation (input) FED_EMERGENCY :: u8 where "FED_EMERGENCY \<equiv> 6"

abbreviation (input) SUB_DEREGISTER :: u8 where "SUB_DEREGISTER \<equiv> 0"
abbreviation (input) SUB_REGISTER :: u8 where "SUB_REGISTER \<equiv> 1"
abbreviation (input) SUB_REREGISTER :: u8 where "SUB_REREGISTER \<equiv> 2"
abbreviation (input) SUB_AFFILIATE :: u8 where "SUB_AFFILIATE \<equiv> 8"
abbreviation (input) SUB_DEAFFILIATE :: u8 where "SUB_DEAFFILIATE \<equiv> 9"

abbreviation (input) CALL_GROUP_TX :: u8 where "CALL_GROUP_TX \<equiv> 2"
abbreviation (input) CALL_GROUP_IDLE :: u8 where "CALL_GROUP_IDLE \<equiv> 3"
abbreviation (input) CALL_SETUP_REQUEST :: u8 where "CALL_SETUP_REQUEST \<equiv> 4"
abbreviation (input) CALL_SETUP_ACCEPT :: u8 where "CALL_SETUP_ACCEPT \<equiv> 5"
abbreviation (input) CALL_SETUP_REJECT :: u8 where "CALL_SETUP_REJECT \<equiv> 6"
abbreviation (input) CALL_ALERT :: u8 where "CALL_ALERT \<equiv> 7"
abbreviation (input) CALL_CONNECT_REQUEST :: u8 where "CALL_CONNECT_REQUEST \<equiv> 8"
abbreviation (input) CALL_CONNECT_CONFIRM :: u8 where "CALL_CONNECT_CONFIRM \<equiv> 9"
abbreviation (input) CALL_RELEASE :: u8 where "CALL_RELEASE \<equiv> 10"
abbreviation (input) CALL_SHORT_TRANSFER :: u8 where "CALL_SHORT_TRANSFER \<equiv> 11"
abbreviation (input) CALL_SIMPLEX_GRANTED :: u8 where "CALL_SIMPLEX_GRANTED \<equiv> 12"
abbreviation (input) CALL_SIMPLEX_IDLE :: u8 where "CALL_SIMPLEX_IDLE \<equiv> 13"

abbreviation (input) CAUSE_CALLED_PARTY_NOT_REACHABLE :: u8 where "CAUSE_CALLED_PARTY_NOT_REACHABLE \<equiv> 3"
abbreviation (input) CAUSE_SWMI_REQUESTED_DISCONNECTION :: u8 where "CAUSE_SWMI_REQUESTED_DISCONNECTION \<equiv> 14"

abbreviation (input) FRAME_TRAFFIC_CHANNEL :: u8 where "FRAME_TRAFFIC_CHANNEL \<equiv> 0"
abbreviation (input) FRAME_SDS_TRANSFER :: u8 where "FRAME_SDS_TRANSFER \<equiv> 1"
abbreviation (input) FRAME_SDS_REPORT :: u8 where "FRAME_SDS_REPORT \<equiv> 2"
abbreviation (input) FRAME_DTMF :: u8 where "FRAME_DTMF \<equiv> 3"

abbreviation (input) SERVICE_RSSI :: u8 where "SERVICE_RSSI \<equiv> 0x10"
abbreviation (input) SERVICE_EMERGENCY :: u8 where "SERVICE_EMERGENCY \<equiv> 0x11"
abbreviation (input) SERVICE_BLACKLIST_CMD :: u8 where "SERVICE_BLACKLIST_CMD \<equiv> 0x12"
abbreviation (input) SERVICE_BLACKLIST :: u8 where "SERVICE_BLACKLIST \<equiv> 0x13"

abbreviation (input) CIRCULAR_CALL_BASE_LEN :: nat where "CIRCULAR_CALL_BASE_LEN \<equiv> 51"
abbreviation (input) GROUP_TX_BASE_LEN :: nat where "GROUP_TX_BASE_LEN \<equiv> 12"
abbreviation (input) MNEMONIC_FIELD_LEN :: nat where "MNEMONIC_FIELD_LEN \<equiv> 34"

section \<open>Messages\<close>

datatype conn_version = V0 | V1

fun as_u8 :: "conn_version \<Rightarrow> nat" where
  "as_u8 V0 = 0"
| "as_u8 V1 = 1"

text \<open>Versions are compared by \<open>as_u8\<close>; a promotion is a step up in this order.\<close>

instantiation conn_version :: linorder
begin

definition less_eq_conn_version :: "conn_version \<Rightarrow> conn_version \<Rightarrow> bool" where
  "less_eq_conn_version v w \<longleftrightarrow> as_u8 v \<le> as_u8 w"

definition less_conn_version :: "conn_version \<Rightarrow> conn_version \<Rightarrow> bool" where
  "less_conn_version v w \<longleftrightarrow> as_u8 v < as_u8 w"

instance
proof
  fix v w :: conn_version
  show "v \<le> w \<Longrightarrow> w \<le> v \<Longrightarrow> v = w"
    by (cases v; cases w) (simp_all add: less_eq_conn_version_def)
qed (auto simp: less_eq_conn_version_def less_conn_version_def)

end

definition has_mnemonic :: "conn_version \<Rightarrow> bool" where
  "has_mnemonic v = (v = V1)"

definition from_header_value :: "u8 option \<Rightarrow> conn_version" where
  "from_header_value v = (case v of Some x \<Rightarrow> if 1 \<le> x then V1 else V0 | None \<Rightarrow> V0)"

record subscriber_message =
  sm_msg_type :: u8
  sm_issi :: u32
  sm_timestamp :: u64
  sm_fraction :: u32
  sm_groups :: "u32 list"

record group_transmission =
  gt_source :: u32
  gt_destination :: u32
  gt_priority :: u8
  gt_access :: u8
  gt_service :: u16
  gt_mnemonic :: "rstring option"

record circular_call =
  cc_source :: u32
  cc_destination :: u32
  cc_number :: rstring
  cc_priority :: u8
  cc_service :: u8
  cc_mnemonic :: "rstring option"

datatype call_payload =
    GroupTransmission group_transmission
  | CircularCall circular_call
  | Cause u8
  | EmptyPayload
  | ShortTransfer u32 u32
  | RawPayload bytes

record call_control_message =
  cm_call_state :: u8
  cm_identifier :: uuid
  cm_payload :: call_payload

record frame_message =
  fm_frame_type :: u8
  fm_identifier :: uuid
  fm_length_bits :: u16
  fm_data :: bytes

record error_message =
  em_error_type :: u8
  em_data :: bytes

record service_message =
  sv_service_type :: u8
  sv_json_data :: rstring

datatype brew_message =
    SubscriberMsg subscriber_message
  | CallControlMsg call_control_message
  | FrameMsg frame_message
  | ErrorMsg error_message
  | ServiceMsg service_message

datatype parse_error = TooShort nat | UnknownClass u8 | InvalidUtf8

type_synonym 'a parsed = "(parse_error + 'a) panics"

section \<open>Talker names\<close>

text \<open>\<open>trim_end_matches(['\0', ' '])\<close>.\<close>

definition trim_end_nul_space :: "rstring \<Rightarrow> rstring" where
  "trim_end_nul_space s = rev (dropWhile (\<lambda>c. c = 0 \<or> c = 32) (rev s))"

text \<open>The loop of \<open>decode_7bit_packed\<close>: \<open>n\<close> septets to go, the next at bit \<open>bit_pos\<close>.\<close>

fun septet_loop :: "bytes \<Rightarrow> nat \<Rightarrow> nat \<Rightarrow> rstring panics" where
  "septet_loop data 0 bit_pos = Some []"
| "septet_loop data (Suc n) bit_pos =
     (let byte_idx = bit_pos div 8; bit_off = bit_pos mod 8 in
      if length data \<le> byte_idx then Some []
      else do {
        b \<leftarrow> index_at data byte_idx;
        value \<leftarrow>
          (if 1 < bit_off \<and> byte_idx + 1 < length data then do {
             c \<leftarrow> index_at data (byte_idx + 1);
             Some ((ucast (drop_bit bit_off b) :: u16) OR push_bit (8 - bit_off) (ucast c))
           } else Some (ucast (drop_bit bit_off b)));
        rest \<leftarrow> septet_loop data n (bit_pos + 7);
        Some (unat (ucast (value AND 0x7f) :: u8) # rest)
      })"

definition decode_7bit_packed :: "bytes \<Rightarrow> nat \<Rightarrow> rstring panics" where
  "decode_7bit_packed data len_bits = septet_loop data (len_bits div 7) 0"

definition div_ceil :: "nat \<Rightarrow> nat \<Rightarrow> nat" where
  "div_ceil a b = (a + b - 1) div b"

definition decode_mnemonic :: "bytes \<Rightarrow> rstring option panics" where
  "decode_mnemonic field =
     (if length field < 2 then Some None
      else do {
        b0 \<leftarrow> index_at field 0;
        b1 \<leftarrow> index_at field 1;
        let scheme = b0 AND 0x7f;
        let len_bits = unat b1;
        if len_bits = 0 then Some None
        else do {
          text \<leftarrow> slice_from field 2;
          decoded \<leftarrow>
            (if scheme = 0x00 then
               map_option latin1 (slice text 0 (min (len_bits div 8) (length text)))
             else if scheme = 0x01 then decode_7bit_packed text len_bits
             else map_option from_utf8_lossy (slice text 0 (min (div_ceil len_bits 8) (length text))));
          let trimmed = trim_end_nul_space decoded;
          Some (if trimmed = [] then None else Some trimmed)
        }
      })"

definition ascii_field :: "bytes \<Rightarrow> rstring panics" where
  "ascii_field data =
     (let end' = (case position (\<lambda>b. b = 0) data of Some i \<Rightarrow> i | None \<Rightarrow> length data)
      in map_option from_utf8_lossy (slice data 0 end'))"

section \<open>The parser\<close>

text \<open>The \<open>while o + 4 <= data.len()\<close> loop of \<open>parse_subscriber\<close>, on what is left after
  offset \<open>o\<close>.\<close>

fun group_list :: "bytes \<Rightarrow> u32 list" where
  "group_list (a # b # c # d # rest) = le_val [a, b, c, d] # group_list rest"
| "group_list _ = []"

definition parse_subscriber :: "bytes \<Rightarrow> brew_message parsed" where
  "parse_subscriber data =
     (if length data < 18 then Some (Inl (TooShort (length data)))
      else do {
        t \<leftarrow> index_at data 1;
        issi \<leftarrow> le_at 4 data 2;
        timestamp \<leftarrow> le_at 8 data 6;
        fraction \<leftarrow> le_at 4 data 14;
        Some (Inr (SubscriberMsg \<lparr>sm_msg_type = t, sm_issi = issi, sm_timestamp = timestamp,
          sm_fraction = fraction, sm_groups = group_list (drop 18 data)\<rparr>))
      })"

text \<open>The shared body of SETUP_REQUEST and CONNECT_REQUEST: the circular-call head.\<close>

definition circular_head :: "bytes \<Rightarrow> rstring option \<Rightarrow> call_payload panics" where
  "circular_head payload mnemonic = do {
     source \<leftarrow> le_at 4 payload 0;
     destination \<leftarrow> le_at 4 payload 4;
     field \<leftarrow> slice payload 8 40;
     number \<leftarrow> ascii_field field;
     priority \<leftarrow> index_at payload 40;
     service \<leftarrow> index_at payload 41;
     Some (CircularCall \<lparr>cc_source = source, cc_destination = destination, cc_number = number,
       cc_priority = priority, cc_service = service, cc_mnemonic = mnemonic\<rparr>)
   }"

definition parse_group_tx :: "bytes \<Rightarrow> nat \<Rightarrow> conn_version \<Rightarrow> (call_payload \<times> conn_version) parsed" where
  "parse_group_tx payload data_len version =
     (if length payload < GROUP_TX_BASE_LEN then Some (Inl (TooShort data_len))
      else do {
        let has_tail = GROUP_TX_BASE_LEN < length payload;
        mnemonic \<leftarrow>
          (if has_tail then
             (case (case get_range payload GROUP_TX_BASE_LEN (GROUP_TX_BASE_LEN + MNEMONIC_FIELD_LEN) of
                      Some f \<Rightarrow> Some f | None \<Rightarrow> get_from payload GROUP_TX_BASE_LEN) of
                Some f \<Rightarrow> decode_mnemonic f | None \<Rightarrow> Some None)
           else Some None);
        source \<leftarrow> le_at 4 payload 0;
        destination \<leftarrow> le_at 4 payload 4;
        priority \<leftarrow> index_at payload 8;
        access \<leftarrow> index_at payload 9;
        service \<leftarrow> le_at 2 payload 10;
        Some (Inr (GroupTransmission \<lparr>gt_source = source, gt_destination = destination,
            gt_priority = priority, gt_access = access, gt_service = service, gt_mnemonic = mnemonic\<rparr>,
          if has_tail then V1 else version))
      })"

definition parse_setup_request :: "bytes \<Rightarrow> nat \<Rightarrow> conn_version \<Rightarrow> (call_payload \<times> conn_version) parsed" where
  "parse_setup_request payload data_len version =
     (if length payload < CIRCULAR_CALL_BASE_LEN then Some (Inl (TooShort data_len))
      else do {
        let has_tail = CIRCULAR_CALL_BASE_LEN + MNEMONIC_FIELD_LEN \<le> length payload;
        mnemonic \<leftarrow>
          (if has_tail then
             (case get_range payload CIRCULAR_CALL_BASE_LEN (CIRCULAR_CALL_BASE_LEN + MNEMONIC_FIELD_LEN) of
                Some f \<Rightarrow> decode_mnemonic f | None \<Rightarrow> Some None)
           else Some None);
        call \<leftarrow> circular_head payload mnemonic;
        Some (Inr (call, if has_tail then V1 else version))
      })"

definition parse_call_payload :: "u8 \<Rightarrow> bytes \<Rightarrow> nat \<Rightarrow> conn_version \<Rightarrow> (call_payload \<times> conn_version) parsed" where
  "parse_call_payload call_state payload data_len version =
     (if call_state = CALL_GROUP_TX then parse_group_tx payload data_len version
      else if call_state = CALL_SETUP_REQUEST then parse_setup_request payload data_len version
      else if call_state = CALL_CONNECT_REQUEST then
        (if length payload < CIRCULAR_CALL_BASE_LEN then Some (Inl (TooShort data_len))
         else do { call \<leftarrow> circular_head payload None; Some (Inr (call, version)) })
      else if call_state \<in> {CALL_GROUP_IDLE, CALL_SETUP_REJECT, CALL_RELEASE} then
        (if payload = [] then Some (Inl (TooShort data_len))
         else do { c \<leftarrow> index_at payload 0; Some (Inr (Cause c, version)) })
      else if call_state \<in> {CALL_SETUP_ACCEPT, CALL_ALERT} then Some (Inr (EmptyPayload, version))
      else if call_state = CALL_SHORT_TRANSFER then
        (if length payload < 8 then Some (Inl (TooShort data_len))
         else do {
           source \<leftarrow> le_at 4 payload 0;
           destination \<leftarrow> le_at 4 payload 4;
           Some (Inr (ShortTransfer source destination, version))
         })
      else Some (Inr (RawPayload payload, version)))"

definition parse_call_control :: "bytes \<Rightarrow> conn_version \<Rightarrow> (brew_message \<times> conn_version) parsed" where
  "parse_call_control data version =
     (if length data < 18 then Some (Inl (TooShort (length data)))
      else do {
        id \<leftarrow> slice data 2 18;
        payload \<leftarrow> slice_from data 18;
        t \<leftarrow> index_at data 1;
        r \<leftarrow> parse_call_payload t payload (length data) version;
        (case r of
           Inl e \<Rightarrow> Some (Inl e)
         | Inr (p, detected) \<Rightarrow>
             Some (Inr (CallControlMsg \<lparr>cm_call_state = t, cm_identifier = uuid_from_bytes id,
               cm_payload = p\<rparr>, detected)))
      })"

definition parse_frame :: "bytes \<Rightarrow> brew_message parsed" where
  "parse_frame data =
     (if length data < 20 then Some (Inl (TooShort (length data)))
      else do {
        t \<leftarrow> index_at data 1;
        id \<leftarrow> slice data 2 18;
        bits \<leftarrow> le_at 2 data 18;
        rest \<leftarrow> slice_from data 20;
        Some (Inr (FrameMsg \<lparr>fm_frame_type = t, fm_identifier = uuid_from_bytes id,
          fm_length_bits = bits, fm_data = rest\<rparr>))
      })"

definition parse_service :: "bytes \<Rightarrow> brew_message parsed" where
  "parse_service data = do {
     raw \<leftarrow> slice_from data 2;
     let end' = (case position (\<lambda>b. b = 0) raw of Some i \<Rightarrow> i | None \<Rightarrow> length raw);
     text \<leftarrow> slice raw 0 end';
     t \<leftarrow> index_at data 1;
     (case from_utf8 text of
        None \<Rightarrow> Some (Inl InvalidUtf8)
      | Some s \<Rightarrow> Some (Inr (ServiceMsg \<lparr>sv_service_type = t, sv_json_data = s\<rparr>)))
   }"

text \<open>\<open>.map(|m| (m, version))\<close>.\<close>

definition with_version :: "conn_version \<Rightarrow> brew_message parsed \<Rightarrow> (brew_message \<times> conn_version) parsed" where
  "with_version version = map_option (map_sum id (\<lambda>m. (m, version)))"

definition parse_with_version :: "bytes \<Rightarrow> conn_version \<Rightarrow> (brew_message \<times> conn_version) parsed" where
  "parse_with_version data version =
     (if length data < 2 then Some (Inl (TooShort (length data)))
      else do {
        c \<leftarrow> index_at data 0;
        if c = CLASS_SUBSCRIBER then with_version version (parse_subscriber data)
        else if c = CLASS_CALL_CONTROL then parse_call_control data version
        else if c = CLASS_FRAME then with_version version (parse_frame data)
        else if c = CLASS_ERROR then do {
          t \<leftarrow> index_at data 1;
          rest \<leftarrow> slice_from data 2;
          Some (Inr (ErrorMsg \<lparr>em_error_type = t, em_data = rest\<rparr>, version))
        }
        else if c = CLASS_SERVICE then with_version version (parse_service data)
        else Some (Inl (UnknownClass c))
      })"

definition parse_brew :: "bytes \<Rightarrow> brew_message parsed" where
  "parse_brew data = map_option (map_sum id fst) (parse_with_version data V1)"

section \<open>Version adaptation\<close>

definition v0_length :: "u8 \<Rightarrow> nat option" where
  "v0_length call_state =
     (if call_state = CALL_GROUP_TX then Some (18 + GROUP_TX_BASE_LEN)
      else if call_state = CALL_SETUP_REQUEST then Some (18 + CIRCULAR_CALL_BASE_LEN)
      else None)"

definition adapt_to_version :: "bytes \<Rightarrow> conn_version \<Rightarrow> bytes" where
  "adapt_to_version raw version =
     (if has_mnemonic version \<or> length raw < 2 \<or> raw ! 0 \<noteq> CLASS_CALL_CONTROL then raw
      else (case v0_length (raw ! 1) of
              None \<Rightarrow> raw
            | Some v0_len \<Rightarrow> if v0_len < length raw then take v0_len raw else raw))"

definition raw_peer_pair :: "call_payload \<Rightarrow> (u32 \<times> u32) option panics" where
  "raw_peer_pair p =
     (case p of
        RawPayload raw \<Rightarrow>
          (if length raw < 8 then Some None
           else do { a \<leftarrow> le_at 4 raw 0; b \<leftarrow> le_at 4 raw 4; Some (Some (a, b)) })
      | _ \<Rightarrow> Some None)"

end
