(* ===== verification/Protocol_Parser.thy ===== *)
theory Protocol_Parser
  imports Protocol
begin

text \<open>
  What the Brew parser guarantees: it panics on no input, the version it reports never falls
  below the connection's, the 7-bit talker-name decoder reads the septets of the bit stream, and
  a message cut back for a version-0 recipient parses to the same message without its name.
\<close>

section \<open>No panic\<close>

named_theorems total_simps "a reader does not panic"

declare not_None_eq [simp del]

lemma septet_loop_total [total_simps]: "septet_loop data n p = None \<longleftrightarrow> False"
  by (induction n arbitrary: p) (simp_all add: Let_def bind_eq_None_conv panics_iff)

lemma decode_mnemonic_total [total_simps]: "decode_mnemonic field = None \<longleftrightarrow> False"
  by (simp add: decode_mnemonic_def decode_7bit_packed_def bind_eq_None_conv panics_iff Let_def
      total_simps no_panic_simps)

lemma ascii_field_total [total_simps]: "ascii_field data = None \<longleftrightarrow> False"
  by (auto simp: ascii_field_def Let_def panics_iff split: option.splits dest: position_le)

lemma parse_subscriber_total [total_simps]: "parse_subscriber data = None \<longleftrightarrow> False"
  by (simp add: parse_subscriber_def bind_eq_None_conv panics_iff)

lemma circular_head_total [total_simps]:
  "CIRCULAR_CALL_BASE_LEN \<le> length payload \<Longrightarrow> circular_head payload mnemonic = None \<longleftrightarrow> False"
  by (simp add: circular_head_def bind_eq_None_conv panics_iff total_simps)

lemma parse_group_tx_total [total_simps]: "parse_group_tx payload n v = None \<longleftrightarrow> False"
  by (simp add: parse_group_tx_def bind_eq_None_conv panics_iff Let_def total_simps
      split: option.split)

lemma parse_setup_request_total [total_simps]: "parse_setup_request payload n v = None \<longleftrightarrow> False"
  by (simp add: parse_setup_request_def bind_eq_None_conv Let_def total_simps split: option.split)

lemma parse_call_payload_total [total_simps]: "parse_call_payload t payload n v = None \<longleftrightarrow> False"
  by (cases payload) (simp_all add: parse_call_payload_def bind_eq_None_conv panics_iff total_simps)

lemma parse_call_control_total [total_simps]: "parse_call_control data v = None \<longleftrightarrow> False"
  by (simp add: parse_call_control_def bind_eq_None_conv panics_iff total_simps
      split: sum.split prod.split)

lemma parse_frame_total [total_simps]: "parse_frame data = None \<longleftrightarrow> False"
  by (simp add: parse_frame_def bind_eq_None_conv panics_iff)

lemma position_end_le:
  "(case position p xs of Some i \<Rightarrow> i | None \<Rightarrow> length xs) \<le> length xs"
  by (auto split: option.split dest: position_le)

lemma parse_service_total [total_simps]:
  "\<not> length data < 2 \<Longrightarrow> parse_service data = None \<longleftrightarrow> False"
  using position_end_le [where p = "\<lambda>b. b = 0" and xs = "drop 2 data"]
  by (simp add: parse_service_def bind_eq_None_conv panics_iff Let_def no_panic_simps not_less
      split: option.split)

lemma parse_with_version_total [total_simps]: "parse_with_version data version = None \<longleftrightarrow> False"
  by (cases data) (simp_all add: parse_with_version_def with_version_def bind_eq_None_conv
      panics_iff total_simps)

text \<open>C19. The parser reads every received buffer, of any length and content, without an index or
  slice out of range: it returns a message or a parse error, it never panics.\<close>

theorem parse_with_version_no_panic: "parse_with_version data version \<noteq> None"
  by (simp add: parse_with_version_total)

lemma raw_peer_pair_total: "raw_peer_pair p = None \<longleftrightarrow> False"
  by (simp add: raw_peer_pair_def bind_eq_None_conv panics_iff split: call_payload.split)

declare not_None_eq [simp]

section \<open>The reported version\<close>

lemma map_sum_Inr: "map_sum id f r = Inr y \<longleftrightarrow> (\<exists>x. r = Inr x \<and> y = f x)"
  by (cases r) auto

lemma parse_call_payload_version:
  assumes "parse_call_payload t payload n v = Some (Inr (p, v'))"
  shows "v' = v \<or> (v' = V1 \<and> (t = CALL_GROUP_TX \<and> GROUP_TX_BASE_LEN < length payload \<or>
    t = CALL_SETUP_REQUEST \<and> CIRCULAR_CALL_BASE_LEN + MNEMONIC_FIELD_LEN \<le> length payload))"
  using assms
  by (auto simp: parse_call_payload_def parse_group_tx_def parse_setup_request_def Let_def
      split: if_splits bind_splits)

text \<open>A connection is promoted only by a call-control message long enough to carry a talker
  name, and parsing never lowers its version.\<close>

theorem parse_version_promotion:
  assumes "parse_with_version data v = Some (Inr (m, v'))"
  shows "as_u8 v \<le> as_u8 v' \<and>
    (v' = v \<or> v' = V1 \<and> data ! 0 = CLASS_CALL_CONTROL \<and>
      (data ! 1 = CALL_GROUP_TX \<and> 30 < length data \<or>
       data ! 1 = CALL_SETUP_REQUEST \<and> 103 \<le> length data))"
proof (cases "data ! 0 = CLASS_CALL_CONTROL")
  case True
  with assms have "parse_call_control data v = Some (Inr (m, v'))"
    by (auto simp: parse_with_version_def no_panic_simps split: if_splits)
  then obtain p where "parse_call_payload (data ! 1) (drop 18 data) (length data) v = Some (Inr (p, v'))"
    by (auto simp: parse_call_control_def no_panic_simps split: if_splits bind_splits sum.splits)
  then show ?thesis
    using parse_call_payload_version [of "data ! 1" "drop 18 data" "length data" v p v'] True
    by (cases v) auto
next
  case False
  with assms have "v' = v"
    by (auto simp: parse_with_version_def with_version_def no_panic_simps map_sum_Inr
        split: if_splits)
  then show ?thesis by simp
qed

theorem parse_version_promotion_witness:
  "as_u8 V0 < as_u8 V1 \<and>
   parse_with_version ([0xf1, 2] @ replicate 16 0 @ [1, 0, 0, 0, 2, 0, 0, 0, 3, 0, 0, 0, 1, 16, 65, 66]) V0 =
     Some (Inr (CallControlMsg \<lparr>cm_call_state = 2, cm_identifier = 0, cm_payload = GroupTransmission
       \<lparr>gt_source = 1, gt_destination = 2, gt_priority = 3, gt_access = 0, gt_service = 0,
        gt_mnemonic = Some [65, 4]\<rparr>\<rparr>, V1))"
  (is "_ \<and> parse_with_version ?data V0 = Some (Inr (?m, V1))")
proof -
  have run: "parse_with_version ?data V0 = Some (Inr (?m, V1))"
    by code_simp
  show ?thesis
    using parse_version_promotion [OF run] run by simp
qed

section \<open>The 7-bit alphabet\<close>

text \<open>Reference: septet \<open>p\<close> is the number of the seven stream bits from bit \<open>p\<close> on, least
  significant bit of each byte first.\<close>

definition stream_bit :: "bytes \<Rightarrow> nat \<Rightarrow> bool" where
  "stream_bit data k = bit (data ! (k div 8)) (k mod 8)"

definition septet_at :: "bytes \<Rightarrow> nat \<Rightarrow> nat" where
  "septet_at data p = horner_sum of_bool 2 (map (\<lambda>k. stream_bit data (p + k)) [0..<7])"

lemma bit_septet_at: "bit (septet_at data p) k \<longleftrightarrow> k < 7 \<and> stream_bit data (p + k)"
  by (auto simp: septet_at_def bit_horner_sum_bit_iff)

lemma stream_bit_in: "m < 8 \<Longrightarrow> stream_bit data (8 * q + m) = bit (data ! q) m"
  by (simp add: stream_bit_def)

lemma septet_low:
  assumes "off \<le> 1"
  shows "unat (ucast ((ucast (drop_bit off (data ! q)) :: u16) AND mask 7) :: u8) = septet_at data (8 * q + off)"
proof (rule bit_eqI)
  fix k
  show "bit (unat (ucast ((ucast (drop_bit off (data ! q)) :: u16) AND mask 7) :: u8)) k
    \<longleftrightarrow> bit (septet_at data (8 * q + off)) k"
  proof (cases "k < 7")
    case True
    with assms have "stream_bit data (8 * q + off + k) = bit (data ! q) (off + k)"
      using stream_bit_in [of "off + k" data q] by (simp add: add.assoc)
    with True show ?thesis
      by (simp add: bit_septet_at bit_unsigned_iff bit_and_iff bit_mask_iff bit_drop_bit_eq)
  next
    case False
    then show ?thesis
      by (simp add: bit_septet_at bit_unsigned_iff bit_and_iff bit_mask_iff)
  qed
qed

lemma septet_split:
  assumes "1 < off" "off < 8"
  shows "unat (ucast (((ucast (drop_bit off (data ! q)) :: u16) OR
      push_bit (8 - off) (ucast (data ! (q + 1)))) AND mask 7) :: u8) = septet_at data (8 * q + off)"
    (is "unat ?w = _")
proof (rule bit_eqI)
  fix k
  consider (lo) "k < 7" "k < 8 - off" | (hi) "k < 7" "8 - off \<le> k" | (out) "7 \<le> k"
    by linarith
  then show "bit (unat ?w) k \<longleftrightarrow> bit (septet_at data (8 * q + off)) k"
  proof cases
    case lo
    then have "stream_bit data (8 * q + off + k) = bit (data ! q) (off + k)"
      using stream_bit_in [of "off + k" data q] by (simp add: add.assoc)
    with lo show ?thesis
      by (simp add: bit_septet_at bit_unsigned_iff bit_and_iff bit_or_iff bit_mask_iff
          bit_drop_bit_eq bit_push_bit_iff)
  next
    case hi
    then have "8 * q + off + k = 8 * (q + 1) + (k - (8 - off))" "k - (8 - off) < 8"
      using assms by auto
    then have "stream_bit data (8 * q + off + k) = bit (data ! (q + 1)) (k - (8 - off))"
      using stream_bit_in [of "k - (8 - off)" data "q + 1"] by metis
    moreover have "\<not> bit (data ! q) (off + k)"
      using hi assms by (auto dest: bit_imp_le_length)
    moreover have "k + off - 8 < 16" using hi assms by linarith
    ultimately show ?thesis
      using hi assms
      by (simp add: bit_septet_at bit_unsigned_iff bit_and_iff bit_or_iff bit_mask_iff
          bit_drop_bit_eq bit_push_bit_iff)
  next
    case out
    then show ?thesis
      by (simp add: bit_septet_at bit_unsigned_iff bit_and_iff bit_mask_iff)
  qed
qed

lemma septet_loop_Suc:
  assumes "p + 7 \<le> 8 * length data" "septet_loop data n (p + 7) = Some rest"
  shows "septet_loop data (Suc n) p = Some (septet_at data p # rest)"
proof -
  define q off where qo: "q = p div 8" "off = p mod 8"
  then have p: "8 * q + off = p" and off: "off < 8" by auto
  have q: "q < length data" and q1: "1 < off \<Longrightarrow> q + 1 < length data"
    using assms(1) p off by linarith+
  have m: "(0x7f :: u16) = mask 7" by (simp add: mask_eq_exp_minus_1)
  show ?thesis
    using septet_low [of off data q] septet_split [of off data q] q q1 off p assms(2)
    unfolding septet_loop.simps Let_def qo [symmetric] m
    by (cases "1 < off") (simp_all add: index_at_Some)
qed

lemma septet_loop_correct:
  "p + 7 * n \<le> 8 * length data \<Longrightarrow>
     septet_loop data n p = Some (map (\<lambda>i. septet_at data (p + 7 * i)) [0..<n])"
proof (induction n arbitrary: p)
  case 0
  then show ?case by simp
next
  case (Suc n)
  then have rest: "septet_loop data n (p + 7) = Some (map (\<lambda>i. septet_at data (p + 7 + 7 * i)) [0..<n])"
    by simp
  have "map (\<lambda>i. septet_at data (p + 7 * i)) [0..<Suc n] =
      septet_at data p # map (\<lambda>i. septet_at data (p + 7 + 7 * i)) [0..<n]"
    by (simp only: map_upt_Suc) (simp add: add.assoc)
  with septet_loop_Suc [OF _ rest] Suc.prems show ?case by simp
qed

text \<open>C20. The 7-bit talker-name decoder, which shifts and joins neighbouring bytes, returns exactly
  the septets of the least-significant-bit-first stream, in order.\<close>

theorem decode_7bit_packed_correct:
  assumes "len_bits \<le> 8 * length data"
  shows "decode_7bit_packed data len_bits =
    Some (map (\<lambda>i. septet_at data (7 * i)) [0..<len_bits div 7])"
proof -
  have "7 * (len_bits div 7) \<le> len_bits" by simp
  then have "0 + 7 * (len_bits div 7) \<le> 8 * length data" using assms by linarith
  from septet_loop_correct [OF this] show ?thesis by (simp add: decode_7bit_packed_def)
qed

text \<open>\<open>"hello"\<close> in the packed alphabet.\<close>

theorem decode_7bit_packed_correct_witness:
  "decode_7bit_packed [0xE8, 0x32, 0x9B, 0xFD, 0x06] 35 =
     Some (map (\<lambda>i. septet_at [0xE8, 0x32, 0x9B, 0xFD, 0x06] (7 * i)) [0..<5]) \<and>
   map (\<lambda>i. septet_at [0xE8, 0x32, 0x9B, 0xFD, 0x06] (7 * i)) [0..<5] = [104, 101, 108, 108, 111]"
proof
  show "decode_7bit_packed [0xE8, 0x32, 0x9B, 0xFD, 0x06] 35 =
     Some (map (\<lambda>i. septet_at [0xE8, 0x32, 0x9B, 0xFD, 0x06] (7 * i)) [0..<5])"
    using decode_7bit_packed_correct [of 35 "[0xE8, 0x32, 0x9B, 0xFD, 0x06]"] by simp
  show "map (\<lambda>i. septet_at [0xE8, 0x32, 0x9B, 0xFD, 0x06] (7 * i)) [0..<5] = [104, 101, 108, 108, 111]"
    by code_simp
qed

section \<open>Adaptation to a version-0 recipient\<close>

text \<open>What a version-0 recipient is meant to see: the same message without the talker name.\<close>

fun strip_payload :: "call_payload \<Rightarrow> call_payload" where
  "strip_payload (GroupTransmission g) = GroupTransmission (g\<lparr>gt_mnemonic := None\<rparr>)"
| "strip_payload (CircularCall c) = CircularCall (c\<lparr>cc_mnemonic := None\<rparr>)"
| "strip_payload p = p"

fun strip_mnemonic :: "brew_message \<Rightarrow> brew_message" where
  "strip_mnemonic (CallControlMsg m) = CallControlMsg (m\<lparr>cm_payload := strip_payload (cm_payload m)\<rparr>)"
| "strip_mnemonic m = m"

abbreviation strip_result :: "(brew_message \<times> conn_version) parsed \<Rightarrow> (brew_message \<times> conn_version) parsed" where
  "strip_result \<equiv> map_option (map_sum id (\<lambda>(m, v). (strip_mnemonic m, V0)))"

text \<open>The talker name a GROUP_TX or SETUP_REQUEST payload carries after its fixed head.\<close>

definition tail_name :: "nat \<Rightarrow> bytes \<Rightarrow> rstring option" where
  "tail_name base p = the (decode_mnemonic (take MNEMONIC_FIELD_LEN (drop base p)))"

lemma decode_mnemonic_Some: "\<exists>s. decode_mnemonic f = Some s"
  using decode_mnemonic_total [of f] by simp

lemma ascii_field_Some: "\<exists>s. ascii_field f = Some s"
  using ascii_field_total [of f] by simp

lemma group_tail:
  assumes "GROUP_TX_BASE_LEN \<le> length p"
  shows "(case get_range p GROUP_TX_BASE_LEN 46 of Some f \<Rightarrow> Some f | None \<Rightarrow> get_from p GROUP_TX_BASE_LEN) =
    Some (take MNEMONIC_FIELD_LEN (drop GROUP_TX_BASE_LEN p))"
  using assms by (simp add: get_range_def get_from_def)

lemma parse_group_tx_eq:
  assumes "GROUP_TX_BASE_LEN \<le> length p"
  shows "parse_group_tx p n v =
    Some (Inr (GroupTransmission \<lparr>gt_source = le_val (take 4 p), gt_destination = le_val (take 4 (drop 4 p)),
        gt_priority = p ! 8, gt_access = p ! 9, gt_service = le_val (take 2 (drop 10 p)),
        gt_mnemonic = (if length p = GROUP_TX_BASE_LEN then None else tail_name GROUP_TX_BASE_LEN p)\<rparr>,
      if length p = GROUP_TX_BASE_LEN then v else V1))"
proof (cases "length p = GROUP_TX_BASE_LEN")
  case True
  then show ?thesis by (simp add: parse_group_tx_def no_panic_simps Let_def)
next
  case False
  then have "GROUP_TX_BASE_LEN < length p" using assms by simp
  moreover obtain nm where "decode_mnemonic (take 34 (drop 12 p)) = Some nm"
    using decode_mnemonic_Some by blast
  ultimately show ?thesis
    using group_tail [OF assms] False
    by (simp add: parse_group_tx_def no_panic_simps Let_def tail_name_def)
qed

definition circular :: "bytes \<Rightarrow> rstring option \<Rightarrow> call_payload" where
  "circular p mn = CircularCall \<lparr>cc_source = le_val (take 4 p), cc_destination = le_val (take 4 (drop 4 p)),
     cc_number = the (ascii_field (take 32 (drop 8 p))), cc_priority = p ! 40, cc_service = p ! 41,
     cc_mnemonic = mn\<rparr>"

lemma circular_head_eq:
  assumes "CIRCULAR_CALL_BASE_LEN \<le> length p"
  shows "circular_head p mn = Some (circular p mn)"
proof -
  obtain nm where "ascii_field (take 32 (drop 8 p)) = Some nm"
    using ascii_field_Some by blast
  with assms show ?thesis
    by (simp add: circular_head_def circular_def no_panic_simps)
qed

lemma parse_setup_request_eq:
  assumes "CIRCULAR_CALL_BASE_LEN \<le> length p"
  shows "parse_setup_request p n v =
    (if 85 \<le> length p then Some (Inr (circular p (tail_name CIRCULAR_CALL_BASE_LEN p), V1))
     else Some (Inr (circular p None, v)))"
proof -
  have "85 \<le> length p \<Longrightarrow> get_range p CIRCULAR_CALL_BASE_LEN 85 =
      Some (take MNEMONIC_FIELD_LEN (drop CIRCULAR_CALL_BASE_LEN p))"
    by (simp add: get_range_def)
  moreover obtain nm where "decode_mnemonic (take 34 (drop CIRCULAR_CALL_BASE_LEN p)) = Some nm"
    using decode_mnemonic_Some by blast
  ultimately show ?thesis
    using assms
    by (simp add: parse_setup_request_def Let_def circular_head_eq tail_name_def)
qed

lemma parse_call_control_eq:
  assumes "18 \<le> length data"
  shows "parse_call_control data v =
    map_option (map_sum id (\<lambda>(p, d). (CallControlMsg \<lparr>cm_call_state = data ! 1,
        cm_identifier = uuid_from_bytes (take 16 (drop 2 data)), cm_payload = p\<rparr>, d)))
      (parse_call_payload (data ! 1) (drop 18 data) (length data) v)"
  using assms
  by (cases "parse_call_payload (data ! 1) (drop 18 data) (length data) v")
    (auto simp: parse_call_control_def no_panic_simps split: sum.split)

lemma circular_take: "CIRCULAR_CALL_BASE_LEN \<le> length p \<Longrightarrow> circular (take CIRCULAR_CALL_BASE_LEN p) mn = circular p mn"
  by (simp add: circular_def drop_take min_def)

lemma parse_payload_cut:
  assumes "v0_length t = Some (18 + n)" "n < length p"
  shows "parse_call_payload t (take n p) k V0 =
    map_option (map_sum id (\<lambda>(q, d). (strip_payload q, V0))) (parse_call_payload t p m V1)"
proof -
  consider "t = CALL_GROUP_TX" "n = GROUP_TX_BASE_LEN" | "t = CALL_SETUP_REQUEST" "n = CIRCULAR_CALL_BASE_LEN"
    using assms(1) by (auto simp: v0_length_def split: if_splits)
  then show ?thesis
  proof cases
    case 1
    with assms(2) show ?thesis
      by (simp add: parse_call_payload_def parse_group_tx_eq drop_take min_def)
  next
    case 2
    with assms(2) show ?thesis
      by (simp add: parse_call_payload_def parse_setup_request_eq circular_take)
        (simp add: circular_def)
  qed
qed

lemma parse_payload_uncut:
  assumes "v0_length t = None \<or> (\<exists>n. v0_length t = Some (18 + n) \<and> length p \<le> n)"
  shows "parse_call_payload t p k V0 =
    map_option (map_sum id (\<lambda>(q, d). (strip_payload q, V0))) (parse_call_payload t p k V1)"
proof -
  have c: "CIRCULAR_CALL_BASE_LEN \<le> length p \<Longrightarrow> circular_head p None = Some (circular p None)"
    by (simp add: circular_head_eq)
  consider "t = CALL_GROUP_TX" "length p \<le> GROUP_TX_BASE_LEN"
    | "t = CALL_SETUP_REQUEST" "length p \<le> CIRCULAR_CALL_BASE_LEN"
    | "t \<noteq> CALL_GROUP_TX" "t \<noteq> CALL_SETUP_REQUEST"
    using assms by (auto simp: v0_length_def split: if_splits)
  then show ?thesis
  proof cases
    case 1
    then show ?thesis
      by (cases "length p = GROUP_TX_BASE_LEN")
        (simp_all add: parse_call_payload_def parse_group_tx_eq, simp add: parse_group_tx_def)
  next
    case 2
    then show ?thesis
      by (cases "length p = CIRCULAR_CALL_BASE_LEN")
        (simp_all add: parse_call_payload_def parse_setup_request_eq circular_def,
          simp add: parse_setup_request_def)
  next
    case 3
    then show ?thesis
      using c by (cases p) (simp_all add: parse_call_payload_def no_panic_simps circular_def)
  qed
qed

lemma parse_adapted_call_control:
  assumes "2 \<le> length raw" "raw ! 0 = CLASS_CALL_CONTROL"
  shows "parse_call_control (adapt_to_version raw V0) V0 = strip_result (parse_call_control raw V1)"
proof (cases "18 \<le> length raw")
  case False
  then have "adapt_to_version raw V0 = raw"
    by (auto simp: adapt_to_version_def v0_length_def has_mnemonic_def)
  with False show ?thesis by (simp add: parse_call_control_def)
next
  case long: True
  show ?thesis
  proof (cases "\<exists>n. v0_length (raw ! 1) = Some (18 + n) \<and> n < length (drop 18 raw)")
    case True
    then obtain n where n: "v0_length (raw ! 1) = Some (18 + n)" "n < length (drop 18 raw)" by blast
    then have cut: "adapt_to_version raw V0 = take (18 + n) raw"
      using assms by (simp add: adapt_to_version_def has_mnemonic_def)
    have "parse_call_control (take (18 + n) raw) V0 = strip_result (parse_call_control raw V1)"
      using parse_payload_cut [OF n, of "length (take (18 + n) raw)" "length raw"] n long
      by (simp add: parse_call_control_eq drop_take option.map_comp sum.map_comp comp_def
          case_prod_unfold)
    with cut show ?thesis by simp
  next
    case False
    then have "v0_length (raw ! 1) = None \<or>
        (\<exists>n. v0_length (raw ! 1) = Some (18 + n) \<and> length (drop 18 raw) \<le> n)"
      by (auto simp: v0_length_def not_less split: if_splits)
    from parse_payload_uncut [OF this, of "length raw"] long
    have "parse_call_control raw V0 = strip_result (parse_call_control raw V1)"
      by (simp add: parse_call_control_eq option.map_comp sum.map_comp comp_def case_prod_unfold)
    moreover have "adapt_to_version raw V0 = raw"
      using False long by (auto simp: adapt_to_version_def v0_length_def split: if_splits)
    ultimately show ?thesis by simp
  qed
qed

text \<open>C21. A message adapted for a connection that announced version 0 parses there to the very
  message the sender sent with its talker name removed, and never promotes the connection: nothing
  else of any message, well-formed or not, is changed by the adaptation.\<close>

theorem adapt_to_version_strips_only_the_name:
  "parse_with_version (adapt_to_version raw V0) V0 = strip_result (parse_with_version raw V1)"
proof (cases "2 \<le> length raw \<and> raw ! 0 = CLASS_CALL_CONTROL")
  case True
  let ?a = "adapt_to_version raw V0"
  have a: "2 \<le> length ?a" "?a ! 0 = CLASS_CALL_CONTROL"
    using True by (auto simp: adapt_to_version_def v0_length_def split: option.split)
  from True a have "parse_with_version raw V1 = parse_call_control raw V1"
    "parse_with_version ?a V0 = parse_call_control ?a V0"
    by (simp_all add: parse_with_version_def no_panic_simps)
  with True show ?thesis by (simp add: parse_adapted_call_control)
next
  case False
  then have "adapt_to_version raw V0 = raw" by (auto simp: adapt_to_version_def)
  moreover have "strip_result (with_version V1 r) = with_version V0 r"
    if "\<And>m. r \<noteq> Some (Inr (CallControlMsg m))" for r
    using that unfolding with_version_def
    by (cases r) (auto simp: map_sum_def split: sum.splits, metis strip_mnemonic.simps(2-5) brew_message.exhaust)
  moreover have "parse_subscriber raw \<noteq> Some (Inr (CallControlMsg m))"
    "parse_frame raw \<noteq> Some (Inr (CallControlMsg m))" for m
    by (auto simp: parse_subscriber_def parse_frame_def split: bind_splits if_splits)
  moreover have "parse_service raw \<noteq> Some (Inr (CallControlMsg m))" for m
    by (auto simp: parse_service_def Let_def split: bind_splits option.splits)
  ultimately show ?thesis
    using False by (cases "2 \<le> length raw") (auto simp: parse_with_version_def no_panic_simps)
qed

lemma adapt_idempotent: "adapt_to_version (adapt_to_version raw v) v = adapt_to_version raw v"
  by (auto simp: adapt_to_version_def v0_length_def split: option.splits)

lemma adapt_v1_identity [simp]: "adapt_to_version raw V1 = raw"
  by (simp add: adapt_to_version_def has_mnemonic_def)

end
