(* ===== verification/Builders.thy ===== *)
theory Builders
  imports Protocol_Parser
begin

text \<open>
  The messages this server builds itself (the \<open>build_*\<close> functions of
  \<open>src/src/protocol.rs\<close>) and the packing of two speech frames into one voice payload.
  The round trips say that the server's own parser reads back what each builder was given;
  the voice packing is inverse to the unpacking up to the seven pad bits of a codec block.
\<close>

section \<open>Builders\<close>

definition build_service :: "u8 \<Rightarrow> rstring \<Rightarrow> bytes" where
  "build_service service_type json = [CLASS_SERVICE, service_type] @ as_bytes json @ [0]"

definition build_call_cause :: "u8 \<Rightarrow> uuid \<Rightarrow> u8 \<Rightarrow> bytes" where
  "build_call_cause call_state uid cause = [CLASS_CALL_CONTROL, call_state] @ uuid_bytes uid @ [cause]"

definition build_call_control_empty :: "u8 \<Rightarrow> uuid \<Rightarrow> bytes" where
  "build_call_control_empty call_state uid = [CLASS_CALL_CONTROL, call_state] @ uuid_bytes uid"

definition build_call_connect_confirm :: "uuid \<Rightarrow> u8 \<Rightarrow> u8 \<Rightarrow> bytes" where
  "build_call_connect_confirm uid grant permission =
     [CLASS_CALL_CONTROL, CALL_CONNECT_CONFIRM] @ uuid_bytes uid @ [grant, permission]"

definition build_subscriber_message :: "u8 \<Rightarrow> u32 \<Rightarrow> u32 list \<Rightarrow> bytes" where
  "build_subscriber_message msg_type issi groups =
     [CLASS_SUBSCRIBER, msg_type] @ le_bytes 4 issi @ le_bytes 8 (0 :: u64) @ le_bytes 4 (0 :: u32)
       @ concat (map (le_bytes 4) groups)"

definition build_short_transfer :: "uuid \<Rightarrow> u32 \<Rightarrow> u32 \<Rightarrow> bytes" where
  "build_short_transfer uid source destination =
     [CLASS_CALL_CONTROL, CALL_SHORT_TRANSFER] @ uuid_bytes uid @ le_bytes 4 source
       @ le_bytes 4 destination @ replicate 32 0"

definition build_sds_transfer_frame :: "uuid \<Rightarrow> u16 \<Rightarrow> bytes \<Rightarrow> bytes" where
  "build_sds_transfer_frame uid length_bits data =
     [CLASS_FRAME, FRAME_SDS_TRANSFER] @ uuid_bytes uid @ le_bytes 2 length_bits @ data"

definition build_circular_call :: "u8 \<Rightarrow> uuid \<Rightarrow> u32 \<Rightarrow> u32 \<Rightarrow> u8 \<Rightarrow> bytes" where
  "build_circular_call call_state uid source destination priority =
     [CLASS_CALL_CONTROL, call_state] @ uuid_bytes uid @ le_bytes 4 source @ le_bytes 4 destination
       @ replicate 32 0 @ [priority] @ [0, 0, 1, 1, 0, 0, 0, 0, 0, 0]"

definition build_circular_call_setup :: "uuid \<Rightarrow> u32 \<Rightarrow> u32 \<Rightarrow> u8 \<Rightarrow> bytes" where
  "build_circular_call_setup = build_circular_call CALL_SETUP_REQUEST"

definition build_circular_connect_request :: "uuid \<Rightarrow> u32 \<Rightarrow> u32 \<Rightarrow> u8 \<Rightarrow> bytes" where
  "build_circular_connect_request = build_circular_call CALL_CONNECT_REQUEST"

definition build_group_tx :: "uuid \<Rightarrow> u32 \<Rightarrow> u32 \<Rightarrow> u8 \<Rightarrow> bytes" where
  "build_group_tx uid source destination priority =
     [CLASS_CALL_CONTROL, CALL_GROUP_TX] @ uuid_bytes uid @ le_bytes 4 source @ le_bytes 4 destination
       @ [priority] @ [0] @ le_bytes 2 (0 :: u16)"

definition build_dtmf_frame :: "uuid \<Rightarrow> u8 \<Rightarrow> bytes" where
  "build_dtmf_frame uid digit =
     [CLASS_FRAME, FRAME_DTMF] @ uuid_bytes uid @ le_bytes 2 (8 :: u16) @ [digit]"

section \<open>Voice payloads\<close>

abbreviation (input) ACELP_CODED_FRAME_BITS :: nat where "ACELP_CODED_FRAME_BITS \<equiv> 137"
abbreviation (input) ACELP_CODED_FRAME_BYTES :: nat where "ACELP_CODED_FRAME_BYTES \<equiv> 18"
abbreviation (input) STE_VOICE_PAYLOAD_BYTES :: nat where "STE_VOICE_PAYLOAD_BYTES \<equiv> 36"
abbreviation (input) STE_VOICE_PACKED_BYTES :: nat where "STE_VOICE_PACKED_BYTES \<equiv> 35"
abbreviation (input) STE_VOICE_TOTAL_BITS :: nat where "STE_VOICE_TOTAL_BITS \<equiv> 274"

definition unpack_bits_msb :: "bytes \<Rightarrow> nat \<Rightarrow> bytes panics" where
  "unpack_bits_msb packed n_bits =
     those (map (\<lambda>i. do { b \<leftarrow> index_at packed (i div 8); Some (drop_bit (7 - i mod 8) b AND 1) })
       [0..<n_bits])"

text \<open>The loop over \<open>bits.iter().enumerate()\<close>, at index \<open>i\<close>.\<close>

fun pack_loop :: "nat \<Rightarrow> bytes \<Rightarrow> bytes \<Rightarrow> bytes panics" where
  "pack_loop i [] out = Some out"
| "pack_loop i (b # bs) out =
     (if b \<noteq> 0 then do {
        old \<leftarrow> index_at out (i div 8);
        pack_loop (Suc i) bs (out[i div 8 := old OR push_bit (7 - i mod 8) 1])
      }
      else pack_loop (Suc i) bs out)"

definition pack_bits_msb :: "bytes \<Rightarrow> bytes panics" where
  "pack_bits_msb bits = pack_loop 0 bits (replicate (div_ceil (length bits) 8) 0)"

text \<open>The arguments are arrays \<open>[u8; 18]\<close> and \<open>[u8; 36]\<close>; \<open>copy_from_slice\<close> panics
  unless both lengths agree.\<close>

definition pack_ste_voice_payload :: "bytes \<Rightarrow> bytes \<Rightarrow> bytes panics" where
  "pack_ste_voice_payload sub1 sub2 = do {
     b1 \<leftarrow> unpack_bits_msb sub1 ACELP_CODED_FRAME_BITS;
     b2 \<leftarrow> unpack_bits_msb sub2 ACELP_CODED_FRAME_BITS;
     packed \<leftarrow> pack_bits_msb (b1 @ b2);
     if length packed = STE_VOICE_PACKED_BYTES then Some (0x00 # packed) else None
   }"

definition unpack_ste_voice_payload :: "bytes \<Rightarrow> (bytes \<times> bytes) panics" where
  "unpack_ste_voice_payload payload = do {
     packed \<leftarrow> slice_from payload 1;
     bits \<leftarrow> unpack_bits_msb packed STE_VOICE_TOTAL_BITS;
     first \<leftarrow> slice bits 0 ACELP_CODED_FRAME_BITS;
     second \<leftarrow> slice_from bits ACELP_CODED_FRAME_BITS;
     sub1 \<leftarrow> pack_bits_msb first;
     sub2 \<leftarrow> pack_bits_msb second;
     if length sub1 \<le> ACELP_CODED_FRAME_BYTES \<and> length sub2 \<le> ACELP_CODED_FRAME_BYTES
     then Some (sub1 @ replicate (ACELP_CODED_FRAME_BYTES - length sub1) 0,
                sub2 @ replicate (ACELP_CODED_FRAME_BYTES - length sub2) 0)
     else None
   }"

definition build_traffic_frame :: "uuid \<Rightarrow> bytes \<Rightarrow> bytes \<Rightarrow> bytes panics" where
  "build_traffic_frame uid sub1 sub2 = do {
     payload \<leftarrow> pack_ste_voice_payload sub1 sub2;
     Some ([CLASS_FRAME, FRAME_TRAFFIC_CHANNEL] @ uuid_bytes uid
       @ le_bytes 2 (of_nat (STE_VOICE_PAYLOAD_BYTES * 8) :: u16) @ payload)
   }"

section \<open>Round trips of the builders\<close>

lemmas build_defs = build_service_def build_call_cause_def build_call_control_empty_def
  build_call_connect_confirm_def build_subscriber_message_def build_short_transfer_def
  build_sds_transfer_frame_def build_circular_call_def build_circular_call_setup_def
  build_circular_connect_request_def build_group_tx_def build_dtmf_frame_def

lemma call_control_header:
  "parse_with_version ([CLASS_CALL_CONTROL, t] @ uuid_bytes uid @ p) v =
    map_option (map_sum id (\<lambda>(q, d). (CallControlMsg \<lparr>cm_call_state = t, cm_identifier = uid,
        cm_payload = q\<rparr>, d))) (parse_call_payload t p (18 + length p) v)"
  by (simp add: parse_with_version_def parse_call_control_eq no_panic_simps)

lemma frame_header:
  "parse_with_version ([CLASS_FRAME, t] @ uuid_bytes uid @ le_bytes 2 n @ p) v =
    Some (Inr (FrameMsg \<lparr>fm_frame_type = t, fm_identifier = uid, fm_length_bits = n, fm_data = p\<rparr>, v))"
  by (simp add: parse_with_version_def parse_frame_def with_version_def no_panic_simps)

lemma le_bytes_4: "le_bytes 4 w = [ucast w, ucast (drop_bit 8 w), ucast (drop_bit 16 w), ucast (drop_bit 24 w)]"
  by (simp add: le_bytes_def upt_rec)

lemma group_list_Cons: "group_list (le_bytes 4 g @ rest) = g # group_list rest"
  using le_val_le_bytes_simps(2) [of g] by (simp add: le_bytes_4)

lemma group_list_concat: "group_list (concat (map (le_bytes 4) gs)) = gs"
  by (induction gs) (simp_all add: group_list_Cons)

text \<open>C22. What the server sends as a subscriber message -- any type, ISSI and group list -- its own
  parser reads back exactly, with zero time stamps.\<close>

theorem subscriber_roundtrip:
  "parse_with_version (build_subscriber_message t issi gs) v =
    Some (Inr (SubscriberMsg \<lparr>sm_msg_type = t, sm_issi = issi, sm_timestamp = 0, sm_fraction = 0,
      sm_groups = gs\<rparr>, v))"
  by (simp add: build_subscriber_message_def parse_with_version_def parse_subscriber_def
      with_version_def no_panic_simps group_list_concat)

lemma group_tx_roundtrip:
  "parse_with_version (build_group_tx uid src dst prio) v =
    Some (Inr (CallControlMsg \<lparr>cm_call_state = CALL_GROUP_TX, cm_identifier = uid,
      cm_payload = GroupTransmission \<lparr>gt_source = src, gt_destination = dst, gt_priority = prio,
        gt_access = 0, gt_service = 0, gt_mnemonic = None\<rparr>\<rparr>, v))"
  unfolding build_group_tx_def call_control_header
  by (simp add: parse_call_payload_def parse_group_tx_eq nth_append)

lemma call_cause_roundtrip:
  assumes "t \<in> {CALL_GROUP_IDLE, CALL_SETUP_REJECT, CALL_RELEASE}"
  shows "parse_with_version (build_call_cause t uid c) v =
    Some (Inr (CallControlMsg \<lparr>cm_call_state = t, cm_identifier = uid, cm_payload = Cause c\<rparr>, v))"
  unfolding build_call_cause_def call_control_header using assms
  by (auto simp: parse_call_payload_def index_at_def)

lemma short_transfer_roundtrip:
  "parse_with_version (build_short_transfer uid src dst) v =
    Some (Inr (CallControlMsg \<lparr>cm_call_state = CALL_SHORT_TRANSFER, cm_identifier = uid,
      cm_payload = ShortTransfer src dst\<rparr>, v))"
proof -
  have msg: "build_short_transfer uid src dst =
      [CLASS_CALL_CONTROL, CALL_SHORT_TRANSFER] @ uuid_bytes uid @ (le_bytes 4 src @ le_bytes 4 dst @ replicate 32 0)"
    by (simp add: build_short_transfer_def)
  show ?thesis
    unfolding msg call_control_header by (simp add: parse_call_payload_def no_panic_simps)
qed

lemma sds_frame_roundtrip:
  "parse_with_version (build_sds_transfer_frame uid n d) v =
    Some (Inr (FrameMsg \<lparr>fm_frame_type = FRAME_SDS_TRANSFER, fm_identifier = uid,
      fm_length_bits = n, fm_data = d\<rparr>, v))"
  by (simp only: build_sds_transfer_frame_def frame_header)

lemma dtmf_frame_roundtrip:
  "parse_with_version (build_dtmf_frame uid d) v =
    Some (Inr (FrameMsg \<lparr>fm_frame_type = FRAME_DTMF, fm_identifier = uid,
      fm_length_bits = 8, fm_data = [d]\<rparr>, v))"
  by (simp only: build_dtmf_frame_def frame_header)

lemma ascii_field_zeros: "ascii_field (replicate 32 0) = Some []"
  by (simp add: ascii_field_def slice_def from_utf8_lossy_def numeral_eq_Suc)

lemma circular_call_roundtrip:
  assumes "t \<in> {CALL_SETUP_REQUEST, CALL_CONNECT_REQUEST}"
  shows "parse_with_version (build_circular_call t uid src dst prio) v =
    Some (Inr (CallControlMsg \<lparr>cm_call_state = t, cm_identifier = uid,
      cm_payload = CircularCall \<lparr>cc_source = src, cc_destination = dst, cc_number = [],
        cc_priority = prio, cc_service = 0, cc_mnemonic = None\<rparr>\<rparr>, v))"
proof -
  define p where "p = le_bytes 4 src @ le_bytes 4 dst @ replicate 32 0 @ prio # [0, 0, 1, 1, 0, 0, 0, 0, 0, 0]"
  have len: "length p = CIRCULAR_CALL_BASE_LEN" by (simp add: p_def)
  have head: "circular p None = CircularCall \<lparr>cc_source = src, cc_destination = dst, cc_number = [],
        cc_priority = prio, cc_service = 0, cc_mnemonic = None\<rparr>"
    by (simp add: circular_def p_def nth_append ascii_field_zeros)
  have msg: "build_circular_call t uid src dst prio = [CLASS_CALL_CONTROL, t] @ uuid_bytes uid @ p"
    by (simp add: build_circular_call_def p_def)
  show ?thesis
    unfolding msg call_control_header using assms len
    by (auto simp: parse_call_payload_def parse_setup_request_eq circular_head_eq head)
qed

lemma byte_eq_0: "n < 256 \<Longrightarrow> of_nat n = (0 :: u8) \<longleftrightarrow> n = 0"
  by (simp add: word_unat_eq_iff unat_byte)

lemma utf8_char_nonzero:
  assumes "is_scalar c" "c \<noteq> 0" "b \<in> set (utf8_char c)" shows "b \<noteq> 0"
proof -
  have cont: "of_nat (0x80 + n mod 64) \<noteq> (0 :: u8)" for n
    using byte_eq_0 [of "0x80 + n mod 64"] by (simp del: of_nat_add)
  have "of_nat c \<noteq> (0 :: u8)" if "c < 0x80" using that assms(2) byte_eq_0 [of c] by simp
  moreover have "of_nat (0xC0 + c div 64) \<noteq> (0 :: u8)" if "c < 0x800"
    using that byte_eq_0 [of "0xC0 + c div 64"] by (simp del: of_nat_add)
  moreover have "of_nat (0xE0 + c div 4096) \<noteq> (0 :: u8)" if "c < 0x10000"
    using that byte_eq_0 [of "0xE0 + c div 4096"] by (simp del: of_nat_add)
  moreover have "c < 4194304" using assms(1) by (auto simp: is_scalar_def)
  then have "of_nat (0xF0 + c div 262144) \<noteq> (0 :: u8)"
    using byte_eq_0 [of "0xF0 + c div 262144"] by (simp del: of_nat_add)
  ultimately show ?thesis
    using assms(3) cont by (auto simp: utf8_char_def simp del: of_nat_add split: if_splits)
qed

lemma service_roundtrip:
  assumes "\<forall>c \<in> set s. is_scalar c \<and> c \<noteq> 0"
  shows "parse_with_version (build_service t s) v =
    Some (Inr (ServiceMsg \<lparr>sv_service_type = t, sv_json_data = s\<rparr>, v))"
proof -
  have "\<forall>b \<in> set (as_bytes s). b \<noteq> 0"
    using assms utf8_char_nonzero by (auto simp: as_bytes_def)
  then have pos: "position (\<lambda>b. b = 0) (as_bytes s @ [0]) = Some (length (as_bytes s))"
    by (intro position_append) auto
  show ?thesis
    using pos assms
    by (simp add: build_service_def parse_with_version_def parse_service_def with_version_def
        no_panic_simps slice_def from_utf8_as_bytes)
qed

section \<open>Voice payload round trip\<close>

text \<open>Bit \<open>j\<close> of a byte list, most significant bit of each byte first.\<close>

definition msb_bit :: "bytes \<Rightarrow> nat \<Rightarrow> bool" where
  "msb_bit xs j = bit (xs ! (j div 8)) (7 - j mod 8)"

lemma msb_bit_ext:
  assumes "length xs = length ys" "\<And>j. j < 8 * length xs \<Longrightarrow> msb_bit xs j \<longleftrightarrow> msb_bit ys j"
  shows "xs = ys"
proof (rule nth_equalityI)
  fix i assume i: "i < length xs"
  show "xs ! i = ys ! i"
  proof (rule bit_word_eqI)
    fix k assume "k < LENGTH(8)"
    define r where "r = 7 - k"
    with \<open>k < LENGTH(8)\<close> have r: "k = 7 - r" "r < 8" by auto
    then have "(8 * i + r) div 8 = i" "(8 * i + r) mod 8 = r" "8 * i + r < 8 * length xs"
      using i by auto
    with assms(2) [of "8 * i + r"] r show "bit (xs ! i) k \<longleftrightarrow> bit (ys ! i) k"
      by (simp add: msb_bit_def)
  qed
qed (rule assms(1))

lemma those_map: "\<forall>x \<in> set xs. f x = Some (g x) \<Longrightarrow> those (map f xs) = Some (map g xs)"
  by (induction xs) auto

lemma shifted_bit: "drop_bit k b AND 1 = of_bool (bit (b :: u8) k)"
proof (rule bit_word_eqI)
  fix n
  show "bit (drop_bit k b AND 1) n \<longleftrightarrow> bit (of_bool (bit b k) :: u8) n"
    by (cases n) (auto simp: bit_and_iff bit_drop_bit_eq bit_1_iff bit_of_bool_iff)
qed

lemma unpack_bits_msb_eq:
  assumes "n \<le> 8 * length packed"
  shows "unpack_bits_msb packed n = Some (map (\<lambda>i. of_bool (msb_bit packed i)) [0..<n])"
  unfolding unpack_bits_msb_def
proof (rule those_map, rule ballI)
  fix i assume "i \<in> set [0..<n]"
  with assms have "i div 8 < length packed" by auto
  then show "do { b \<leftarrow> index_at packed (i div 8); Some (drop_bit (7 - i mod 8) b AND 1) } =
      Some (of_bool (msb_bit packed i))"
    by (simp add: index_at_Some msb_bit_def shifted_bit)
qed

lemma bit_single: "bit (push_bit a 1 :: u8) n \<longleftrightarrow> n = a \<and> n < 8"
  by (auto simp: bit_push_bit_iff bit_1_iff simp del: push_bit_of_1)

lemma msb_bit_set:
  assumes "i div 8 < length out"
  shows "msb_bit (out[i div 8 := out ! (i div 8) OR push_bit (7 - i mod 8) 1]) j \<longleftrightarrow>
    msb_bit out j \<or> j = i"
proof (cases "j div 8 = i div 8")
  case True
  have "7 - j mod 8 = 7 - i mod 8 \<longleftrightarrow> j mod 8 = i mod 8"
    using mod_less_divisor [of 8 i] mod_less_divisor [of 8 j] by linarith
  also have "\<dots> \<longleftrightarrow> j = i" using True by (metis div_mult_mod_eq)
  finally show ?thesis
    using True assms
    by (auto simp: msb_bit_def bit_or_iff bit_single simp del: push_bit_of_1)
next
  case False
  then show ?thesis using assms by (auto simp: msb_bit_def)
qed

lemma pack_loop_spec:
  assumes "i + length bs \<le> 8 * length out"
  shows "\<exists>out'. pack_loop i bs out = Some out' \<and> length out' = length out \<and>
    (\<forall>j. msb_bit out' j \<longleftrightarrow> msb_bit out j \<or> (i \<le> j \<and> j < i + length bs \<and> bs ! (j - i) \<noteq> 0))"
  using assms
proof (induction bs arbitrary: i out)
  case Nil
  then show ?case by auto
next
  case (Cons b bs)
  then have i: "i div 8 < length out" by auto
  define new where "new = (if b \<noteq> 0 then out[i div 8 := out ! (i div 8) OR push_bit (7 - i mod 8) 1] else out)"
  have new: "msb_bit new j \<longleftrightarrow> msb_bit out j \<or> j = i \<and> b \<noteq> 0" "length new = length out" for j
    using msb_bit_set [OF i] by (auto simp: new_def)
  have step: "pack_loop i (b # bs) out = pack_loop (Suc i) bs new"
    using i by (simp add: new_def index_at_Some)
  obtain out' where out': "pack_loop (Suc i) bs new = Some out'" "length out' = length out"
    "\<And>j. msb_bit out' j \<longleftrightarrow> msb_bit new j \<or> (Suc i \<le> j \<and> j < Suc i + length bs \<and> bs ! (j - Suc i) \<noteq> 0)"
    using Cons.IH [of "Suc i" new] Cons.prems new(2) by auto
  have "msb_bit out' j \<longleftrightarrow> msb_bit out j \<or> (i \<le> j \<and> j < i + length (b # bs) \<and> (b # bs) ! (j - i) \<noteq> 0)" for j
    by (cases "j = i") (auto simp: out'(3) new nth_Cons')
  with out' step show ?case by auto
qed

lemma pack_bits_msb_spec:
  "\<exists>out. pack_bits_msb bits = Some out \<and> length out = div_ceil (length bits) 8 \<and>
    (\<forall>j < 8 * length out. msb_bit out j \<longleftrightarrow> j < length bits \<and> bits ! j \<noteq> 0)"
proof -
  have "0 + length bits \<le> 8 * length (replicate (div_ceil (length bits) 8) (0 :: u8))"
    by (simp add: div_ceil_def)
  from pack_loop_spec [OF this] show ?thesis
    by (fastforce simp: pack_bits_msb_def msb_bit_def)
qed

text \<open>A codec block with its seven pad bits cleared: what is left of it on the wire.\<close>

definition clear_pad :: "bytes \<Rightarrow> bytes" where
  "clear_pad sub = take 17 sub @ [sub ! 17 AND 0x80]"

lemma msb_bit_clear_pad:
  assumes "length sub = ACELP_CODED_FRAME_BYTES" "j < 144"
  shows "msb_bit (clear_pad sub) j \<longleftrightarrow> j < ACELP_CODED_FRAME_BITS \<and> msb_bit sub j"
proof (cases "j div 8 < 17")
  case True
  then have "j < ACELP_CODED_FRAME_BITS" by auto
  with True assms show ?thesis by (simp add: msb_bit_def clear_pad_def nth_append)
next
  case False
  have m: "(0x80 :: u8) = push_bit 7 1" by simp
  from False assms(2) have j1: "j div 8 = 17" by linarith
  then have j: "j div 8 = 17" "j = 136 + j mod 8" using div_mult_mod_eq [of j 8] by simp_all
  have "bit (sub ! 17 AND 0x80) (7 - j mod 8) \<longleftrightarrow> bit (sub ! 17) (7 - j mod 8) \<and> j mod 8 = 0"
    unfolding m by (auto simp: bit_and_iff bit_single simp del: push_bit_of_1)
  with j assms(1) show ?thesis
    by (auto simp: msb_bit_def clear_pad_def nth_append)
qed

lemma pack_bits_of_bool:
  assumes "length bs = ACELP_CODED_FRAME_BITS" "length sub = ACELP_CODED_FRAME_BYTES"
    "\<And>j. j < ACELP_CODED_FRAME_BITS \<Longrightarrow> bs ! j = of_bool (msb_bit sub j)"
  shows "pack_bits_msb bs = Some (clear_pad sub)"
proof -
  obtain out where out: "pack_bits_msb bs = Some out" "length out = 18"
    "\<And>j. j < 8 * length out \<Longrightarrow> msb_bit out j \<longleftrightarrow> j < length bs \<and> bs ! j \<noteq> 0"
    using pack_bits_msb_spec [of bs] assms(1) by (auto simp: div_ceil_def)
  have "out = clear_pad sub"
  proof (rule msb_bit_ext)
    show "length out = length (clear_pad sub)" using out(2) assms(2) by (simp add: clear_pad_def)
    fix j assume "j < 8 * length out"
    with out assms show "msb_bit out j \<longleftrightarrow> msb_bit (clear_pad sub) j"
      by (auto simp: msb_bit_clear_pad)
  qed
  with out(1) show ?thesis by simp
qed

text \<open>C23. Packing two 18-byte codec blocks into a 36-byte voice payload and unpacking it again
  returns both blocks with only their pad bits cleared; neither direction can panic.\<close>

theorem ste_voice_roundtrip:
  assumes "length sub1 = ACELP_CODED_FRAME_BYTES" "length sub2 = ACELP_CODED_FRAME_BYTES"
  shows "\<exists>payload. pack_ste_voice_payload sub1 sub2 = Some payload \<and>
    length payload = STE_VOICE_PAYLOAD_BYTES \<and> payload ! 0 = 0 \<and>
    unpack_ste_voice_payload payload = Some (clear_pad sub1, clear_pad sub2)"
proof -
  let ?bits = "\<lambda>sub. map (\<lambda>i. of_bool (msb_bit sub i) :: u8) [0..<ACELP_CODED_FRAME_BITS]"
  let ?all = "?bits sub1 @ ?bits sub2"
  have unpack: "unpack_bits_msb sub1 ACELP_CODED_FRAME_BITS = Some (?bits sub1)"
    "unpack_bits_msb sub2 ACELP_CODED_FRAME_BITS = Some (?bits sub2)"
    using assms by (simp_all add: unpack_bits_msb_eq)
  obtain packed where packed: "pack_bits_msb ?all = Some packed" "length packed = STE_VOICE_PACKED_BYTES"
    "\<And>j. j < 8 * length packed \<Longrightarrow> msb_bit packed j \<longleftrightarrow> j < length ?all \<and> ?all ! j \<noteq> 0"
    using pack_bits_msb_spec [of ?all] by (auto simp: div_ceil_def)
  have "map (\<lambda>i. of_bool (msb_bit packed i)) [0..<STE_VOICE_TOTAL_BITS] = ?all"
    using packed(2,3) by (intro nth_equalityI) (auto simp: nth_append)
  then have all: "unpack_bits_msb packed STE_VOICE_TOTAL_BITS = Some ?all"
    using packed(2) by (simp add: unpack_bits_msb_eq)
  have blocks: "pack_bits_msb (?bits sub1) = Some (clear_pad sub1)"
    "pack_bits_msb (?bits sub2) = Some (clear_pad sub2)"
    using assms by (auto intro!: pack_bits_of_bool)
  have "unpack_ste_voice_payload (0 # packed) = Some (clear_pad sub1, clear_pad sub2)"
    using all blocks packed(2) assms
    by (simp add: unpack_ste_voice_payload_def slice_from_def slice_def clear_pad_def)
  with unpack packed show ?thesis by (simp add: pack_ste_voice_payload_def)
qed

theorem ste_voice_roundtrip_witness:
  "\<exists>payload. pack_ste_voice_payload (replicate 18 0xA5) (replicate 18 0xFF) = Some payload \<and>
    length payload = STE_VOICE_PAYLOAD_BYTES \<and> payload ! 0 = 0 \<and>
    unpack_ste_voice_payload payload =
      Some (replicate 17 0xA5 @ [0x80], replicate 17 0xFF @ [0x80])"
  using ste_voice_roundtrip [of "replicate 18 0xA5" "replicate 18 0xFF"]
  by (simp add: clear_pad_def)

end
