(* ===== verification/State.thy ===== *)
theory State
  imports Builders "HOL-Library.List_Lexorder" "HOL-Library.Product_Lexorder"
begin

text \<open>
  The server's shared state (\<open>src/src/state.rs\<close>, with the federation state of
  \<open>src/src/fedroute.rs\<close> it contains).  A \<open>HashMap\<close> is a finite map and a
  \<open>HashSet\<close> a finite set; where the code iterates one, the model goes through the keys in
  ascending order.  A connection's unbounded sender \<open>tx\<close> is the list of packets queued on it,
  so what every client receives, and in which order, is part of the state.  \<open>Instant\<close>s are
  milliseconds of a monotonic clock (\<open>nat\<close>), wall-clock milliseconds are \<open>u64\<close>, an
  \<open>f64\<close> is its 64-bit pattern.
\<close>

type_synonym client_id = uuid
type_synonym instant = nat
type_synonym f64 = u64
type_synonym socket_addr = rstring

datatype client_mode = Terminal | Basestation | Peer

definition wants_registration_updates :: "client_mode \<Rightarrow> bool" where
  "wants_registration_updates m \<longleftrightarrow> m = Basestation \<or> m = Peer"

text \<open>\<open>v.trim()\<close> and \<open>eq_ignore_ascii_case\<close> of the mode header.\<close>

definition is_rust_whitespace :: "nat \<Rightarrow> bool" where
  "is_rust_whitespace c \<longleftrightarrow> (9 \<le> c \<and> c \<le> 13) \<or> c = 32 \<or> c = 0x85 \<or> c = 0xA0 \<or> c = 0x1680 \<or>
     (0x2000 \<le> c \<and> c \<le> 0x200A) \<or> c = 0x2028 \<or> c = 0x2029 \<or> c = 0x202F \<or> c = 0x205F \<or> c = 0x3000"

definition trim :: "rstring \<Rightarrow> rstring" where
  "trim s = rev (dropWhile is_rust_whitespace (rev (dropWhile is_rust_whitespace s)))"

definition ascii_lower :: "nat \<Rightarrow> nat" where
  "ascii_lower c = (if 65 \<le> c \<and> c \<le> 90 then c + 32 else c)"

definition eq_ignore_ascii_case :: "rstring \<Rightarrow> rstring \<Rightarrow> bool" where
  "eq_ignore_ascii_case s t \<longleftrightarrow> map ascii_lower s = map ascii_lower t"

definition of_ascii :: "string \<Rightarrow> rstring" where
  "of_ascii s = map of_char s"

definition mode_from_header :: "rstring option \<Rightarrow> client_mode" where
  "mode_from_header value =
     (case value of
        None \<Rightarrow> Basestation
      | Some v \<Rightarrow>
          if eq_ignore_ascii_case (trim v) (of_ascii ''Terminal'') then Terminal
          else if eq_ignore_ascii_case (trim v) (of_ascii ''Peer'') then Peer
          else Basestation)"

definition mode_as_str :: "client_mode \<Rightarrow> rstring" where
  "mode_as_str m = of_ascii (case m of Terminal \<Rightarrow> ''Terminal'' | Basestation \<Rightarrow> ''Basestation'' | Peer \<Rightarrow> ''Peer'')"

record client =
  cl_tx :: "bytes list"
  cl_mode :: client_mode
  cl_version :: conn_version
  cl_version_announced :: bool
  cl_remote_addr :: "socket_addr option"
  cl_connected_at_ms :: u64
  cl_username :: "rstring option"

definition forward_version :: "client \<Rightarrow> conn_version" where
  "forward_version c = (if cl_version_announced c then cl_version c else V1)"

record route =
  rt_reg :: u64
  rt_path :: "u64 list"

record subscriber =
  sb_client_id :: client_id
  sb_groups :: "u32 fset"
  sb_mode :: client_mode
  sb_route :: route

datatype call_kind = GroupCall | PrivateCall

record active_call =
  ac_kind :: call_kind
  ac_owner :: client_id
  ac_source_issi :: u32
  ac_destination :: u32
  ac_priority :: u8
  ac_peers :: "client_id fset"
  ac_started_at :: instant
  ac_last_activity_ms :: u64

definition touch :: "u64 \<Rightarrow> active_call \<Rightarrow> active_call" where
  "touch now_ms c = c\<lparr>ac_last_activity_ms := now_ms\<rparr>"

definition idle_ms :: "u64 \<Rightarrow> active_call \<Rightarrow> u64" where
  "idle_ms now_ms c = saturating_sub now_ms (ac_last_activity_ms c)"

record sds_route =
  sr_source_client :: client_id
  sr_targets :: "client_id fset"
  sr_source_issi :: u32
  sr_destination :: u32
  sr_created_at :: instant
  sr_store_offline :: bool
  sr_lip_only :: bool
  sr_held_header :: "bytes option"

section \<open>Federation state\<close>

record advert =
  ad_reg :: u64
  ad_path :: "u64 list"
  ad_groups :: "u32 list"

record local_em =
  le_dest :: "u32 option"
  le_bts :: rstring
  le_seq :: u64

record remote_em =
  re_dest :: "u32 option"
  re_bts :: rstring
  re_active :: bool
  re_seq :: u64
  re_path :: "u64 list"
  re_seen_ms :: u64

record ms_entry =
  me_lat :: f64
  me_lon :: f64
  me_at_ms :: u64
  me_station :: rstring
  me_path :: "u64 list"

record local_bts =
  lb_name :: rstring
  lb_lat :: f64
  lb_lon :: f64
  lb_seq :: u64

record remote_bts =
  rb_name :: rstring
  rb_lat :: f64
  rb_lon :: f64
  rb_online :: bool
  rb_seq :: u64
  rb_path :: "u64 list"
  rb_seen_ms :: u64

record fed_state =
  fs_self_id :: u64
  fs_clock :: u64
  fs_links :: "(client_id, u64) fmap"
  fs_rib_in :: "(u32, (client_id, advert) fmap) fmap"
  fs_bts_links :: "client_id fset"
  fs_ms_links :: "client_id fset"
  fs_ms_pos :: "(u32, ms_entry) fmap"
  fs_em_links :: "client_id fset"
  fs_em_local :: "(u32, local_em) fmap"
  fs_em_remote :: "(u64 \<times> u32, remote_em) fmap"
  fs_bts_local :: "(rstring, local_bts) fmap"
  fs_bts_remote :: "(u64 \<times> rstring, remote_bts) fmap"

text \<open>\<open>FedState::tick\<close> and \<open>FedState::observe\<close>: the hybrid registration clock.\<close>

definition tick :: "u64 \<Rightarrow> fed_state \<Rightarrow> u64 \<times> fed_state" where
  "tick now_ms f = (let c = max (saturating_add (fs_clock f) 1) now_ms in (c, f\<lparr>fs_clock := c\<rparr>))"

definition observe :: "u64 \<Rightarrow> fed_state \<Rightarrow> fed_state" where
  "observe reg f = f\<lparr>fs_clock := max (fs_clock f) reg\<rparr>"

section \<open>The shared tables\<close>

record inner =
  clients :: "(client_id, client) fmap"
  subscribers :: "(u32, subscriber) fmap"
  group_clients :: "(u32, client_id fset) fmap"
  calls :: "(uuid, active_call) fmap"
  group_floor :: "(u32, uuid) fmap"
  group_tx_raw :: "(uuid, bytes) fmap"
  sds_routes :: "(uuid, sds_route) fmap"
  digest_nonces :: "(rstring, instant) fmap"
  auth_sessions :: "(rstring, instant \<times> client_mode \<times> conn_version option \<times> rstring option) fmap"
  discovery_hints :: "(rstring, instant \<times> rstring \<times> client_mode \<times> conn_version option) fmap"
  recent_calls :: "(uuid \<times> u32, client_id \<times> instant) fmap"
  fed :: fed_state
  consoles :: "client_id fset"

definition empty_fed :: "u64 \<Rightarrow> fed_state" where
  "empty_fed self_id = \<lparr>fs_self_id = self_id, fs_clock = 0, fs_links = fmempty, fs_rib_in = fmempty,
     fs_bts_links = {||}, fs_ms_links = {||}, fs_ms_pos = fmempty, fs_em_links = {||},
     fs_em_local = fmempty, fs_em_remote = fmempty, fs_bts_local = fmempty, fs_bts_remote = fmempty\<rparr>"

definition empty_inner :: "u64 \<Rightarrow> inner" where
  "empty_inner self_id = \<lparr>clients = fmempty, subscribers = fmempty, group_clients = fmempty,
     calls = fmempty, group_floor = fmempty, group_tx_raw = fmempty, sds_routes = fmempty,
     digest_nonces = fmempty, auth_sessions = fmempty, discovery_hints = fmempty,
     recent_calls = fmempty, fed = empty_fed self_id, consoles = {||}\<rparr>"

definition ms_registration_count :: "inner \<Rightarrow> nat" where
  "ms_registration_count i = fcard (fm_keys_where (\<lambda>_ s. sb_mode s = Terminal) (subscribers i))"

definition basestation_count :: "inner \<Rightarrow> nat" where
  "basestation_count i = fcard (fm_keys_where (\<lambda>_ c. cl_mode c = Basestation) (clients i))"

definition is_peer :: "inner \<Rightarrow> client_id \<Rightarrow> bool" where
  "is_peer i c = (case fmlookup (clients i) c of Some cl \<Rightarrow> cl_mode cl = Peer | None \<Rightarrow> False)"

definition peer_clients :: "inner \<Rightarrow> client_id fset" where
  "peer_clients i = fm_keys_where (\<lambda>_ c. cl_mode c = Peer) (clients i)"

definition client_version :: "client_id \<Rightarrow> inner \<Rightarrow> conn_version" where
  "client_version c i = (case fmlookup (clients i) c of Some cl \<Rightarrow> cl_version cl | None \<Rightarrow> V0)"

definition promote_client_version :: "client_id \<Rightarrow> conn_version \<Rightarrow> inner \<Rightarrow> bool \<times> inner" where
  "promote_client_version c observed i =
     (case fmlookup (clients i) c of
        Some cl \<Rightarrow>
          if as_u8 (cl_version cl) < as_u8 observed
          then (True, i\<lparr>clients := fmupd c (cl\<lparr>cl_version := observed\<rparr>) (clients i)\<rparr>)
          else (False, i)
      | None \<Rightarrow> (False, i))"

section \<open>Sending\<close>

text \<open>\<open>for (tx, packet) in ... { tx.send(packet) }\<close>: every connected client \<open>c\<close> gets the
  packets \<open>f c cl\<close> appended to its queue; an unbounded send never blocks or fails while the
  connection is in the table.\<close>

definition push_each :: "(client_id \<Rightarrow> client \<Rightarrow> bytes list) \<Rightarrow> inner \<Rightarrow> inner" where
  "push_each f i = i\<lparr>clients := fmmap_keys (\<lambda>c cl. cl\<lparr>cl_tx := cl_tx cl @ f c cl\<rparr>) (clients i)\<rparr>"

definition send_all :: "client_id fset \<Rightarrow> bytes \<Rightarrow> inner \<Rightarrow> inner" where
  "send_all targets packet = push_each (\<lambda>c _. if c |\<in>| targets then [packet] else [])"

definition send_to :: "client_id \<Rightarrow> bytes \<Rightarrow> inner \<Rightarrow> inner" where
  "send_to c packet = send_all {|c|} packet"

definition send_list :: "client_id \<Rightarrow> bytes list \<Rightarrow> inner \<Rightarrow> inner" where
  "send_list c packets = push_each (\<lambda>d _. if d = c then packets else [])"

text \<open>The queue of a connection, empty once it is gone.\<close>

definition queue :: "inner \<Rightarrow> client_id \<Rightarrow> bytes list" where
  "queue i c = (case fmlookup (clients i) c of Some cl \<Rightarrow> cl_tx cl | None \<Rightarrow> [])"

definition connected :: "inner \<Rightarrow> client_id \<Rightarrow> bool" where
  "connected i c \<longleftrightarrow> fmlookup (clients i) c \<noteq> None"

lemma fmlookup_push_each [simp, fm_simps]:
  "fmlookup (clients (push_each f i)) c =
     map_option (\<lambda>cl. cl\<lparr>cl_tx := cl_tx cl @ f c cl\<rparr>) (fmlookup (clients i) c)"
  by (simp add: push_each_def)

lemma push_each_tables [simp]:
  "subscribers (push_each f i) = subscribers i" "group_clients (push_each f i) = group_clients i"
  "calls (push_each f i) = calls i" "group_floor (push_each f i) = group_floor i"
  "group_tx_raw (push_each f i) = group_tx_raw i" "sds_routes (push_each f i) = sds_routes i"
  "recent_calls (push_each f i) = recent_calls i" "fed (push_each f i) = fed i"
  "consoles (push_each f i) = consoles i" "digest_nonces (push_each f i) = digest_nonces i"
  "auth_sessions (push_each f i) = auth_sessions i"
  "discovery_hints (push_each f i) = discovery_hints i"
  by (simp_all add: push_each_def)

lemma connected_push_each [simp]: "connected (push_each f i) c = connected i c"
  by (simp add: connected_def)

lemma is_peer_push_each [simp]: "is_peer (push_each f i) c = is_peer i c"
  by (simp add: is_peer_def option.case_eq_if option.map_sel)

lemma queue_push_each [simp]:
  "queue (push_each f i) c =
     queue i c @ (case fmlookup (clients i) c of Some cl \<Rightarrow> f c cl | None \<Rightarrow> [])"
  by (simp add: queue_def split: option.split)

lemma send_all_tables [simp]:
  "subscribers (send_all t p i) = subscribers i" "group_clients (send_all t p i) = group_clients i"
  "calls (send_all t p i) = calls i" "group_floor (send_all t p i) = group_floor i"
  "group_tx_raw (send_all t p i) = group_tx_raw i" "sds_routes (send_all t p i) = sds_routes i"
  "recent_calls (send_all t p i) = recent_calls i" "fed (send_all t p i) = fed i"
  "consoles (send_all t p i) = consoles i" "connected (send_all t p i) c = connected i c"
  "is_peer (send_all t p i) c = is_peer i c" "digest_nonces (send_all t p i) = digest_nonces i"
  "auth_sessions (send_all t p i) = auth_sessions i"
  "discovery_hints (send_all t p i) = discovery_hints i"
  by (simp_all add: send_all_def)

lemma queue_send_all [simp]:
  "queue (send_all t p i) c = queue i c @ (if c |\<in>| t \<and> connected i c then [p] else [])"
  by (auto simp: send_all_def connected_def split: option.split)

lemma queue_send_list [simp]:
  "queue (send_list c ps i) d = queue i d @ (if d = c \<and> connected i c then ps else [])"
  by (auto simp: send_list_def connected_def split: option.split)

lemma send_list_tables [simp]:
  "subscribers (send_list c ps i) = subscribers i" "group_clients (send_list c ps i) = group_clients i"
  "calls (send_list c ps i) = calls i" "group_floor (send_list c ps i) = group_floor i"
  "group_tx_raw (send_list c ps i) = group_tx_raw i" "sds_routes (send_list c ps i) = sds_routes i"
  "recent_calls (send_list c ps i) = recent_calls i" "fed (send_list c ps i) = fed i"
  "consoles (send_list c ps i) = consoles i" "connected (send_list c ps i) d = connected i d"
  "is_peer (send_list c ps i) d = is_peer i d"
  by (simp_all add: send_list_def)

section \<open>The registration clock\<close>

text \<open>Every registration gets a clock above all this server has made or seen, until the clock
  saturates; and never one below the wall clock.\<close>

lemma tick_above:
  assumes "fs_clock f < - 1" "tick now f = (c, f')"
  shows "fs_clock f < c" "now \<le> c" "fs_clock f' = c"
  using assms saturating_add_gt [OF assms(1)]
  by (auto simp: tick_def Let_def max_def intro: order.strict_trans2)

lemma observe_ge: "reg \<le> fs_clock (observe reg f)" "fs_clock f \<le> fs_clock (observe reg f)"
  by (simp_all add: observe_def)

lemma observe_fields [simp]:
  "fs_self_id (observe r f) = fs_self_id f" "fs_links (observe r f) = fs_links f"
  "fs_rib_in (observe r f) = fs_rib_in f" "fs_bts_links (observe r f) = fs_bts_links f"
  "fs_ms_links (observe r f) = fs_ms_links f" "fs_em_links (observe r f) = fs_em_links f"
  "fs_bts_remote (observe r f) = fs_bts_remote f" "fs_em_remote (observe r f) = fs_em_remote f"
  "fs_ms_pos (observe r f) = fs_ms_pos f"
  by (simp_all add: observe_def)

text \<open>A connection's version only ever rises.\<close>

lemma promote_never_lowers:
  "client_version d i \<le> client_version d (snd (promote_client_version c v i))"
  by (auto simp: client_version_def promote_client_version_def less_eq_conn_version_def
      split: option.split)

end
