(* ===== verification/Fed_Codec.thy ===== *)
theory Fed_Codec
  imports Fed_Wire
begin

text \<open>
  What the federation wire format of \<open>Fed_Wire\<close> guarantees: the parser never panics, a path it
  accepts starts at the sending neighbour, crosses no server twice and has at most \<open>MAX_PATH\<close>
  hops, and every message a server builds is read back unchanged by the neighbour it is sent to.
\<close>

section \<open>Paths\<close>

definition le_list :: "bytes \<Rightarrow> nat \<Rightarrow> nat \<Rightarrow> u64 list" where
  "le_list raw off n = map (\<lambda>i. le_val (take 8 (drop (off + 8 * i) raw))) [0..<n]"

lemma those_map_Some: "(\<And>x. x \<in> set xs \<Longrightarrow> f x = Some (g x)) \<Longrightarrow> those (map f xs) = Some (map g xs)"
  by (induction xs) auto

lemma path_at_Some: "off + 8 * n \<le> length raw \<Longrightarrow> path_at raw off n = Some (le_list raw off n)"
  by (auto simp: path_at_def le_list_def le_at_def intro!: those_map_Some)

lemma length_le_list [simp]: "length (le_list raw off n) = n"
  by (simp add: le_list_def)

lemma le_list_at: "0 < n \<Longrightarrow> le_list raw off n \<noteq> []"
  by (simp add: le_list_def)

lemma length_path_bytes [simp]: "length (path_bytes p) = 8 * length p"
  by (induction p) (simp_all add: path_bytes_def)

lemma le_list_path_bytes: "le_list (path_bytes p @ rest) 0 (length p) = p"
proof (induction p arbitrary: rest)
  case Nil
  then show ?case by (simp add: le_list_def)
next
  case (Cons x p)
  have "le_list (path_bytes (x # p) @ rest) 0 (length (x # p)) =
      x # le_list (path_bytes p @ rest) 0 (length p)"
    by (simp add: le_list_def path_bytes_def upt_conv_Cons map_Suc_upt [symmetric] comp_def del: upt_Suc)
  with Cons show ?case by simp
qed

lemma le_list_drop: "off \<le> length raw \<Longrightarrow> le_list raw off n = le_list (drop off raw) 0 n"
  by (simp add: le_list_def add.commute)

text \<open>Reading back the path a builder wrote after a head of \<open>k\<close> bytes.\<close>

lemma path_at_written:
  assumes "length head = k"
  shows "path_at (head @ path_bytes p @ rest) k (length p) = Some p"
  using assms by (simp add: path_at_Some le_list_drop le_list_path_bytes)

lemma crosses_twice_iff: "crosses_twice path \<longleftrightarrow> \<not> distinct path"
proof -
  have "i < length path \<Longrightarrow> path ! i \<in> set (take i path) \<longleftrightarrow> (\<exists>j < i. path ! j = path ! i)" for i
    by (subst nth_image [symmetric]) (auto simp: less_imp_le intro: rev_image_eqI)
  then have "crosses_twice path \<longleftrightarrow> (\<exists>i < length path. \<exists>j < i. path ! j = path ! i)"
    by (auto simp: crosses_twice_def list_ex_iff)
  also have "\<dots> \<longleftrightarrow> \<not> distinct path"
  proof
    assume "\<exists>i < length path. \<exists>j < i. path ! j = path ! i"
    then obtain i j where "i < length path" "j < i" "path ! j = path ! i" by blast
    then show "\<not> distinct path"
      using nth_eq_iff_index_eq [of path i j] by auto
  next
    assume "\<not> distinct path"
    then obtain i j where "i < length path" "j < length path" "i \<noteq> j" "path ! i = path ! j"
      by (auto simp: distinct_conv_nth)
    then show "\<exists>i < length path. \<exists>j < i. path ! j = path ! i"
      by (metis linorder_neqE_nat)
  qed
  finally show ?thesis .
qed

section \<open>No panic\<close>

declare not_None_eq [simp del]

lemma fail_total: "fail why = None \<longleftrightarrow> False"
  by (simp add: fail_def)

lemma parse_emergency_total: "parse_emergency raw nbr = None \<longleftrightarrow> False"
  by (auto simp: parse_emergency_def bind_eq_None_conv panics_iff Let_def fail_total get_at_def
      path_at_Some split: option.splits if_splits)

lemma parse_ms_pos_total: "parse_ms_pos raw nbr = None \<longleftrightarrow> False"
  by (auto simp: parse_ms_pos_def bind_eq_None_conv panics_iff Let_def fail_total get_at_def
      path_at_Some split: option.splits if_splits)

lemma parse_bts_total: "parse_bts raw nbr = None \<longleftrightarrow> False"
  by (auto simp: parse_bts_def bind_eq_None_conv panics_iff Let_def fail_total
      path_at_Some split: option.splits if_splits sum.splits)

lemma parse_route_total: "parse_route raw nbr = None \<longleftrightarrow> False"
  by (auto simp: parse_route_def bind_eq_None_conv panics_iff Let_def fail_total
      path_at_Some split: if_splits)

lemma fed_parse_total: "fed_parse raw nbr = None \<longleftrightarrow> False"
  by (auto simp: fed_parse_def bind_eq_None_conv panics_iff fail_total map_fed_def
      parse_emergency_total parse_ms_pos_total parse_bts_total parse_route_total split: option.split)

declare not_None_eq [simp]

section \<open>Accepted paths\<close>

text \<open>The path a federation message carries, if its kind has one.\<close>

definition message_path :: "fed_message \<Rightarrow> u64 list option" where
  "message_path m =
     (case m of FedRoute _ a \<Rightarrow> Some (ad_path a) | FedBts a \<Rightarrow> Some (ba_path a)
      | FedMsPos a \<Rightarrow> Some (ma_path a) | FedEmergency a \<Rightarrow> Some (ea_path a) | _ \<Rightarrow> None)"

definition good_path :: "u64 \<Rightarrow> u64 list \<Rightarrow> bool" where
  "good_path nbr p \<longleftrightarrow> p \<noteq> [] \<and> hd p = nbr \<and> distinct p \<and> length p \<le> MAX_PATH"

lemma fail_not_ok: "fail why \<noteq> Some (Inr x)"
  by (simp add: fail_def)

lemmas path_sound_simps = bind_eq_Some_conv fail_not_ok index_at_def path_at_Some crosses_twice_iff
  get_at_def Let_def good_path_def

lemma parse_emergency_path:
  "parse_emergency raw nbr = Some (Inr a) \<Longrightarrow> good_path nbr (ea_path a)"
  by (auto simp: parse_emergency_def path_sound_simps hd_conv_nth le_list_at
      split: if_splits option.splits)

lemma parse_ms_pos_path:
  "parse_ms_pos raw nbr = Some (Inr a) \<Longrightarrow> good_path nbr (ma_path a)"
  by (auto simp: parse_ms_pos_def path_sound_simps hd_conv_nth le_list_at
      split: if_splits option.splits)

lemma parse_bts_path:
  "parse_bts raw nbr = Some (Inr a) \<Longrightarrow> good_path nbr (ba_path a)"
  by (auto simp: parse_bts_def path_sound_simps hd_conv_nth le_list_at
      split: if_splits option.splits sum.splits)

lemma parse_route_path:
  "parse_route raw nbr = Some (Inr m) \<Longrightarrow> \<exists>issi a. m = FedRoute issi a \<and> good_path nbr (ad_path a)"
  by (auto simp: parse_route_def path_sound_simps hd_conv_nth le_list_at
      split: if_splits option.splits)

lemma map_fed_Some: "map_fed f r = Some (Inr m) \<longleftrightarrow> (\<exists>a. r = Some (Inr a) \<and> m = f a)"
proof (cases r)
  case (Some x)
  then show ?thesis by (cases x) (auto simp: map_fed_def)
qed (simp add: map_fed_def)

lemma parsed_path_good:
  assumes "fed_parse raw nbr = Some (Inr m)" "message_path m = Some p"
  shows "good_path nbr p"
  using assms
  by (auto simp: fed_parse_def fail_not_ok bind_eq_Some_conv map_fed_Some message_path_def
      dest: parse_emergency_path parse_ms_pos_path parse_bts_path parse_route_path
      split: option.splits if_splits)

text \<open>C24. The federation parser returns on every buffer, without an index or slice out of range:
  a parse error, or a message whose path, if its kind carries one, starts at the neighbour the link
  leads to, crosses no server twice and has between one and \<open>MAX_PATH\<close> servers.\<close>

theorem fed_parse_sound:
  "\<exists>r. fed_parse raw nbr = Some r \<and>
     (case r of Inl _ \<Rightarrow> True
      | Inr m \<Rightarrow> (case message_path m of None \<Rightarrow> True | Some p \<Rightarrow> good_path nbr p))"
  using fed_parse_total [of raw nbr] parsed_path_good [of raw nbr]
  by (cases "fed_parse raw nbr") (auto split: sum.split option.split)

section \<open>Round trips\<close>

text \<open>One encoder over the builders, and what a neighbour reads from it: the texts of an advert
  are clipped, everything else is as sent.\<close>

definition fed_encode :: "fed_message \<Rightarrow> bytes" where
  "fed_encode m =
     (case m of FedWithdraw issi \<Rightarrow> build_withdraw issi
      | FedRoute issi a \<Rightarrow> build_route issi (ad_reg a) (ad_path a) (ad_groups a)
      | FedPrune uid src \<Rightarrow> build_prune uid src
      | FedBtsHello _ \<Rightarrow> build_bts_hello
      | FedBts a \<Rightarrow> build_bts a | FedMsPos a \<Rightarrow> build_ms_pos a | FedEmergency a \<Rightarrow> build_emergency a
      | FedUnknown t \<Rightarrow> [CLASS_FEDERATION, t])"

definition clip_message :: "fed_message \<Rightarrow> fed_message" where
  "clip_message m =
     (case m of
        FedBts a \<Rightarrow> FedBts (a\<lparr>ba_key := clip (ba_key a), ba_name := clip (ba_name a)\<rparr>)
      | FedMsPos a \<Rightarrow> FedMsPos (a\<lparr>ma_station := clip (ma_station a)\<rparr>)
      | FedEmergency a \<Rightarrow> FedEmergency (a\<lparr>ea_bts := clip (ea_bts a)\<rparr>)
      | m \<Rightarrow> m)"

text \<open>What a server can send: texts are strings, an emergency destination is not 0 and unknown
  types are those beyond \<open>FED_EMERGENCY\<close>.\<close>

definition sendable :: "fed_message \<Rightarrow> bool" where
  "sendable m =
     (case m of
        FedBts a \<Rightarrow> list_all is_scalar (ba_key a) \<and> list_all is_scalar (ba_name a)
      | FedMsPos a \<Rightarrow> list_all is_scalar (ma_station a)
      | FedEmergency a \<Rightarrow> list_all is_scalar (ea_bts a) \<and> ea_dest a \<noteq> Some 0
      | FedBtsHello v \<Rightarrow> v = HELLO_VERSION
      | FedUnknown t \<Rightarrow> FED_EMERGENCY < t
      | _ \<Rightarrow> True)"

lemma as_bytes_clip_le: "length (as_bytes (clip_to n s)) \<le> n"
  by (induction n s rule: clip_to.induct) (auto simp: as_bytes_def)

lemma clip_to_scalar: "list_all is_scalar s \<Longrightarrow> list_all is_scalar (clip_to n s)"
  by (induction n s rule: clip_to.induct) auto

lemma from_utf8_clip: "list_all is_scalar s \<Longrightarrow> from_utf8 (as_bytes (clip s)) = Some (clip s)"
  using clip_to_scalar [of s MAX_BTS_TEXT]
  by (simp add: clip_def list_all_iff from_utf8_as_bytes)

lemma clip_len: "\<not> 64 < length (as_bytes (clip s))" "unat (of_nat (length (as_bytes (clip s))) :: u8) = length (as_bytes (clip s))"
  using as_bytes_clip_le [of 64 s] by (simp_all add: clip_def unat_byte not_less)

lemma hop_count: "length p \<le> 16 \<Longrightarrow> unat (of_nat (length p) :: u8) = length p"
  by (simp add: unat_byte)

text \<open>The reads behind a path: the length byte of the text after it and the text.\<close>

lemma after_path:
  assumes "length head = k"
  shows "get_at (head @ path_bytes p @ b # rest) (k + 8 * length p) = Some b"
    and "slice_from (head @ path_bytes p @ b # rest) (k + 8 * length p + 1) = Some rest"
    and "slice_from (head @ path_bytes p @ rest) (k + 8 * length p) = Some rest"
  using assms by (simp_all add: get_at_def slice_from_def nth_append)

lemma good_pathD:
  assumes "good_path nbr p"
  shows "p \<noteq> []" "length p \<le> 16" "\<not> 16 < length p" "index_at p 0 = Some nbr" "\<not> crosses_twice p"
    "unat (of_nat (length p) :: u8) = length p"
  using assms by (auto simp: good_path_def hd_conv_nth crosses_twice_iff index_at_def hop_count)

lemma ms_pos_roundtrip:
  assumes p: "good_path nbr (ma_path a)" and s: "list_all is_scalar (ma_station a)"
  shows "parse_ms_pos (build_ms_pos a) nbr = Some (Inr (a\<lparr>ma_station := clip (ma_station a)\<rparr>))"
proof -
  let ?head = "[CLASS_FEDERATION, FED_MS_POS] @ le_bytes 8 (ma_at_ms a) @ le_bytes 4 (ma_issi a)
       @ le_bytes 8 (ma_lat a) @ le_bytes 8 (ma_lon a) @ [of_nat (length (ma_path a))]"
  let ?txt = "as_bytes (clip (ma_station a))"
  define raw where "raw = build_ms_pos a"
  have raw: "raw = ?head @ path_bytes (ma_path a) @ of_nat (length ?txt) # ?txt"
    by (simp add: raw_def build_ms_pos_def text_bytes_def)
  have head: "length ?head = 31" by simp
  have fields: "length raw = 32 + 8 * length (ma_path a) + length ?txt"
    "index_at raw 30 = Some (of_nat (length (ma_path a)))"
    "le_at 4 raw 10 = Some (ma_issi a)" "le_at 8 raw 14 = Some (ma_lat a)"
    "le_at 8 raw 22 = Some (ma_lon a)" "le_at 8 raw 2 = Some (ma_at_ms a)"
    by (simp_all add: raw index_at_def le_at_def nth_append)
  have reads: "path_at raw 31 (length (ma_path a)) = Some (ma_path a)"
    "get_at raw (31 + 8 * length (ma_path a)) = Some (of_nat (length ?txt))"
    "slice_from raw (31 + 8 * length (ma_path a) + 1) = Some ?txt"
    by (simp_all only: raw path_at_written [OF head] after_path [OF head])
  show ?thesis
    unfolding raw_def [symmetric] parse_ms_pos_def using reads
    by (simp add: fields good_pathD [OF p] clip_len from_utf8_clip [OF s] Let_def)
qed

lemma emergency_roundtrip:
  assumes p: "good_path nbr (ea_path a)" and s: "list_all is_scalar (ea_bts a)" and d: "ea_dest a \<noteq> Some 0"
  shows "parse_emergency (build_emergency a) nbr = Some (Inr (a\<lparr>ea_bts := clip (ea_bts a)\<rparr>))"
proof -
  let ?dest = "case ea_dest a of Some d \<Rightarrow> d | None \<Rightarrow> 0"
  let ?head = "[CLASS_FEDERATION, FED_EMERGENCY] @ le_bytes 8 (ea_seq a) @ [flag (ea_active a)]
       @ le_bytes 4 (ea_issi a) @ le_bytes 4 ?dest @ [of_nat (length (ea_path a))]"
  let ?txt = "as_bytes (clip (ea_bts a))"
  define raw where "raw = build_emergency a"
  have raw: "raw = ?head @ path_bytes (ea_path a) @ of_nat (length ?txt) # ?txt"
    by (simp add: raw_def build_emergency_def text_bytes_def)
  have head: "length ?head = 20" by simp
  have fields: "length raw = 21 + 8 * length (ea_path a) + length ?txt"
    "index_at raw 19 = Some (of_nat (length (ea_path a)))"
    "index_at raw 10 = Some (flag (ea_active a))"
    "le_at 4 raw 15 = Some ?dest" "le_at 4 raw 11 = Some (ea_issi a)" "le_at 8 raw 2 = Some (ea_seq a)"
    by (simp_all add: raw index_at_def le_at_def nth_append)
  have reads: "path_at raw 20 (length (ea_path a)) = Some (ea_path a)"
    "get_at raw (20 + 8 * length (ea_path a)) = Some (of_nat (length ?txt))"
    "slice_from raw (20 + 8 * length (ea_path a) + 1) = Some ?txt"
    by (simp_all only: raw path_at_written [OF head] after_path [OF head])
  have dest: "(if ?dest \<noteq> 0 then Some ?dest else None) = ea_dest a"
    using d by (auto split: option.split)
  show ?thesis
    unfolding raw_def [symmetric] parse_emergency_def using reads dest
    by (simp add: fields good_pathD [OF p] clip_len from_utf8_clip [OF s] Let_def flag_def)
qed

lemma bts_text_at:
  assumes "length head = k" "list_all is_scalar s"
  shows "bts_text (head @ text_bytes (clip s) @ rest) k = Inr (clip s, k + 1 + length (as_bytes (clip s)))"
  using assms
  by (simp add: bts_text_def get_at_def get_range_def nth_append text_bytes_def clip_len from_utf8_clip)

lemma bts_roundtrip:
  assumes p: "good_path nbr (ba_path a)"
    and s: "list_all is_scalar (ba_key a)" "list_all is_scalar (ba_name a)"
  shows "parse_bts (build_bts a) nbr =
     Some (Inr (a\<lparr>ba_key := clip (ba_key a), ba_name := clip (ba_name a)\<rparr>))"
proof -
  let ?head = "[CLASS_FEDERATION, FED_BTS] @ le_bytes 8 (ba_seq a) @ [flag (ba_online a)]
       @ le_bytes 8 (ba_lat a) @ le_bytes 8 (ba_lon a) @ [of_nat (length (ba_path a))]"
  let ?key = "text_bytes (clip (ba_key a))" and ?name = "text_bytes (clip (ba_name a))"
  define raw where "raw = build_bts a"
  have raw: "raw = ?head @ path_bytes (ba_path a) @ ?key @ ?name"
    by (simp add: raw_def build_bts_def)
  have head: "length ?head = 28" by simp
  have fields: "length raw = 30 + 8 * length (ba_path a) + length (as_bytes (clip (ba_key a)))
        + length (as_bytes (clip (ba_name a)))"
    "index_at raw 27 = Some (of_nat (length (ba_path a)))"
    "index_at raw 10 = Some (flag (ba_online a))"
    "le_at 8 raw 11 = Some (ba_lat a)" "le_at 8 raw 19 = Some (ba_lon a)" "le_at 8 raw 2 = Some (ba_seq a)"
    by (simp_all add: raw index_at_def le_at_def nth_append text_bytes_def)
  have path: "path_at raw 28 (length (ba_path a)) = Some (ba_path a)"
    by (simp only: raw path_at_written [OF head])
  have key: "bts_text raw (28 + 8 * length (ba_path a)) =
      Inr (clip (ba_key a), 29 + 8 * length (ba_path a) + length (as_bytes (clip (ba_key a))))"
    using bts_text_at [OF _ s(1), of "?head @ path_bytes (ba_path a)" "28 + 8 * length (ba_path a)" ?name]
    by (simp add: raw)
  have name: "bts_text raw (29 + 8 * length (ba_path a) + length (as_bytes (clip (ba_key a)))) =
      Inr (clip (ba_name a), length raw)"
    using bts_text_at [OF _ s(2), of "?head @ path_bytes (ba_path a) @ ?key"
        "29 + 8 * length (ba_path a) + length (as_bytes (clip (ba_key a)))" "[]"]
    by (simp add: raw text_bytes_def)
  show ?thesis
    unfolding raw_def [symmetric] parse_bts_def using path key name
    by (simp add: fields good_pathD [OF p] Let_def flag_def)
qed

lemma length_groups [simp]: "length (concat (map (le_bytes 4) (gs :: u32 list))) = 4 * length gs"
  by (induction gs) simp_all

lemma route_roundtrip:
  assumes p: "good_path nbr path"
  shows "parse_route (build_route issi reg path gs) nbr =
     Some (Inr (FedRoute issi \<lparr>ad_reg = reg, ad_path = path, ad_groups = gs\<rparr>))"
proof -
  let ?head = "[CLASS_FEDERATION, FED_ROUTE] @ le_bytes 4 issi @ le_bytes 8 reg @ [of_nat (length path)]"
  let ?gs = "concat (map (le_bytes 4) gs)"
  define raw where "raw = build_route issi reg path gs"
  have raw: "raw = ?head @ path_bytes path @ ?gs"
    by (simp add: raw_def build_route_def)
  have head: "length ?head = 15" by simp
  have fields: "length raw = 15 + 8 * length path + 4 * length gs"
    "index_at raw 14 = Some (of_nat (length path))"
    "le_at 4 raw 2 = Some issi" "le_at 8 raw 6 = Some reg"
    by (simp_all add: raw index_at_def le_at_def nth_append)
  have reads: "path_at raw 15 (length path) = Some path" "slice_from raw (15 + 8 * length path) = Some ?gs"
    by (simp_all only: raw path_at_written [OF head] after_path(3) [OF head])
  show ?thesis
    unfolding raw_def [symmetric] parse_route_def using reads
    by (simp add: fields good_pathD [OF p] Let_def group_list_concat)
qed

lemma parse_built_route:
  "good_path nbr path \<Longrightarrow> fed_parse (build_route issi reg path gs) nbr =
     Some (Inr (FedRoute issi \<lparr>ad_reg = reg, ad_path = path, ad_groups = gs\<rparr>))"
  using route_roundtrip [of nbr path issi reg gs]
  by (simp add: fed_parse_def get_at_def) (simp add: build_route_def)

lemma parse_built_withdraw: "fed_parse (build_withdraw issi) nbr = Some (Inr (FedWithdraw issi))"
  by (simp add: fed_parse_def build_withdraw_def get_at_def le_at_def)

lemma parse_built_bts:
  "good_path nbr (ba_path a) \<Longrightarrow> list_all is_scalar (ba_key a) \<Longrightarrow> list_all is_scalar (ba_name a) \<Longrightarrow>
   fed_parse (build_bts a) nbr =
     Some (Inr (FedBts (a\<lparr>ba_key := clip (ba_key a), ba_name := clip (ba_name a)\<rparr>)))"
  using bts_roundtrip [of nbr a]
  by (simp add: fed_parse_def get_at_def map_fed_def) (simp add: build_bts_def)

text \<open>C25. Whatever a server sends to a neighbour over a negotiated link -- routes, withdrawals,
  prunes, the hello and the three kinds of adverts, with a path that starts at the sender -- the
  neighbour's parser reads back exactly, the texts of an advert clipped to \<open>MAX_BTS_TEXT\<close>
  bytes at a character boundary.\<close>

theorem fed_roundtrip:
  assumes "sendable m" "\<And>p. message_path m = Some p \<Longrightarrow> good_path nbr p"
  shows "fed_parse (fed_encode m) nbr = Some (Inr (clip_message m))"
proof (cases m)
  case (FedWithdraw issi)
  then show ?thesis
    by (simp add: fed_parse_def fed_encode_def clip_message_def build_withdraw_def get_at_def le_at_def)
next
  case (FedPrune uid src)
  then show ?thesis
    by (simp add: fed_parse_def fed_encode_def clip_message_def build_prune_def get_at_def le_at_def slice_def)
next
  case (FedBtsHello v)
  with assms(1) show ?thesis
    by (simp add: fed_parse_def fed_encode_def clip_message_def build_bts_hello_def get_at_def sendable_def)
next
  case (FedUnknown t)
  with assms(1) show ?thesis
    by (auto simp: fed_parse_def fed_encode_def clip_message_def get_at_def sendable_def)
next
  case (FedRoute issi a)
  with assms(2) route_roundtrip [of nbr "ad_path a" issi "ad_reg a" "ad_groups a"] show ?thesis
    by (simp add: fed_parse_def fed_encode_def clip_message_def get_at_def message_path_def build_route_def)
next
  case (FedBts a)
  with assms bts_roundtrip [of nbr a] show ?thesis
    by (simp add: fed_parse_def fed_encode_def clip_message_def get_at_def message_path_def
        sendable_def map_fed_def build_bts_def)
next
  case (FedMsPos a)
  with assms ms_pos_roundtrip [of nbr a] show ?thesis
    by (simp add: fed_parse_def fed_encode_def clip_message_def get_at_def message_path_def
        sendable_def map_fed_def build_ms_pos_def)
next
  case (FedEmergency a)
  with assms emergency_roundtrip [of nbr a] show ?thesis
    by (simp add: fed_parse_def fed_encode_def clip_message_def get_at_def message_path_def
        sendable_def map_fed_def build_emergency_def)
qed

theorem fed_roundtrip_witness:
  "fed_parse (fed_encode (FedEmergency \<lparr>ea_issi = 4013, ea_dest = Some 91, ea_bts = [98, 233],
       ea_active = True, ea_seq = 9, ea_path = [7, 8]\<rparr>)) 7 =
     Some (Inr (FedEmergency \<lparr>ea_issi = 4013, ea_dest = Some 91, ea_bts = [98, 233],
       ea_active = True, ea_seq = 9, ea_path = [7, 8]\<rparr>))"
  by (subst fed_roundtrip)
    (simp_all add: sendable_def message_path_def good_path_def is_scalar_def clip_message_def
      clip_def utf8_char_def)

section \<open>Server ids\<close>

text \<open>The header form of a server id: 16 hex digits.\<close>

lemma hex_digit_value: "d < 16 \<Longrightarrow> hex_value (hex_digit d) = d \<and> is_hex (hex_digit d) \<and> hex_digit d < 128
    \<and> \<not> is_rust_whitespace (hex_digit d)"
  by (auto simp: hex_value_def hex_digit_def is_hex_def is_rust_whitespace_def)

lemma format_server_id_digits:
  "c \<in> set (format_server_id u) \<Longrightarrow> \<exists>d < 16. c = hex_digit d"
  by (auto simp: format_server_id_def intro: exI [of _ "_ mod 16"])

lemma dropWhile_none: "(\<forall>c \<in> set s. \<not> P c) \<Longrightarrow> dropWhile P s = s"
  by (cases s) auto

lemma trim_id: "(\<forall>c \<in> set s. \<not> is_rust_whitespace c) \<Longrightarrow> trim s = s"
  by (simp add: trim_def dropWhile_none)

lemma foldl_hex:
  "foldl (\<lambda>acc c. acc * 16 + hex_value c) 0 (map (\<lambda>k. hex_digit (n div 16 ^ (m - Suc k) mod 16)) [0..<j])
     = n div 16 ^ (m - j) mod 16 ^ j" if "j \<le> m"
  using that
proof (induction j)
  case (Suc j)
  define q where "q = n div 16 ^ (m - Suc j)"
  from Suc.prems have m: "m - j = Suc (m - Suc j)" by simp
  then have split: "n div 16 ^ (m - j) = q div 16"
    by (simp add: q_def div_mult2_eq power_Suc2 del: power_Suc)
  have "q div 16 mod 16 ^ j * 16 + q mod 16 = q mod 16 ^ Suc j"
    using mod_mult2_eq [of q 16 "16 ^ j"] by simp
  with Suc show ?case
    by (simp add: split hex_digit_value flip: q_def)
qed simp

lemma server_id_roundtrip: "parse_server_id (format_server_id u) = Some u"
proof -
  let ?s = "format_server_id u"
  have len: "length ?s = 16" by (simp add: format_server_id_def)
  have digits: "\<forall>c \<in> set ?s. is_hex c \<and> c < 128 \<and> \<not> is_rust_whitespace c"
    using format_server_id_digits hex_digit_value by metis
  then have bytes: "length (as_bytes ?s) = length ?s"
    by (induction ?s arbitrary: u) (auto simp: as_bytes_def utf8_char_def list_all_iff length_concat
        comp_def cong: map_cong intro!: sum_list_triv)
  have "foldl (\<lambda>acc c. acc * 16 + hex_value c) 0 ?s = unat u"
    using foldl_hex [of 16 16 "unat u"] unsigned_less [of u, where ?'a = nat] by (simp add: format_server_id_def)
  with digits bytes len show ?thesis
    by (simp add: parse_server_id_def trim_id Let_def list_all_iff)
qed

end
