(* ===== verification/Fed_Route.thy ===== *)
theory Fed_Route
  imports Fed_Codec
begin

text \<open>
  The federation routing table (\<open>src/src/fedroute.rs\<close>): the choice between a local
  registration and the neighbours' offers, the effective table with the group membership derived
  from it, what each peer link is told, and the de-duplication of calls.
\<close>

section \<open>Route selection\<close>

datatype choice = Local | Remote client_id | Unreachable

definition max_of :: "'a::linorder list \<Rightarrow> 'a option" where
  "max_of xs = (if xs = [] then None else Some (Max (set xs)))"

definition min_by_key :: "('a \<Rightarrow> 'b::linorder) \<Rightarrow> 'a list \<Rightarrow> 'a option" where
  "min_by_key key xs = (if xs = [] then None else Some (arg_min_list key xs))"

text \<open>\<open>path.last()\<close>: the server a route originates at.\<close>

definition origin_of :: "advert \<Rightarrow> u64 option" where
  "origin_of a = (if ad_path a = [] then None else Some (last (ad_path a)))"

definition offers_of :: "(client_id, advert) fmap option \<Rightarrow> (client_id \<times> advert) list" where
  "offers_of cands = (case cands of None \<Rightarrow> [] | Some c \<Rightarrow> fm_items c)"

definition stamps :: "(client_id \<times> advert) list \<Rightarrow> (u64 \<times> u64) list" where
  "stamps offers = List.map_filter (\<lambda>(_, a). map_option (Pair (ad_reg a)) (origin_of a)) offers"

definition offer_key :: "(client_id, u64) fmap \<Rightarrow> client_id \<times> advert \<Rightarrow> nat \<times> u64 \<times> client_id" where
  "offer_key links o' =
     (length (ad_path (snd o')),
      (case fmlookup links (fst o') of Some n \<Rightarrow> n | None \<Rightarrow> - 1), fst o')"

definition select ::
  "u64 \<Rightarrow> u64 option \<Rightarrow> (client_id, u64) fmap \<Rightarrow> (client_id, advert) fmap option \<Rightarrow> choice" where
  "select self_id local links cands =
     (case max_of (stamps (offers_of cands)) of
        Some (reg, origin) \<Rightarrow>
          if (case local of None \<Rightarrow> True | Some own \<Rightarrow> (own, self_id) < (reg, origin))
          then (case min_by_key (offer_key links)
                       (filter (\<lambda>(_, a). origin_of a = Some origin) (offers_of cands)) of
                  None \<Rightarrow> Unreachable | Some (link, _) \<Rightarrow> Remote link)
          else Local
      | None \<Rightarrow> if local \<noteq> None then Local else Unreachable)"

section \<open>The effective table\<close>

definition same :: "subscriber option \<Rightarrow> subscriber option \<Rightarrow> bool" where
  "same a b =
     (case (a, b) of
        (None, None) \<Rightarrow> True
      | (Some a, Some b) \<Rightarrow> sb_client_id a = sb_client_id b \<and> sb_groups a = sb_groups b
          \<and> sb_route a = sb_route b
      | _ \<Rightarrow> False)"

definition sorted :: "u32 fset \<Rightarrow> u32 list" where
  "sorted groups = sorted_list_of_fset groups"

definition leave_group :: "client_id \<Rightarrow> u32 \<Rightarrow> inner \<Rightarrow> inner" where
  "leave_group c g i =
     (if fm_any (\<lambda>_ s. sb_client_id s = c \<and> g |\<in>| sb_groups s) (subscribers i) then i
      else (case fmlookup (group_clients i) g of
              None \<Rightarrow> i
            | Some members \<Rightarrow>
                let members = members |-| {|c|} in
                i\<lparr>group_clients := (if members = {||} then fmdrop g (group_clients i)
                                     else fmupd g members (group_clients i))\<rparr>))"

definition join_group :: "client_id \<Rightarrow> u32 \<Rightarrow> inner \<Rightarrow> inner" where
  "join_group c g i =
     i\<lparr>group_clients := fmupd g
        (finsert c (case fmlookup (group_clients i) g of Some m \<Rightarrow> m | None \<Rightarrow> {||})) (group_clients i)\<rparr>"

definition set_effective :: "u32 \<Rightarrow> subscriber option \<Rightarrow> inner \<Rightarrow> inner" where
  "set_effective issi new i =
     (let old = fmlookup (subscribers i) issi;
          i1 = i\<lparr>subscribers := (case new of Some n \<Rightarrow> fmupd issi n (subscribers i)
                                 | None \<Rightarrow> fmdrop issi (subscribers i))\<rparr>;
          i2 = (case old of None \<Rightarrow> i1
                | Some o' \<Rightarrow> fold (leave_group (sb_client_id o')) (sorted (sb_groups o')) i1)
      in (case new of None \<Rightarrow> i2
          | Some n \<Rightarrow> fold (join_group (sb_client_id n)) (sorted (sb_groups n)) i2))"

definition reroute :: "u32 \<Rightarrow> inner \<Rightarrow> bool \<times> inner" where
  "reroute issi i =
     (let current = fmlookup (subscribers i) issi;
          local = (case current of
                     Some s \<Rightarrow> if fmlookup (fs_links (fed i)) (sb_client_id s) = None then Some s else None
                   | None \<Rightarrow> None);
          cands = fmlookup (fs_rib_in (fed i)) issi;
          new = (case select (fs_self_id (fed i)) (map_option (\<lambda>s. rt_reg (sb_route s)) local)
                        (fs_links (fed i)) cands of
                   Local \<Rightarrow> local
                 | Remote link \<Rightarrow>
                     map_option (\<lambda>a. \<lparr>sb_client_id = link, sb_groups = fset_of_list (ad_groups a),
                       sb_mode = Peer, sb_route = \<lparr>rt_reg = ad_reg a, rt_path = ad_path a\<rparr>\<rparr>)
                       (case cands of None \<Rightarrow> None | Some c \<Rightarrow> fmlookup c link)
                 | Unreachable \<Rightarrow> None)
      in if same current new then (False, i) else (True, set_effective issi new i))"

section \<open>What a peer link is told\<close>

definition fed_route_update :: "u64 \<Rightarrow> client_id \<Rightarrow> u64 \<Rightarrow> u32 \<Rightarrow> subscriber option \<Rightarrow> bytes" where
  "fed_route_update self_id nbr_link nbr_id issi eff =
     (case eff of
        Some e \<Rightarrow>
          if sb_client_id e \<noteq> nbr_link \<and> nbr_id \<notin> set (rt_path (sb_route e))
             \<and> length (rt_path (sb_route e)) < MAX_PATH
          then build_route issi (rt_reg (sb_route e)) (self_id # rt_path (sb_route e)) (sorted (sb_groups e))
          else build_withdraw issi
      | None \<Rightarrow> build_withdraw issi)"

text \<open>\<open>old.filter(|o| o.client_id != peer)\<close>: the entry as a peer link may see it.\<close>

definition visible_to :: "client_id \<Rightarrow> subscriber option \<Rightarrow> subscriber option" where
  "visible_to peer s =
     (case s of Some e \<Rightarrow> if sb_client_id e \<noteq> peer then Some e else None | None \<Rightarrow> None)"

definition affiliate_all :: "u32 \<Rightarrow> subscriber \<Rightarrow> bytes list" where
  "affiliate_all issi n =
     build_subscriber_message SUB_REGISTER issi []
       # (if sb_groups n = {||} then []
          else [build_subscriber_message SUB_AFFILIATE issi (sorted (sb_groups n))])"

definition legacy_updates ::
  "u32 \<Rightarrow> subscriber option \<Rightarrow> subscriber option \<Rightarrow> client_id \<Rightarrow> bytes list" where
  "legacy_updates issi old new peer =
     (case (visible_to peer old, visible_to peer new) of
        (None, None) \<Rightarrow> []
      | (Some _, None) \<Rightarrow> if new = None then [build_subscriber_message SUB_DEREGISTER issi []] else []
      | (None, Some n) \<Rightarrow> affiliate_all issi n
      | (Some o', Some n) \<Rightarrow>
          let added = sorted (sb_groups n |-| sb_groups o');
              removed = sorted (sb_groups o' |-| sb_groups n)
          in (if rt_reg (sb_route o') \<noteq> rt_reg (sb_route n) then affiliate_all issi n
              else if added \<noteq> [] then [build_subscriber_message SUB_AFFILIATE issi added] else [])
             @ (if removed \<noteq> [] then [build_subscriber_message SUB_DEAFFILIATE issi removed] else []))"

definition publish :: "u32 \<Rightarrow> subscriber option \<Rightarrow> inner \<Rightarrow> bool \<times> inner" where
  "publish issi old i =
     (let new = fmlookup (subscribers i) issi in
      if same old new then (False, i)
      else
        (case new of None \<Rightarrow> False
         | Some n \<Rightarrow> (case old of None \<Rightarrow> True
                     | Some o' \<Rightarrow> rt_reg (sb_route o') \<noteq> rt_reg (sb_route n)),
         push_each (\<lambda>link cl.
           if cl_mode cl \<noteq> Peer then []
           else (case fmlookup (fs_links (fed i)) link of
                   Some nbr_id \<Rightarrow> [fed_route_update (fs_self_id (fed i)) link nbr_id issi new]
                 | None \<Rightarrow> legacy_updates issi old new link)) i))"

definition sync_messages :: "client_id \<Rightarrow> inner \<Rightarrow> bytes list" where
  "sync_messages link i =
     (let issis = sorted (fmdom (subscribers i)) in
      (case fmlookup (fs_links (fed i)) link of
         Some nbr_id \<Rightarrow>
           filter (\<lambda>msg. msg ! 1 = FED_ROUTE)
             (map (\<lambda>issi. fed_route_update (fs_self_id (fed i)) link nbr_id issi
                     (fmlookup (subscribers i) issi)) issis)
       | None \<Rightarrow>
           concat (map (\<lambda>issi. legacy_updates issi None (fmlookup (subscribers i) issi) link) issis)))"

definition withdraw_offer :: "u32 \<Rightarrow> client_id \<Rightarrow> inner \<Rightarrow> bool \<times> inner" where
  "withdraw_offer issi link i =
     (case fmlookup (fs_rib_in (fed i)) issi of
        None \<Rightarrow> (False, i)
      | Some offers \<Rightarrow>
          let left = fmdrop link offers in
          (fmlookup offers link \<noteq> None,
           i\<lparr>fed := (fed i)\<lparr>fs_rib_in :=
              (if fmdom left = {||} then fmdrop issi (fs_rib_in (fed i))
               else fmupd issi left (fs_rib_in (fed i)))\<rparr>\<rparr>))"

section \<open>De-duplication of calls\<close>

abbreviation (input) CALL_DEDUP_WINDOW :: nat where "CALL_DEDUP_WINDOW \<equiv> 5000"

definition is_duplicate :: "inner \<Rightarrow> uuid \<Rightarrow> u32 \<Rightarrow> client_id \<Rightarrow> instant \<Rightarrow> bool" where
  "is_duplicate i uid src link now =
     (let live = (case fmlookup (calls i) uid of
                    Some c \<Rightarrow> Some (ac_source_issi c, ac_owner c)
                  | None \<Rightarrow> map_option (\<lambda>r. (sr_source_issi r, sr_source_client r)) (fmlookup (sds_routes i) uid))
      in (case live of Some (s, owner) \<Rightarrow> s = src \<and> owner \<noteq> link | None \<Rightarrow> False)
         \<or> (case fmlookup (recent_calls i) (uid, src) of
              Some (first, at) \<Rightarrow> first \<noteq> link \<and> now - at < CALL_DEDUP_WINDOW
            | None \<Rightarrow> False))"

definition note_call :: "uuid \<Rightarrow> u32 \<Rightarrow> client_id \<Rightarrow> instant \<Rightarrow> inner \<Rightarrow> inner" where
  "note_call uid src link now i = i\<lparr>recent_calls := fmupd (uid, src) (link, now) (recent_calls i)\<rparr>"

end
