(* ===== verification/Fed_Table.thy ===== *)
theory Fed_Table
  imports Fed_Route
begin

text \<open>
  What the routing table of \<open>Fed_Route\<close> guarantees: which route is chosen, that choosing is
  stable, that group membership follows the table exactly, that adverts cannot loop, and that a
  legacy peer link's view of an ISSI is the effective entry after every update.
\<close>

section \<open>Route selection\<close>

lemma max_of_None [simp]: "max_of xs = None \<longleftrightarrow> xs = []"
  by (simp add: max_of_def)

lemma max_of_Nil [simp]: "max_of [] = None"
  by simp

lemma max_of_Some: "max_of xs = Some m \<longleftrightarrow> m \<in> set xs \<and> (\<forall>x \<in> set xs. x \<le> m)"
proof (cases "xs = []")
  case False
  then show ?thesis
    by (auto simp: max_of_def intro: Max_eqI)
qed (simp add: max_of_def)

lemma min_by_key_None [simp]: "min_by_key key xs = None \<longleftrightarrow> xs = []"
  by (simp add: min_by_key_def)

lemma min_by_key_Nil [simp]: "min_by_key key [] = None"
  by simp

lemma min_by_key_Some:
  "min_by_key key xs = Some m \<Longrightarrow> m \<in> set xs \<and> (\<forall>x \<in> set xs. key m \<le> key x)"
  by (auto simp: min_by_key_def f_arg_min_list_f arg_min_list_in split: if_splits)

definition offered :: "(client_id, advert) fmap option \<Rightarrow> client_id \<Rightarrow> advert \<Rightarrow> bool" where
  "offered cands link a \<longleftrightarrow> (\<exists>c. cands = Some c \<and> fmlookup c link = Some a)"

lemma offers_of_iff [simp]: "(link, a) \<in> set (offers_of cands) \<longleftrightarrow> offered cands link a"
  by (auto simp: offers_of_def offered_def split: option.split)

lemma stamps_iff:
  "(r, s) \<in> set (stamps (offers_of cands)) \<longleftrightarrow>
     (\<exists>link a. offered cands link a \<and> origin_of a = Some s \<and> ad_reg a = r)"
  by (force simp: stamps_def List.map_filter_def origin_of_def image_iff
      split: if_splits option.splits)

text \<open>C26. The route chosen for an ISSI is the same on every server that knows the same
  registrations: the origin with the newest registration wins (ties to the higher server id),
  the local registration counting as this server's own; among the offers from the winning origin
  the shortest path is used (ties to the lower neighbour id, then link); an ISSI is unreachable
  only when nobody offers it and it is not registered here.\<close>

theorem select_spec:
  "case select self_id local links cands of
     Local \<Rightarrow> \<exists>own. local = Some own \<and>
       (\<forall>l a s. offered cands l a \<and> origin_of a = Some s \<longrightarrow> (ad_reg a, s) \<le> (own, self_id))
   | Remote link \<Rightarrow> \<exists>a s reg. offered cands link a \<and> origin_of a = Some s \<and>
       (\<exists>l' a'. offered cands l' a' \<and> origin_of a' = Some s \<and> ad_reg a' = reg) \<and>
       (\<forall>l' a' s'. offered cands l' a' \<and> origin_of a' = Some s' \<longrightarrow> (ad_reg a', s') \<le> (reg, s)) \<and>
       (\<forall>own. local = Some own \<longrightarrow> (own, self_id) < (reg, s)) \<and>
       (\<forall>l' a'. offered cands l' a' \<and> origin_of a' = Some s \<longrightarrow>
          offer_key links (link, a) \<le> offer_key links (l', a'))
   | Unreachable \<Rightarrow> local = None \<and> (\<forall>l a. offered cands l a \<longrightarrow> origin_of a = None)"
proof (cases "max_of (stamps (offers_of cands))")
  case None
  then have none: "offered cands l a \<Longrightarrow> origin_of a = None" for l a
    using stamps_iff [of "ad_reg a" "the (origin_of a)" cands] by (cases "origin_of a") auto
  then show ?thesis
    using None by (cases local) (auto simp: select_def dest: none)
next
  case (Some m)
  obtain reg s where m: "m = (reg, s)" by (cases m)
  have stamp: "(ad_reg a, s') \<in> set (stamps (offers_of cands))"
    if "offered cands l a" "origin_of a = Some s'" for l a s'
    using that by (auto simp: stamps_iff)
  have top: "(reg, s) \<in> set (stamps (offers_of cands))" "\<forall>x \<in> set (stamps (offers_of cands)). x \<le> (reg, s)"
    using Some by (simp_all add: max_of_Some m)
  then have newest: "(ad_reg a, s') \<le> (reg, s)" if "offered cands l a" "origin_of a = Some s'" for l a s'
    using stamp [OF that] by blast
  obtain l0 a0 where from_s: "offered cands l0 a0" "origin_of a0 = Some s" "ad_reg a0 = reg"
    using top(1) by (auto simp: stamps_iff)
  let ?from = "filter (\<lambda>(_, a). origin_of a = Some s) (offers_of cands)"
  have "?from \<noteq> []"
    using from_s by (auto simp: filter_empty_conv)
  then obtain link a where pick: "min_by_key (offer_key links) ?from = Some (link, a)"
    by (metis min_by_key_None not_None_eq surj_pair)
  note best = min_by_key_Some [OF pick]
  show ?thesis
  proof (cases "case local of None \<Rightarrow> True | Some own \<Rightarrow> (own, self_id) < (reg, s)")
    case True
    have sel: "select self_id local links cands = Remote link"
      using True by (simp add: select_def Some m pick)
    have a: "offered cands link a" "origin_of a = Some s"
      and short: "offered cands l' a' \<Longrightarrow> origin_of a' = Some s \<Longrightarrow>
        offer_key links (link, a) \<le> offer_key links (l', a')" for l' a'
      using best by auto
    have loc: "local = Some own \<Longrightarrow> (own, self_id) < (reg, s)" for own
      using True by simp
    show ?thesis
      unfolding sel choice.case
      by (intro exI [of _ a] exI [of _ s] exI [of _ reg] conjI exI [of _ l0] exI [of _ a0] allI impI a
          from_s newest loc short) auto
  next
    case False
    then obtain own where own: "local = Some own" "(reg, s) \<le> (own, self_id)"
      by (cases local) (auto simp: not_less simp del: less_eq_prod_simp less_prod_simp)
    then have "select self_id local links cands = Local"
      using False by (auto simp: select_def Some m simp del: less_eq_prod_simp less_prod_simp)
    then show ?thesis
      using own newest by (auto simp del: less_eq_prod_simp less_prod_simp intro: order.trans)
  qed
qed

text \<open>Two neighbours offer ISSI 5: the older registration over one hop, the newer one of server 9
  over two; the newer one wins over the local registration of clock 10 as well.\<close>

definition two_offers :: "(client_id, advert) fmap" where
  "two_offers = fmap_of_list [(1, \<lparr>ad_reg = 20, ad_path = [7], ad_groups = []\<rparr>),
     (2, \<lparr>ad_reg = 30, ad_path = [8, 9], ad_groups = [91]\<rparr>)]"

definition two_links :: "(client_id, u64) fmap" where
  "two_links = fmap_of_list [(1, 7), (2, 8)]"

theorem select_spec_witness:
  "select 6 (Some 10) two_links (Some two_offers) = Remote 2 \<and>
   (\<exists>a. offered (Some two_offers) 2 a \<and> origin_of a = Some 9 \<and> (10, 6) < (ad_reg a, 9 :: u64))"
proof -
  have run: "select 6 (Some 10) two_links (Some two_offers) = Remote 2"
    by code_simp
  have look: "fmlookup two_offers 2 = Some \<lparr>ad_reg = 30, ad_path = [8, 9], ad_groups = [91]\<rparr>"
    by code_simp
  show ?thesis
    using select_spec [where self_id = 6 and local = "Some 10" and links = two_links
        and cands = "Some two_offers"] run look
    by (auto simp: offered_def origin_of_def)
qed

lemma select_spec_remote:
  "select self_id local links cands = Remote link \<Longrightarrow> \<exists>a. offered cands link a"
  by (auto simp: select_def dest!: min_by_key_Some split: option.splits if_splits) blast+

lemma select_spec_unreachable:
  assumes "select self_id local links cands = Unreachable" shows "local = None"
proof (cases "max_of (stamps (offers_of cands))")
  case None
  with assms show ?thesis by (auto simp: select_def split: if_splits)
next
  case (Some m)
  obtain r s where m: "m = (r, s)" by (cases m)
  from Some have "(r, s) \<in> set (stamps (offers_of cands))" by (simp add: max_of_Some m)
  then have "filter (\<lambda>(_, a). origin_of a = Some s) (offers_of cands) \<noteq> []"
    by (auto simp: stamps_iff filter_empty_conv)
  with assms Some m show ?thesis
    by (auto simp: select_def split: option.splits if_splits prod.splits)
qed

section \<open>Group membership\<close>

definition member :: "inner \<Rightarrow> u32 \<Rightarrow> client_id \<Rightarrow> bool" where
  "member i g c \<longleftrightarrow> (\<exists>m. fmlookup (group_clients i) g = Some m \<and> c |\<in>| m)"

definition uses_group :: "inner \<Rightarrow> u32 \<Rightarrow> client_id \<Rightarrow> bool" where
  "uses_group i g c \<longleftrightarrow>
     (\<exists>issi s. fmlookup (subscribers i) issi = Some s \<and> sb_client_id s = c \<and> g |\<in>| sb_groups s)"

definition no_empty_group :: "inner \<Rightarrow> bool" where
  "no_empty_group i \<longleftrightarrow> (\<forall>g m. fmlookup (group_clients i) g = Some m \<longrightarrow> m \<noteq> {||})"

text \<open>A connection is in a group's set exactly while an ISSI routed over it is in the group.\<close>

definition groups_ok :: "inner \<Rightarrow> bool" where
  "groups_ok i \<longleftrightarrow> (\<forall>g c. member i g c \<longleftrightarrow> uses_group i g c) \<and> no_empty_group i"

lemma member_leave_group:
  "member (leave_group c g i) g' c' \<longleftrightarrow>
     member i g' c' \<and> (g' = g \<and> c' = c \<longrightarrow> uses_group i g c)"
  by (auto simp: leave_group_def member_def fm_any_iff uses_group_def Let_def split: option.splits)

lemma leave_group_subscribers [simp]:
  "subscribers (leave_group c g i) = subscribers i" "uses_group (leave_group c g i) = uses_group i"
  by (auto simp: leave_group_def uses_group_def Let_def fun_eq_iff split: option.splits)

lemma no_empty_leave_group: "no_empty_group i \<Longrightarrow> no_empty_group (leave_group c g i)"
  by (auto simp: leave_group_def no_empty_group_def Let_def split: option.splits)

lemma member_join_group:
  "member (join_group c g i) g' c' \<longleftrightarrow> member i g' c' \<or> g' = g \<and> c' = c"
  by (auto simp: join_group_def member_def split: option.splits)

lemma join_group_subscribers [simp]:
  "subscribers (join_group c g i) = subscribers i" "uses_group (join_group c g i) = uses_group i"
  by (auto simp: join_group_def uses_group_def fun_eq_iff)

lemma no_empty_join_group: "no_empty_group i \<Longrightarrow> no_empty_group (join_group c g i)"
  by (auto simp: join_group_def no_empty_group_def)

lemma fold_leave_group:
  "member (fold (leave_group c) gs i) g' c' \<longleftrightarrow>
     member i g' c' \<and> (g' \<in> set gs \<and> c' = c \<longrightarrow> uses_group i g' c)"
  "subscribers (fold (leave_group c) gs i) = subscribers i"
  "no_empty_group i \<Longrightarrow> no_empty_group (fold (leave_group c) gs i)"
  by (induction gs arbitrary: i) (auto simp: member_leave_group no_empty_leave_group)

lemma fold_join_group:
  "member (fold (join_group c) gs i) g' c' \<longleftrightarrow> member i g' c' \<or> (g' \<in> set gs \<and> c' = c)"
  "subscribers (fold (join_group c) gs i) = subscribers i"
  "no_empty_group i \<Longrightarrow> no_empty_group (fold (join_group c) gs i)"
  by (induction gs arbitrary: i) (auto simp: member_join_group no_empty_join_group)

lemma set_sorted [simp]: "set (sorted gs) = fset gs"
  by (simp add: sorted_def)

lemma subscribers_set_effective:
  "fmlookup (subscribers (set_effective issi new i)) k =
     (if k = issi then new else fmlookup (subscribers i) k)"
  by (auto simp: set_effective_def Let_def fold_leave_group fold_join_group split: option.splits)

lemma member_subscribers_update [simp]:
  "member (i\<lparr>subscribers := m\<rparr>) = member i" "no_empty_group (i\<lparr>subscribers := m\<rparr>) = no_empty_group i"
  by (simp_all add: member_def no_empty_group_def fun_eq_iff)

definition others_use :: "inner \<Rightarrow> u32 \<Rightarrow> u32 \<Rightarrow> client_id \<Rightarrow> bool" where
  "others_use i issi g c \<longleftrightarrow>
     (\<exists>k s. k \<noteq> issi \<and> fmlookup (subscribers i) k = Some s \<and> sb_client_id s = c \<and> g |\<in>| sb_groups s)"

definition entry_uses :: "subscriber option \<Rightarrow> u32 \<Rightarrow> client_id \<Rightarrow> bool" where
  "entry_uses e g c \<longleftrightarrow> (\<exists>s. e = Some s \<and> sb_client_id s = c \<and> g |\<in>| sb_groups s)"

lemma uses_group_split:
  "uses_group i g c \<longleftrightarrow> entry_uses (fmlookup (subscribers i) issi) g c \<or> others_use i issi g c"
  by (auto simp: uses_group_def entry_uses_def others_use_def)

lemma others_use_set_effective [simp]:
  "others_use (set_effective issi new i) issi g c = others_use i issi g c"
  by (auto simp: others_use_def subscribers_set_effective)

lemma member_set_effective:
  "member (set_effective issi new i) g c \<longleftrightarrow>
     member i g c \<and> (entry_uses (fmlookup (subscribers i) issi) g c \<longrightarrow>
                      entry_uses new g c \<or> others_use i issi g c)
     \<or> entry_uses new g c"
proof -
  let ?i1 = "i\<lparr>subscribers := (case new of Some n \<Rightarrow> fmupd issi n (subscribers i)
                                 | None \<Rightarrow> fmdrop issi (subscribers i))\<rparr>"
  let ?i2 = "case fmlookup (subscribers i) issi of None \<Rightarrow> ?i1
               | Some o' \<Rightarrow> fold (leave_group (sb_client_id o')) (sorted (sb_groups o')) ?i1"
  have "uses_group ?i1 g c \<longleftrightarrow> entry_uses new g c \<or> others_use i issi g c"
    unfolding uses_group_split [of ?i1 g c issi]
    by (auto simp: others_use_def split: option.splits)
  then have "member ?i2 g c \<longleftrightarrow> member i g c \<and>
      (entry_uses (fmlookup (subscribers i) issi) g c \<longrightarrow> entry_uses new g c \<or> others_use i issi g c)"
    by (auto simp: fold_leave_group entry_uses_def [of "Some _"] entry_uses_def [of None] split: option.split)
  moreover have "member (set_effective issi new i) g c \<longleftrightarrow> member ?i2 g c \<or> entry_uses new g c"
    by (simp add: set_effective_def Let_def fold_join_group entry_uses_def split: option.split) blast
  ultimately show ?thesis by blast
qed

lemma no_empty_set_effective:
  assumes "no_empty_group i" shows "no_empty_group (set_effective issi new i)"
  using assms
  by (auto simp: set_effective_def Let_def intro!: fold_join_group(3) fold_leave_group(3)
      split: option.split)

lemma set_effective_groups_ok:
  assumes "groups_ok i"
  shows "groups_ok (set_effective issi new i)"
proof -
  have "member i g c \<longleftrightarrow> entry_uses (fmlookup (subscribers i) issi) g c \<or> others_use i issi g c" for g c
    using assms by (simp add: groups_ok_def uses_group_split [of i g c issi])
  then have "member (set_effective issi new i) g c \<longleftrightarrow> uses_group (set_effective issi new i) g c" for g c
    by (auto simp: member_set_effective uses_group_split [of _ g c issi] subscribers_set_effective)
  then show ?thesis
    using assms no_empty_set_effective by (simp add: groups_ok_def)
qed

text \<open>C27. However routes change hands, a connection stays in a group's forwarding set exactly as
  long as some ISSI routed over it is in that group, and no empty set is left behind.\<close>

theorem set_effective_groups:
  assumes "groups_ok i"
  shows "groups_ok (set_effective issi new i)"
  using assms by (rule set_effective_groups_ok)

theorem set_effective_groups_witness:
  "groups_ok (set_effective 5 (Some \<lparr>sb_client_id = 1, sb_groups = {|91|}, sb_mode = Terminal,
     sb_route = \<lparr>rt_reg = 1, rt_path = []\<rparr>\<rparr>) (empty_inner 7))"
  by (rule set_effective_groups)
    (simp add: groups_ok_def member_def uses_group_def no_empty_group_def empty_inner_def)

text \<open>Only the two tables change.\<close>

lemma fold_leave_group_shape: "\<exists>m. fold (leave_group c) gs i = i\<lparr>group_clients := m\<rparr>"
proof (induction gs arbitrary: i)
  case Nil
  show ?case by (auto intro: exI [of _ "group_clients i"])
next
  case (Cons g gs)
  have "\<exists>m. leave_group c g i = i\<lparr>group_clients := m\<rparr>"
    by (auto simp: leave_group_def Let_def split: option.split intro: exI [of _ "group_clients i"])
  then obtain m where m: "leave_group c g i = i\<lparr>group_clients := m\<rparr>" ..
  show ?case
    using Cons.IH [of "i\<lparr>group_clients := m\<rparr>"] by (simp add: m)
qed

lemma fold_join_group_shape: "\<exists>m. fold (join_group c) gs i = i\<lparr>group_clients := m\<rparr>"
proof (induction gs arbitrary: i)
  case Nil
  show ?case by (auto intro: exI [of _ "group_clients i"])
next
  case (Cons g gs)
  show ?case
    using Cons.IH [of "join_group c g i"] by (simp add: join_group_def)
qed

lemma set_effective_shape: "\<exists>s m. set_effective issi new i = i\<lparr>subscribers := s, group_clients := m\<rparr>"
proof -
  define i1 where "i1 = i\<lparr>subscribers := (case new of Some n \<Rightarrow> fmupd issi n (subscribers i)
                                        | None \<Rightarrow> fmdrop issi (subscribers i))\<rparr>"
  define i2 where "i2 = (case fmlookup (subscribers i) issi of None \<Rightarrow> i1
      | Some o' \<Rightarrow> fold (leave_group (sb_client_id o')) (sorted (sb_groups o')) i1)"
  have "\<exists>m. i2 = i1\<lparr>group_clients := m\<rparr>"
    using fold_leave_group_shape
    by (auto simp: i2_def split: option.split intro: exI [of _ "group_clients i1"])
  then obtain m where i2: "i2 = i1\<lparr>group_clients := m\<rparr>" ..
  have "\<exists>m. set_effective issi new i = i2\<lparr>group_clients := m\<rparr>"
    using fold_join_group_shape
    by (auto simp: set_effective_def Let_def i1_def [symmetric] i2_def [symmetric]
        split: option.split intro: exI [of _ "group_clients i2"])
  then show ?thesis
    by (auto simp: i2 i1_def)
qed

lemma set_effective_fields [simp]:
  "fed (set_effective issi new i) = fed i" "clients (set_effective issi new i) = clients i"
  "calls (set_effective issi new i) = calls i" "group_floor (set_effective issi new i) = group_floor i"
  "group_tx_raw (set_effective issi new i) = group_tx_raw i" "sds_routes (set_effective issi new i) = sds_routes i"
  "recent_calls (set_effective issi new i) = recent_calls i" "consoles (set_effective issi new i) = consoles i"
  using set_effective_shape [of issi new i] by auto

section \<open>Rerouting\<close>

lemma same_refl [simp]: "same e e"
  by (simp add: same_def split: option.split)

text \<open>What \<open>reroute\<close> decides on.\<close>

definition local_part :: "u32 \<Rightarrow> inner \<Rightarrow> subscriber option" where
  "local_part issi i =
     (case fmlookup (subscribers i) issi of
        Some s \<Rightarrow> if fmlookup (fs_links (fed i)) (sb_client_id s) = None then Some s else None
      | None \<Rightarrow> None)"

definition remote_entry :: "client_id \<Rightarrow> advert \<Rightarrow> subscriber" where
  "remote_entry link a = \<lparr>sb_client_id = link, sb_groups = fset_of_list (ad_groups a),
     sb_mode = Peer, sb_route = \<lparr>rt_reg = ad_reg a, rt_path = ad_path a\<rparr>\<rparr>"

definition best_entry :: "u32 \<Rightarrow> inner \<Rightarrow> subscriber option" where
  "best_entry issi i =
     (case select (fs_self_id (fed i)) (map_option (\<lambda>s. rt_reg (sb_route s)) (local_part issi i))
             (fs_links (fed i)) (fmlookup (fs_rib_in (fed i)) issi) of
        Local \<Rightarrow> local_part issi i
      | Remote link \<Rightarrow> map_option (remote_entry link)
          (case fmlookup (fs_rib_in (fed i)) issi of None \<Rightarrow> None | Some c \<Rightarrow> fmlookup c link)
      | Unreachable \<Rightarrow> None)"

lemma reroute_eq:
  "reroute issi i =
     (if same (fmlookup (subscribers i) issi) (best_entry issi i) then (False, i)
      else (True, set_effective issi (best_entry issi i) i))"
  by (simp only: reroute_def best_entry_def local_part_def remote_entry_def [abs_def] Let_def)

lemma reroute_groups: "groups_ok i \<Longrightarrow> groups_ok (snd (reroute issi i))"
  by (simp add: reroute_eq set_effective_groups_ok)

lemma reroute_fields [simp]:
  "fed (snd (reroute issi i)) = fed i" "clients (snd (reroute issi i)) = clients i"
  "calls (snd (reroute issi i)) = calls i"
  by (simp_all add: reroute_eq)

text \<open>The offers of the routing information base come over negotiated links, start at the
  neighbour behind the link, and do not pass through this server; the effective entry of an ISSI is
  a registration of this server or such an offer.\<close>

definition offer_ok :: "fed_state \<Rightarrow> client_id \<Rightarrow> advert \<Rightarrow> bool" where
  "offer_ok f link a \<longleftrightarrow> (\<exists>nbr. fmlookup (fs_links f) link = Some nbr \<and> good_path nbr (ad_path a))
     \<and> fs_self_id f \<notin> set (ad_path a)"

definition rib_ok :: "fed_state \<Rightarrow> bool" where
  "rib_ok f \<longleftrightarrow> (\<forall>issi link a. offered (fmlookup (fs_rib_in f) issi) link a \<longrightarrow> offer_ok f link a)"

definition entry_ok :: "fed_state \<Rightarrow> subscriber \<Rightarrow> bool" where
  "entry_ok f s \<longleftrightarrow>
     (case fmlookup (fs_links f) (sb_client_id s) of
        None \<Rightarrow> rt_path (sb_route s) = []
      | Some nbr \<Rightarrow> good_path nbr (rt_path (sb_route s)) \<and> fs_self_id f \<notin> set (rt_path (sb_route s)))"

definition table_ok :: "inner \<Rightarrow> bool" where
  "table_ok i \<longleftrightarrow> rib_ok (fed i) \<and>
     (\<forall>issi s. fmlookup (subscribers i) issi = Some s \<longrightarrow> entry_ok (fed i) s)"

lemma entry_ok_remote: "offer_ok f link a \<Longrightarrow> entry_ok f (remote_entry link a)"
  by (auto simp: offer_ok_def entry_ok_def remote_entry_def)

lemma best_entry_cases:
  "best_entry issi i = None \<and> local_part issi i = None \<or> best_entry issi i = local_part issi i \<or>
   (\<exists>link a. offered (fmlookup (fs_rib_in (fed i)) issi) link a \<and>
      best_entry issi i = Some (remote_entry link a) \<and>
      select (fs_self_id (fed i)) (map_option (\<lambda>s. rt_reg (sb_route s)) (local_part issi i))
        (fs_links (fed i)) (fmlookup (fs_rib_in (fed i)) issi) = Remote link)"
  using select_spec_remote [of "fs_self_id (fed i)" "map_option (\<lambda>s. rt_reg (sb_route s)) (local_part issi i)"
      "fs_links (fed i)" "fmlookup (fs_rib_in (fed i)) issi"]
    select_spec_unreachable [of "fs_self_id (fed i)" "map_option (\<lambda>s. rt_reg (sb_route s)) (local_part issi i)"
      "fs_links (fed i)" "fmlookup (fs_rib_in (fed i)) issi"]
  by (auto simp: best_entry_def offered_def split: choice.split)

lemma reroute_table_ok:
  assumes "table_ok i" shows "table_ok (snd (reroute issi i))"
proof -
  have "entry_ok (fed i) s" if "best_entry issi i = Some s" for s
    using best_entry_cases [of issi i] assms that
    by (auto simp: table_ok_def rib_ok_def local_part_def entry_ok_remote split: option.splits if_splits)
  then show ?thesis
    using assms by (auto simp: reroute_eq table_ok_def subscribers_set_effective)
qed

text \<open>Without the local registration the same offer wins.\<close>

lemma select_drop_local:
  "select self_id local links cands = Remote link \<Longrightarrow> select self_id None links cands = Remote link"
  by (auto simp: select_def split: option.splits if_splits)

text \<open>C28. Rerouting settles at once: run again on its own result, with no new offer, it changes
  nothing.\<close>

theorem reroute_stable:
  assumes "table_ok i"
  shows "reroute issi (snd (reroute issi i)) = (False, snd (reroute issi i))"
proof (cases "same (fmlookup (subscribers i) issi) (best_entry issi i)")
  case True
  then show ?thesis by (simp add: reroute_eq)
next
  case False
  define e where "e = best_entry issi i"
  define j where "j = set_effective issi e i"
  note j = j_def subscribers_set_effective
  have "best_entry issi j = e"
  proof (cases "local_part issi i = e")
    case True
    with False have "local_part issi i = None" "e = None"
      by (auto simp: local_part_def e_def split: option.splits if_splits)
    then have "local_part issi j = None"
      by (simp add: local_part_def j)
    moreover have "fed j = fed i" by (simp add: j_def)
    ultimately have "best_entry issi j = best_entry issi i"
      using \<open>local_part issi i = None\<close> by (simp add: best_entry_def split: choice.split)
    then show ?thesis by (simp add: e_def)
  next
    case False
    then obtain link a where a: "offered (fmlookup (fs_rib_in (fed i)) issi) link a"
      "e = Some (remote_entry link a)"
      "select (fs_self_id (fed i)) (map_option (\<lambda>s. rt_reg (sb_route s)) (local_part issi i))
        (fs_links (fed i)) (fmlookup (fs_rib_in (fed i)) issi) = Remote link"
      using best_entry_cases [of issi i] by (auto simp: e_def)
    have "offer_ok (fed i) link a"
      using assms a(1) unfolding table_ok_def rib_ok_def by blast
    then have "local_part issi j = None" "fed j = fed i"
      by (auto simp: offer_ok_def local_part_def j a(2) remote_entry_def)
    then show ?thesis
      using a(1,2) select_drop_local [OF a(3)]
      by (auto simp: best_entry_def offered_def)
  qed
  with False show ?thesis
    by (simp add: reroute_eq e_def [symmetric] j_def [symmetric]) (simp add: j)
qed

theorem reroute_stable_witness:
  "reroute 5 (snd (reroute 5 ((empty_inner 6)\<lparr>fed := (empty_fed 6)\<lparr>fs_links := two_links,
       fs_rib_in := fmupd 5 two_offers fmempty\<rparr>\<rparr>))) =
     (False, snd (reroute 5 ((empty_inner 6)\<lparr>fed := (empty_fed 6)\<lparr>fs_links := two_links,
       fs_rib_in := fmupd 5 two_offers fmempty\<rparr>\<rparr>)))"
  by (rule reroute_stable)
    (auto simp: table_ok_def rib_ok_def offered_def offer_ok_def good_path_def empty_inner_def
      empty_fed_def two_offers_def two_links_def fmlookup_of_list split: if_splits)

section \<open>Loop-free announcements\<close>

text \<open>C29. What a server with a consistent table tells a neighbour about an ISSI, the neighbour
  reads as a withdrawal or as a route that starts at the teller, crosses no server twice, does
  not contain the neighbour itself and carries the groups of the entry; in particular the neighbour
  never gets a route that runs through itself.\<close>

theorem fed_route_update_loop_free:
  assumes "entry_ok f e" "fs_self_id f \<noteq> nbr"
  shows "fed_parse (fed_route_update (fs_self_id f) link nbr issi (Some e)) (fs_self_id f) =
      Some (Inr (FedWithdraw issi)) \<or>
    (\<exists>path. fed_parse (fed_route_update (fs_self_id f) link nbr issi (Some e)) (fs_self_id f) =
        Some (Inr (FedRoute issi \<lparr>ad_reg = rt_reg (sb_route e), ad_path = path,
          ad_groups = sorted (sb_groups e)\<rparr>)) \<and>
      good_path (fs_self_id f) path \<and> nbr \<notin> set path \<and> sb_client_id e \<noteq> link)"
proof (cases "sb_client_id e \<noteq> link \<and> nbr \<notin> set (rt_path (sb_route e)) \<and> length (rt_path (sb_route e)) < MAX_PATH")
  case True
  define path where "path = fs_self_id f # rt_path (sb_route e)"
  have path: "good_path (fs_self_id f) path"
    using assms(1) True by (auto simp: path_def good_path_def entry_ok_def split: option.splits)
  have "fed_route_update (fs_self_id f) link nbr issi (Some e) =
      build_route issi (rt_reg (sb_route e)) path (sorted (sb_groups e))"
    using True by (simp add: fed_route_update_def path_def)
  moreover have "nbr \<notin> set path"
    using True assms(2) by (auto simp: path_def)
  ultimately show ?thesis
    using True path parse_built_route [OF path] by auto
next
  case False
  then have "fed_route_update (fs_self_id f) link nbr issi (Some e) = build_withdraw issi"
    by (auto simp: fed_route_update_def)
  then show ?thesis
    by (simp add: parse_built_withdraw)
qed

theorem fed_route_update_loop_free_witness:
  "\<exists>path. fed_parse (fed_route_update 6 1 7 5 (Some \<lparr>sb_client_id = 2, sb_groups = {|91|}, sb_mode = Peer,
       sb_route = \<lparr>rt_reg = 30, rt_path = [8, 9]\<rparr>\<rparr>)) 6 =
     Some (Inr (FedRoute 5 \<lparr>ad_reg = 30, ad_path = path, ad_groups = [91]\<rparr>)) \<and> 7 \<notin> set path"
proof -
  let ?e = "\<lparr>sb_client_id = 2, sb_groups = {|91|}, sb_mode = Peer, sb_route = \<lparr>rt_reg = 30, rt_path = [8, 9]\<rparr>\<rparr> :: subscriber"
  let ?f = "(empty_fed 6)\<lparr>fs_links := two_links\<rparr>"
  have "entry_ok ?f ?e" "fs_self_id ?f \<noteq> 7" "fs_self_id ?f = 6"
    by (simp_all add: entry_ok_def good_path_def two_links_def fmlookup_of_list empty_fed_def)
  moreover have "fed_parse (fed_route_update 6 1 7 5 (Some ?e)) 6 \<noteq> Some (Inr (FedWithdraw 5))" "sorted {|91|} = [91]"
    by code_simp+
  ultimately show ?thesis
    using fed_route_update_loop_free [of ?f ?e 7 1 5] by auto
qed

section \<open>Legacy peer links\<close>

text \<open>A legacy peer's view of one ISSI: its groups, \<open>None\<close> when unknown there.  It applies the
  subscriber messages it gets as older servers do: REGISTER keeps the groups it had.\<close>

definition legacy_apply :: "u32 \<Rightarrow> bytes \<Rightarrow> u32 set option \<Rightarrow> u32 set option" where
  "legacy_apply issi msg view =
     (case parse_brew msg of
        Some (Inr (SubscriberMsg m)) \<Rightarrow>
          if sm_issi m \<noteq> issi then view
          else if sm_msg_type m = SUB_REGISTER then Some (case view of Some g \<Rightarrow> g | None \<Rightarrow> {})
          else if sm_msg_type m = SUB_AFFILIATE then map_option (\<lambda>g. g \<union> set (sm_groups m)) view
          else if sm_msg_type m = SUB_DEAFFILIATE then map_option (\<lambda>g. g - set (sm_groups m)) view
          else if sm_msg_type m = SUB_DEREGISTER then None
          else view
      | _ \<Rightarrow> view)"

definition seen_by :: "client_id \<Rightarrow> subscriber option \<Rightarrow> u32 set option" where
  "seen_by peer s = map_option (\<lambda>e. fset (sb_groups e)) (visible_to peer s)"

lemma parse_built_subscriber:
  "parse_brew (build_subscriber_message t issi gs) =
    Some (Inr (SubscriberMsg \<lparr>sm_msg_type = t, sm_issi = issi, sm_timestamp = 0, sm_fraction = 0, sm_groups = gs\<rparr>))"
  by (simp add: parse_brew_def build_subscriber_message_def parse_with_version_def parse_subscriber_def
      with_version_def no_panic_simps group_list_concat)

lemma legacy_apply_built:
  "legacy_apply issi (build_subscriber_message SUB_REGISTER issi gs) view = Some (case view of Some g \<Rightarrow> g | None \<Rightarrow> {})"
  "legacy_apply issi (build_subscriber_message SUB_AFFILIATE issi gs) view = map_option (\<lambda>g. g \<union> set gs) view"
  "legacy_apply issi (build_subscriber_message SUB_DEAFFILIATE issi gs) view = map_option (\<lambda>g. g - set gs) view"
  "legacy_apply issi (build_subscriber_message SUB_DEREGISTER issi gs) view = None"
  by (simp_all add: legacy_apply_def parse_built_subscriber)

lemma sorted_eq_Nil [simp]: "sorted gs = [] \<longleftrightarrow> gs = {||}"
  using set_sorted [of gs] by (metis bot_fset.rep_eq fset_inverse set_empty)

lemma fold_affiliate_all:
  "fold (legacy_apply issi) (affiliate_all issi n) view =
     Some ((case view of Some g \<Rightarrow> g | None \<Rightarrow> {}) \<union> fset (sb_groups n))"
  by (simp add: affiliate_all_def legacy_apply_built)

text \<open>C30. A peer link that only speaks the older protocol follows the effective table exactly: when
  it has seen the old entry, the subscriber messages it is sent -- parsed and applied by it -- leave
  it with the new entry's groups, a withdrawn ISSI is gone, and what the peer registered itself is
  never echoed back to it.\<close>

theorem legacy_updates_refine:
  "fold (legacy_apply issi) (legacy_updates issi old new peer) (seen_by peer old) =
     (if new \<noteq> None \<and> visible_to peer new = None then seen_by peer old else seen_by peer new)"
proof (cases "visible_to peer old")
  case None
  then show ?thesis
    by (cases "visible_to peer new")
      (auto simp: legacy_updates_def seen_by_def fold_affiliate_all visible_to_def split: if_splits)
next
  case (Some o')
  show ?thesis
  proof (cases "visible_to peer new")
    case None
    with Some show ?thesis
      by (auto simp: legacy_updates_def seen_by_def legacy_apply_built)
  next
    case new: (Some n)
    show ?thesis
      by (simp add: legacy_updates_def seen_by_def Some new Let_def fold_affiliate_all legacy_apply_built) blast
  qed
qed

end
