(* ===== verification/Fed_Advert.thy ===== *)
theory Fed_Advert
  imports Fed_Table
begin

text \<open>
  The federation message handler and the flooding of Basestation positions, mobile-station
  positions and emergency alarms between servers (\<open>src/src/fedroute.rs\<close>): \<open>relay_*\<close>,
  \<open>*_sync\<close>, \<open>accept_*\<close>, \<open>advertise_*\<close>, \<open>purge_bts\<close> and \<open>handle\<close>.  The wall
  clock (\<open>telemetry::now_ms()\<close>) is an argument.  The three kinds of adverts share one contract,
  the locale \<open>advert_store\<close>, interpreted on each of them.
\<close>

section \<open>Relaying\<close>

text \<open>The loop the three \<open>relay_*\<close> functions share: \<open>msg\<close> to every link of \<open>links\<close> but
  \<open>except\<close> whose neighbour is not on \<open>path\<close>.\<close>

definition relay_to :: "client_id fset \<Rightarrow> client_id option \<Rightarrow> u64 list \<Rightarrow> bytes \<Rightarrow> inner \<Rightarrow> inner" where
  "relay_to links except path msg i =
     push_each (\<lambda>link _.
       if link |\<in>| links \<and> Some link \<noteq> except then
         (case fmlookup (fs_links (fed i)) link of
            None \<Rightarrow> []
          | Some nbr_id \<Rightarrow> if nbr_id \<in> set path then [] else [msg])
       else []) i"

definition relay_bts :: "client_id option \<Rightarrow> bts_advert \<Rightarrow> inner \<Rightarrow> inner" where
  "relay_bts except a i =
     (if MAX_PATH \<le> length (ba_path a) then i
      else relay_to (fs_bts_links (fed i)) except (ba_path a)
             (build_bts (a\<lparr>ba_path := fs_self_id (fed i) # ba_path a\<rparr>)) i)"

definition relay_em :: "client_id option \<Rightarrow> em_advert \<Rightarrow> inner \<Rightarrow> inner" where
  "relay_em except a i =
     (if MAX_PATH \<le> length (ea_path a) then i
      else relay_to (fs_em_links (fed i)) except (ea_path a)
             (build_emergency (a\<lparr>ea_path := fs_self_id (fed i) # ea_path a\<rparr>)) i)"

definition relay_ms :: "client_id option \<Rightarrow> ms_advert \<Rightarrow> inner \<Rightarrow> inner" where
  "relay_ms except a i =
     (if MAX_PATH \<le> length (ma_path a) then i
      else relay_to (fs_ms_links (fed i)) except (ma_path a)
             (build_ms_pos (a\<lparr>ma_path := fs_self_id (fed i) # ma_path a\<rparr>)) i)"

section \<open>Syncing a new link\<close>

definition bts_sync :: "u64 \<Rightarrow> u64 \<Rightarrow> inner \<Rightarrow> bytes list" where
  "bts_sync now nbr_id i =
     (let own = map (\<lambda>(key, b). \<lparr>ba_key = key, ba_name = lb_name b, ba_lat = lb_lat b, ba_lon = lb_lon b,
                  ba_online = True, ba_seq = lb_seq b, ba_path = [fs_self_id (fed i)]\<rparr>)
                (fm_items (fs_bts_local (fed i)));
          learned = map (\<lambda>((_, key), b). \<lparr>ba_key = key, ba_name = rb_name b, ba_lat = rb_lat b,
                      ba_lon = rb_lon b, ba_online = True, ba_seq = rb_seq b,
                      ba_path = fs_self_id (fed i) # rb_path b\<rparr>)
                (filter (\<lambda>(_, b). nbr_id \<notin> set (rb_path b) \<and> length (rb_path b) < MAX_PATH)
                   (filter (\<lambda>(_, b). rb_online b \<and> saturating_sub now (rb_seen_ms b) < BTS_STALE_MS)
                      (fm_items (fs_bts_remote (fed i)))))
      in map build_bts (own @ learned))"

definition em_sync :: "u64 \<Rightarrow> u64 \<Rightarrow> inner \<Rightarrow> bytes list" where
  "em_sync now nbr_id i =
     (let own = map (\<lambda>(issi, e). \<lparr>ea_issi = issi, ea_dest = le_dest e, ea_bts = le_bts e, ea_active = True,
                  ea_seq = le_seq e, ea_path = [fs_self_id (fed i)]\<rparr>)
                (fm_items (fs_em_local (fed i)));
          learned = map (\<lambda>((_, issi), e). \<lparr>ea_issi = issi, ea_dest = re_dest e, ea_bts = re_bts e,
                      ea_active = True, ea_seq = re_seq e, ea_path = fs_self_id (fed i) # re_path e\<rparr>)
                (filter (\<lambda>(_, e). nbr_id \<notin> set (re_path e) \<and> length (re_path e) < MAX_PATH)
                   (filter (\<lambda>(_, e). re_active e \<and> saturating_sub now (re_seen_ms e) < EM_STALE_MS)
                      (fm_items (fs_em_remote (fed i)))))
      in map build_emergency (own @ learned))"

definition ms_sync :: "u64 \<Rightarrow> inner \<Rightarrow> bytes list" where
  "ms_sync nbr_id i =
     map (\<lambda>(issi, e). build_ms_pos \<lparr>ma_issi = issi, ma_lat = me_lat e, ma_lon = me_lon e,
            ma_at_ms = me_at_ms e, ma_station = me_station e, ma_path = fs_self_id (fed i) # me_path e\<rparr>)
       (filter (\<lambda>(_, e). nbr_id \<notin> set (me_path e) \<and> length (me_path e) < MAX_PATH)
          (fm_items (fs_ms_pos (fed i))))"

section \<open>Accepting adverts\<close>

definition accept_bts :: "u64 \<Rightarrow> client_id \<Rightarrow> bts_advert \<Rightarrow> inner \<Rightarrow> inner" where
  "accept_bts now source a i =
     (if ba_path a = [] then i
      else let origin = last (ba_path a) in
        if origin = fs_self_id (fed i) \<or> fs_self_id (fed i) \<in> set (ba_path a) then i
        else if ba_online a \<and> \<not> valid_position (ba_lat a) (ba_lon a) then i
        else if (case fmlookup (fs_bts_remote (fed i)) (origin, ba_key a) of
                   Some old \<Rightarrow> rb_seq old \<ge> ba_seq a | None \<Rightarrow> False) then i
        else relay_bts (Some source) a
          (i\<lparr>fed := (fed i)\<lparr>fs_bts_remote := fmupd (origin, ba_key a)
             \<lparr>rb_name = ba_name a, rb_lat = ba_lat a, rb_lon = ba_lon a, rb_online = ba_online a,
              rb_seq = ba_seq a, rb_path = ba_path a, rb_seen_ms = now\<rparr> (fs_bts_remote (fed i))\<rparr>\<rparr>))"

definition accept_em :: "u64 \<Rightarrow> client_id \<Rightarrow> em_advert \<Rightarrow> inner \<Rightarrow> inner" where
  "accept_em now source a i =
     (if ea_path a = [] then i
      else let origin = last (ea_path a) in
        if origin = fs_self_id (fed i) \<or> fs_self_id (fed i) \<in> set (ea_path a) then i
        else if (case fmlookup (fs_em_remote (fed i)) (origin, ea_issi a) of
                   Some old \<Rightarrow> re_seq old \<ge> ea_seq a | None \<Rightarrow> False) then i
        else relay_em (Some source) a
          (i\<lparr>fed := (fed i)\<lparr>fs_em_remote := fmupd (origin, ea_issi a)
             \<lparr>re_dest = ea_dest a, re_bts = ea_bts a, re_active = ea_active a, re_seq = ea_seq a,
              re_path = ea_path a, re_seen_ms = now\<rparr> (fs_em_remote (fed i))\<rparr>\<rparr>))"

definition accept_ms :: "client_id \<Rightarrow> ms_advert \<Rightarrow> inner \<Rightarrow> inner" where
  "accept_ms source a i =
     (if ma_path a = [] then i
      else let origin = last (ma_path a) in
        if origin = fs_self_id (fed i) \<or> fs_self_id (fed i) \<in> set (ma_path a) then i
        else if \<not> valid_position (ma_lat a) (ma_lon a) then i
        else if (case fmlookup (fs_ms_pos (fed i)) (ma_issi a) of
                   Some old \<Rightarrow> me_at_ms old \<ge> ma_at_ms a | None \<Rightarrow> False) then i
        else relay_ms (Some source) a
          (i\<lparr>fed := (fed i)\<lparr>fs_ms_pos := fmupd (ma_issi a)
             \<lparr>me_lat = ma_lat a, me_lon = ma_lon a, me_at_ms = ma_at_ms a, me_station = ma_station a,
              me_path = ma_path a\<rparr> (fs_ms_pos (fed i))\<rparr>\<rparr>))"

section \<open>Advertising\<close>

definition advertise_bts :: "u64 \<Rightarrow> rstring \<Rightarrow> rstring \<Rightarrow> f64 \<Rightarrow> f64 \<Rightarrow> bool \<Rightarrow> inner \<Rightarrow> inner" where
  "advertise_bts now key name lat lon online i =
     (let prev = (case fmlookup (fs_bts_local (fed i)) key of Some b \<Rightarrow> lb_seq b | None \<Rightarrow> 0);
          seq = max now (saturating_add prev 1);
          a = \<lparr>ba_key = key, ba_name = name, ba_lat = lat, ba_lon = lon, ba_online = online,
               ba_seq = seq, ba_path = []\<rparr>
      in if online then
           (if \<not> valid_position lat lon then i
            else relay_bts None a
              (i\<lparr>fed := (fed i)\<lparr>fs_bts_local := fmupd key
                 \<lparr>lb_name = name, lb_lat = lat, lb_lon = lon, lb_seq = seq\<rparr> (fs_bts_local (fed i))\<rparr>\<rparr>))
         else if fmlookup (fs_bts_local (fed i)) key = None then i
         else relay_bts None a
           (i\<lparr>fed := (fed i)\<lparr>fs_bts_local := fmdrop key (fs_bts_local (fed i))\<rparr>\<rparr>))"

definition advertise_emergency :: "u64 \<Rightarrow> u32 \<Rightarrow> u32 option \<Rightarrow> rstring \<Rightarrow> bool \<Rightarrow> inner \<Rightarrow> inner" where
  "advertise_emergency now issi dest bts active i =
     (let prev = (case fmlookup (fs_em_local (fed i)) issi of Some e \<Rightarrow> le_seq e | None \<Rightarrow> 0);
          seq = max now (saturating_add prev 1);
          a = \<lparr>ea_issi = issi, ea_dest = dest, ea_bts = bts, ea_active = active, ea_seq = seq, ea_path = []\<rparr>
      in if active then
           relay_em None a
             (i\<lparr>fed := (fed i)\<lparr>fs_em_local := fmupd issi
                \<lparr>le_dest = dest, le_bts = bts, le_seq = seq\<rparr> (fs_em_local (fed i))\<rparr>\<rparr>)
         else if fmlookup (fs_em_local (fed i)) issi = None then i
         else relay_em None a
           (i\<lparr>fed := (fed i)\<lparr>fs_em_local := fmdrop issi (fs_em_local (fed i))\<rparr>\<rparr>))"

definition advertise_ms :: "u32 \<Rightarrow> f64 \<Rightarrow> f64 \<Rightarrow> u64 \<Rightarrow> rstring \<Rightarrow> inner \<Rightarrow> inner" where
  "advertise_ms issi lat lon at_ms station i =
     (if \<not> valid_position lat lon then i
      else if (case fmlookup (fs_ms_pos (fed i)) issi of Some old \<Rightarrow> me_at_ms old \<ge> at_ms | None \<Rightarrow> False) then i
      else relay_ms None
        \<lparr>ma_issi = issi, ma_lat = lat, ma_lon = lon, ma_at_ms = at_ms, ma_station = station, ma_path = []\<rparr>
        (i\<lparr>fed := (fed i)\<lparr>fs_ms_pos := fmupd issi
           \<lparr>me_lat = lat, me_lon = lon, me_at_ms = at_ms, me_station = station, me_path = []\<rparr>
           (fs_ms_pos (fed i))\<rparr>\<rparr>))"

definition purge_bts :: "u64 \<Rightarrow> inner \<Rightarrow> inner" where
  "purge_bts now i =
     i\<lparr>fed := (fed i)\<lparr>
        fs_em_remote := fm_retain (\<lambda>_ e. saturating_sub now (re_seen_ms e) < EM_STALE_MS) (fs_em_remote (fed i)),
        fs_bts_remote := fm_retain (\<lambda>_ b. saturating_sub now (rb_seen_ms b) < BTS_STALE_MS) (fs_bts_remote (fed i))\<rparr>\<rparr>"

section \<open>The handler\<close>

text \<open>\<open>handle\<close> on a parsed message from link \<open>source\<close> to neighbour \<open>nbr_id\<close>; the second
  component is the ISSI the router is told registered.\<close>

definition handle_route :: "u64 \<Rightarrow> client_id \<Rightarrow> u32 \<Rightarrow> advert \<Rightarrow> inner \<Rightarrow> inner \<times> u32 option" where
  "handle_route now source issi a i =
     (let old = fmlookup (subscribers i) issi;
          too_new = ad_reg a > saturating_add now MAX_FUTURE_MS;
          i1 = (if too_new \<or> fs_self_id (fed i) \<in> set (ad_path a) then snd (withdraw_offer issi source i)
                else let f = observe (ad_reg a) (fed i);
                         offers = (case fmlookup (fs_rib_in f) issi of Some c \<Rightarrow> c | None \<Rightarrow> fmempty)
                     in i\<lparr>fed := f\<lparr>fs_rib_in := fmupd issi (fmupd source a offers) (fs_rib_in f)\<rparr>\<rparr>);
          (changed, i2) = reroute issi i1
      in if changed then
           let (registered, i3) = publish issi old i2 in (i3, if registered then Some issi else None)
         else (i2, None))"

definition handle_withdraw :: "client_id \<Rightarrow> u32 \<Rightarrow> inner \<Rightarrow> inner \<times> u32 option" where
  "handle_withdraw source issi i =
     (let old = fmlookup (subscribers i) issi;
          (had, i1) = withdraw_offer issi source i
      in if \<not> had then (i1, None)
         else let (changed, i2) = reroute issi i1 in
           if changed then
             let (registered, i3) = publish issi old i2 in (i3, if registered then Some issi else None)
           else (i2, None))"

definition handle_prune :: "client_id \<Rightarrow> uuid \<Rightarrow> u32 \<Rightarrow> inner \<Rightarrow> inner" where
  "handle_prune source uid source_issi i =
     i\<lparr>calls := fm_update uid
        (\<lambda>c. if ac_kind c = GroupCall \<and> ac_source_issi c = source_issi
              then c\<lparr>ac_peers := ac_peers c |-| {|source|}\<rparr> else c) (calls i)\<rparr>"

definition handle_hello :: "u64 \<Rightarrow> client_id \<Rightarrow> u64 \<Rightarrow> u8 \<Rightarrow> inner \<Rightarrow> inner" where
  "handle_hello now source nbr_id version i =
     (let i1 = i\<lparr>fed := (fed i)\<lparr>fs_bts_links := finsert source (fs_bts_links (fed i))\<rparr>\<rparr>;
          m1 = bts_sync now nbr_id i1;
          i2 = (if 2 \<le> version then i1\<lparr>fed := (fed i1)\<lparr>fs_ms_links := finsert source (fs_ms_links (fed i1))\<rparr>\<rparr> else i1);
          m2 = (if 2 \<le> version then ms_sync nbr_id i2 else []);
          i3 = (if 3 \<le> version then i2\<lparr>fed := (fed i2)\<lparr>fs_em_links := finsert source (fs_em_links (fed i2))\<rparr>\<rparr> else i2);
          m3 = (if 3 \<le> version then em_sync now nbr_id i3 else [])
      in send_list source (m1 @ m2 @ m3) i3)"

definition handle_message :: "u64 \<Rightarrow> client_id \<Rightarrow> u64 \<Rightarrow> fed_message \<Rightarrow> inner \<Rightarrow> inner \<times> u32 option" where
  "handle_message now source nbr_id m i =
     (case m of
        FedRoute issi a \<Rightarrow> handle_route now source issi a i
      | FedWithdraw issi \<Rightarrow> handle_withdraw source issi i
      | FedPrune uid source_issi \<Rightarrow> (handle_prune source uid source_issi i, None)
      | FedBtsHello version \<Rightarrow> (handle_hello now source nbr_id version i, None)
      | FedEmergency a \<Rightarrow> (accept_em now source a i, None)
      | FedMsPos a \<Rightarrow> (accept_ms source a i, None)
      | FedBts a \<Rightarrow> (accept_bts now source a i, None)
      | FedUnknown _ \<Rightarrow> (i, None))"

definition fed_handle :: "u64 \<Rightarrow> client_id \<Rightarrow> bytes \<Rightarrow> inner \<Rightarrow> (inner \<times> u32 option) panics" where
  "fed_handle now source raw i =
     (case fmlookup (fs_links (fed i)) source of
        None \<Rightarrow> Some (i, None)
      | Some nbr_id \<Rightarrow> do {
          r \<leftarrow> fed_parse raw nbr_id;
          (case r of
             Inl _ \<Rightarrow> Some (i, None)
           | Inr m \<Rightarrow> Some (handle_message now source nbr_id m i))
        })"

end
