(* ===== verification/Fed_Flood.thy ===== *)
theory Fed_Flood
  imports Fed_Advert
begin

text \<open>
  What the federation handler of \<open>Fed_Advert\<close> guarantees: an advert is stored and forwarded at
  most once, never back over the link it came from and never to a server already on its path, and
  every message a neighbour can send keeps the routing table consistent.
\<close>

section \<open>The contract of the three advert stores\<close>

text \<open>\<open>held s k\<close> is the sequence number held for key \<open>k\<close>; a received advert \<open>a\<close> is stored
  only when newer, and then it is what is held.\<close>

locale advert_store =
  fixes held :: "'s \<Rightarrow> 'k \<Rightarrow> u64 option"
    and accept :: "'a \<Rightarrow> 's \<Rightarrow> 's"
    and key :: "'a \<Rightarrow> 'k"
    and stamp :: "'a \<Rightarrow> u64"
  assumes replay: "held s (key a) = Some q \<Longrightarrow> stamp a \<le> q \<Longrightarrow> accept a s = s"
    and newer: "held s k = Some q \<Longrightarrow> \<exists>q'. held (accept a s) k = Some q' \<and> q \<le> q'"
    and stored: "accept a s \<noteq> s \<Longrightarrow> held (accept a s) (key a) = Some (stamp a)"
begin

lemma newer_all: "held s k = Some q \<Longrightarrow> \<exists>q'. held (fold accept as s) k = Some q' \<and> q \<le> q'"
proof (induction as arbitrary: s q)
  case Nil
  then show ?case by auto
next
  case (Cons a as)
  obtain q1 where "held (accept a s) k = Some q1" "q \<le> q1"
    using newer [OF Cons.prems, of a] by blast
  then show ?case
    using Cons.IH [of "accept a s" q1] by (auto intro: order.trans)
qed

text \<open>After an advert was taken, no copy of it is, whatever arrived in between.\<close>

lemma at_most_once:
  assumes "accept a s \<noteq> s" "key b = key a" "stamp b \<le> stamp a"
  shows "accept b (fold accept as (accept a s)) = fold accept as (accept a s)"
proof -
  obtain q where "held (fold accept as (accept a s)) (key a) = Some q" "stamp a \<le> q"
    using newer_all [OF stored [OF assms(1)]] by blast
  then show ?thesis
    using assms(2,3) by (intro replay [of _ b q]) (auto intro: order.trans)
qed

end

section \<open>The three stores\<close>

text \<open>The origin of an advert is the last server of its path.\<close>

definition bts_held :: "inner \<Rightarrow> u64 \<times> rstring \<Rightarrow> u64 option" where
  "bts_held i k = map_option rb_seq (fmlookup (fs_bts_remote (fed i)) k)"

definition em_held :: "inner \<Rightarrow> u64 \<times> u32 \<Rightarrow> u64 option" where
  "em_held i k = map_option re_seq (fmlookup (fs_em_remote (fed i)) k)"

definition ms_held :: "inner \<Rightarrow> u32 \<Rightarrow> u64 option" where
  "ms_held i k = map_option me_at_ms (fmlookup (fs_ms_pos (fed i)) k)"

lemma relay_fed [simp]:
  "fed (relay_to links except path msg i) = fed i"
  "fed (relay_bts except a i) = fed i" "fed (relay_em except b i) = fed i" "fed (relay_ms except c i) = fed i"
  by (simp_all add: relay_to_def relay_bts_def relay_em_def relay_ms_def)

lemma relay_tables [simp]:
  "subscribers (relay_bts except a i) = subscribers i" "subscribers (relay_em except b i) = subscribers i"
  "subscribers (relay_ms except c i) = subscribers i"
  "group_clients (relay_bts except a i) = group_clients i"
  "group_clients (relay_em except b i) = group_clients i" "group_clients (relay_ms except c i) = group_clients i"
  "calls (relay_bts except a i) = calls i" "calls (relay_em except b i) = calls i"
  "calls (relay_ms except c i) = calls i"
  by (simp_all add: relay_to_def relay_bts_def relay_em_def relay_ms_def)

type_synonym 'a arrival = "u64 \<times> client_id \<times> 'a"

definition take_bts :: "bts_advert arrival \<Rightarrow> inner \<Rightarrow> inner" where
  "take_bts = (\<lambda>(now, source, a). accept_bts now source a)"

definition take_em :: "em_advert arrival \<Rightarrow> inner \<Rightarrow> inner" where
  "take_em = (\<lambda>(now, source, a). accept_em now source a)"

definition take_ms :: "ms_advert arrival \<Rightarrow> inner \<Rightarrow> inner" where
  "take_ms = (\<lambda>(_, source, a). accept_ms source a)"

interpretation bts: advert_store bts_held take_bts
  "\<lambda>(_, _, a). (last (ba_path a), ba_key a)" "\<lambda>(_, _, a). ba_seq a"
proof
  fix s :: inner and a :: "bts_advert arrival" and q k
  show "bts_held s ((\<lambda>(_, _, a). (last (ba_path a), ba_key a)) a) = Some q \<Longrightarrow>
      (\<lambda>(_, _, a). ba_seq a) a \<le> q \<Longrightarrow> take_bts a s = s"
    by (auto simp: bts_held_def take_bts_def accept_bts_def Let_def split: prod.splits)
  show "bts_held s k = Some q \<Longrightarrow> \<exists>q'. bts_held (take_bts a s) k = Some q' \<and> q \<le> q'"
    by (auto simp: bts_held_def take_bts_def accept_bts_def Let_def not_le less_imp_le split: prod.splits)
  show "take_bts a s \<noteq> s \<Longrightarrow> bts_held (take_bts a s) ((\<lambda>(_, _, a). (last (ba_path a), ba_key a)) a) =
      Some ((\<lambda>(_, _, a). ba_seq a) a)"
    by (auto simp: bts_held_def take_bts_def accept_bts_def Let_def split: prod.splits if_splits)
qed

interpretation em: advert_store em_held take_em
  "\<lambda>(_, _, a). (last (ea_path a), ea_issi a)" "\<lambda>(_, _, a). ea_seq a"
proof
  fix s :: inner and a :: "em_advert arrival" and q k
  show "em_held s ((\<lambda>(_, _, a). (last (ea_path a), ea_issi a)) a) = Some q \<Longrightarrow>
      (\<lambda>(_, _, a). ea_seq a) a \<le> q \<Longrightarrow> take_em a s = s"
    by (auto simp: em_held_def take_em_def accept_em_def Let_def split: prod.splits)
  show "em_held s k = Some q \<Longrightarrow> \<exists>q'. em_held (take_em a s) k = Some q' \<and> q \<le> q'"
    by (auto simp: em_held_def take_em_def accept_em_def Let_def not_le less_imp_le split: prod.splits)
  show "take_em a s \<noteq> s \<Longrightarrow> em_held (take_em a s) ((\<lambda>(_, _, a). (last (ea_path a), ea_issi a)) a) =
      Some ((\<lambda>(_, _, a). ea_seq a) a)"
    by (auto simp: em_held_def take_em_def accept_em_def Let_def split: prod.splits if_splits)
qed

interpretation ms: advert_store ms_held take_ms
  "\<lambda>(_, _, a). ma_issi a" "\<lambda>(_, _, a). ma_at_ms a"
proof
  fix s :: inner and a :: "ms_advert arrival" and q k
  show "ms_held s ((\<lambda>(_, _, a). ma_issi a) a) = Some q \<Longrightarrow>
      (\<lambda>(_, _, a). ma_at_ms a) a \<le> q \<Longrightarrow> take_ms a s = s"
    by (auto simp: ms_held_def take_ms_def accept_ms_def Let_def split: prod.splits)
  show "ms_held s k = Some q \<Longrightarrow> \<exists>q'. ms_held (take_ms a s) k = Some q' \<and> q \<le> q'"
    by (auto simp: ms_held_def take_ms_def accept_ms_def Let_def not_le less_imp_le split: prod.splits)
  show "take_ms a s \<noteq> s \<Longrightarrow> ms_held (take_ms a s) ((\<lambda>(_, _, a). ma_issi a) a) =
      Some ((\<lambda>(_, _, a). ma_at_ms a) a)"
    by (auto simp: ms_held_def take_ms_def accept_ms_def Let_def split: prod.splits if_splits)
qed

text \<open>C31. Once a server has taken an emergency alarm from any link, no copy of it, over whatever
  link and path from the same origin, and after whatever other alarms, changes the server's state
  or makes it send anything again: alarms cannot circulate.\<close>

theorem emergency_flooded_once:
  assumes "accept_em now source a i \<noteq> i"
    and "last (ea_path b) = last (ea_path a)" "ea_issi b = ea_issi a" "ea_seq b \<le> ea_seq a"
  shows "accept_em now' source' b (fold take_em as (accept_em now source a i)) =
    fold take_em as (accept_em now source a i)"
  using em.at_most_once [of "(now, source, a)" i "(now', source', b)" as] assms
  by (simp add: take_em_def)

definition alarm :: em_advert where
  "alarm = \<lparr>ea_issi = 4013, ea_dest = Some 91, ea_bts = [], ea_active = True, ea_seq = 9, ea_path = [7, 8]\<rparr>"

theorem emergency_flooded_once_witness:
  "accept_em 5 2 (alarm\<lparr>ea_path := [9, 8]\<rparr>) (fold take_em [] (accept_em 4 1 alarm (empty_inner 6))) =
    fold take_em [] (accept_em 4 1 alarm (empty_inner 6))"
proof (rule emergency_flooded_once)
  have "em_held (empty_inner 6) (8, 4013) = None"
    by (simp add: em_held_def empty_inner_def empty_fed_def)
  moreover have "em_held (accept_em 4 1 alarm (empty_inner 6)) (8, 4013) = Some 9"
    by (simp add: accept_em_def alarm_def empty_inner_def empty_fed_def em_held_def)
  ultimately show "accept_em 4 1 alarm (empty_inner 6) \<noteq> empty_inner 6"
    by auto
qed (simp_all add: alarm_def)

section \<open>The scope of a relay\<close>

lemma queue_relay_to:
  "queue (relay_to links except path msg i) c = queue i c @
     (if connected i c \<and> c |\<in>| links \<and> Some c \<noteq> except \<and>
         (\<exists>nbr. fmlookup (fs_links (fed i)) c = Some nbr \<and> nbr \<notin> set path)
      then [msg] else [])"
  by (auto simp: relay_to_def connected_def split: option.splits)

lemma queue_fed_update [simp]: "queue (i\<lparr>fed := f\<rparr>) c = queue i c"
  by (simp add: queue_def)

text \<open>A Basestation advert a server passes on goes to no link but those that announced support,
  not back over the link it came from and to no server it has already been at, once per link;
  and what such a neighbour reads is the advert with this server in front of its path.\<close>

theorem bts_relay_scope:
  assumes "good_path nbr (ba_path a)" "list_all is_scalar (ba_key a)" "list_all is_scalar (ba_name a)"
  shows "queue (accept_bts now source a i) c = queue i c \<or>
    (\<exists>msg n. queue (accept_bts now source a i) c = queue i c @ [msg] \<and> c \<noteq> source \<and>
      c |\<in>| fs_bts_links (fed i) \<and> fmlookup (fs_links (fed i)) c = Some n \<and> n \<notin> set (ba_path a) \<and>
      fed_parse msg (fs_self_id (fed i)) = Some (Inr (FedBts (a\<lparr>ba_path := fs_self_id (fed i) # ba_path a,
        ba_key := clip (ba_key a), ba_name := clip (ba_name a)\<rparr>))))"
proof (cases "MAX_PATH \<le> length (ba_path a) \<or> fs_self_id (fed i) \<in> set (ba_path a)")
  case True
  then show ?thesis
    by (auto simp: accept_bts_def relay_bts_def Let_def)
next
  case False
  let ?self = "fs_self_id (fed i)"
  let ?b = "a\<lparr>ba_path := ?self # ba_path a\<rparr>"
  have "good_path ?self (ba_path ?b)"
    using assms(1) False by (auto simp: good_path_def)
  then have "fed_parse (build_bts ?b) ?self = Some (Inr (FedBts (?b\<lparr>ba_key := clip (ba_key a), ba_name := clip (ba_name a)\<rparr>)))"
    using parse_built_bts [of ?self ?b] assms(2,3) by simp
  with False show ?thesis
    by (auto simp: accept_bts_def relay_bts_def queue_relay_to Let_def)
qed

text \<open>Server 6 with a link to server 7 over client 1 and to server 8 over client 2.\<close>

definition a_client :: "client_mode \<Rightarrow> client" where
  "a_client m = \<lparr>cl_tx = [], cl_mode = m, cl_version = V0, cl_version_announced = False,
     cl_remote_addr = None, cl_connected_at_ms = 0, cl_username = None\<rparr>"

definition linked :: inner where
  "linked = (empty_inner 6)\<lparr>clients := fmap_of_list [(1, a_client Peer), (2, a_client Peer)],
     fed := (empty_fed 6)\<lparr>fs_links := two_links, fs_bts_links := {|1, 2|}\<rparr>\<rparr>"

definition bts_down :: bts_advert where
  "bts_down = \<lparr>ba_key = [98], ba_name = [], ba_lat = 0, ba_lon = 0, ba_online = False, ba_seq = 3, ba_path = [8, 9]\<rparr>"

theorem bts_relay_scope_witness:
  "\<exists>msg. queue (accept_bts 5 2 bts_down linked) 1 = [msg] \<and>
     fed_parse msg 6 = Some (Inr (FedBts (bts_down\<lparr>ba_path := [6, 8, 9]\<rparr>)))"
proof -
  have "queue (accept_bts 5 2 bts_down linked) 1 \<noteq> []" "queue linked 1 = []" "fs_self_id (fed linked) = 6"
    by code_simp+
  moreover have "ba_path bts_down = [8, 9]" "clip (ba_key bts_down) = ba_key bts_down" "clip (ba_name bts_down) = ba_name bts_down"
    by code_simp+
  ultimately show ?thesis
    using bts_relay_scope [of 8 bts_down 5 2 linked 1]
    by (auto simp: good_path_def bts_down_def is_scalar_def)
qed

section \<open>The handler\<close>

lemma ok_cong:
  assumes "fs_links f = fs_links g" "fs_self_id f = fs_self_id g"
  shows "offer_ok f = offer_ok g" "entry_ok f = entry_ok g"
  using assms by (auto simp: fun_eq_iff offer_ok_def entry_ok_def split: option.split)

lemma table_ok_cong:
  "subscribers j = subscribers i \<Longrightarrow> fs_links (fed j) = fs_links (fed i) \<Longrightarrow>
   fs_rib_in (fed j) = fs_rib_in (fed i) \<Longrightarrow> fs_self_id (fed j) = fs_self_id (fed i) \<Longrightarrow>
   table_ok j = table_ok i"
  using ok_cong [of "fed j" "fed i"] by (simp add: table_ok_def rib_ok_def)

lemma groups_ok_cong:
  "subscribers j = subscribers i \<Longrightarrow> group_clients j = group_clients i \<Longrightarrow> groups_ok j = groups_ok i"
  by (simp add: groups_ok_def member_def uses_group_def no_empty_group_def)

lemma publish_tables [simp]:
  "subscribers (snd (publish issi old i)) = subscribers i"
  "group_clients (snd (publish issi old i)) = group_clients i" "fed (snd (publish issi old i)) = fed i"
  by (simp_all add: publish_def Let_def)

lemma withdraw_offer_tables [simp]:
  "subscribers (snd (withdraw_offer issi link i)) = subscribers i"
  "group_clients (snd (withdraw_offer issi link i)) = group_clients i"
  by (simp_all add: withdraw_offer_def Let_def split: option.split)

lemma withdraw_offer_table_ok:
  assumes "table_ok i" shows "table_ok (snd (withdraw_offer issi link i))"
proof -
  have "offered (fmlookup (fs_rib_in (fed i)) k) l a"
    if "offered (fmlookup (fs_rib_in (fed (snd (withdraw_offer issi link i)))) k) l a" for k l a
    using that by (auto simp: withdraw_offer_def Let_def offered_def split: option.splits if_splits)
  moreover have "fs_links (fed (snd (withdraw_offer issi link i))) = fs_links (fed i)"
    "fs_self_id (fed (snd (withdraw_offer issi link i))) = fs_self_id (fed i)"
    by (simp_all add: withdraw_offer_def Let_def split: option.split)
  ultimately show ?thesis
    using assms ok_cong [of "fed (snd (withdraw_offer issi link i))" "fed i"]
    unfolding table_ok_def rib_ok_def withdraw_offer_tables by metis
qed

definition add_offer :: "u64 \<Rightarrow> client_id \<Rightarrow> u32 \<Rightarrow> advert \<Rightarrow> inner \<Rightarrow> inner" where
  "add_offer reg source issi a i =
     i\<lparr>fed := (observe reg (fed i))\<lparr>fs_rib_in := fmupd issi
       (fmupd source a (case fmlookup (fs_rib_in (fed i)) issi of Some c \<Rightarrow> c | None \<Rightarrow> fmempty))
       (fs_rib_in (fed i))\<rparr>\<rparr>"

lemma add_offer_tables [simp]:
  "subscribers (add_offer reg source issi a i) = subscribers i"
  "group_clients (add_offer reg source issi a i) = group_clients i"
  "fs_links (fed (add_offer reg source issi a i)) = fs_links (fed i)"
  "fs_self_id (fed (add_offer reg source issi a i)) = fs_self_id (fed i)"
  by (simp_all add: add_offer_def)

lemma add_offer_table_ok:
  assumes "table_ok i" "offer_ok (fed i) source a"
  shows "table_ok (add_offer reg source issi a i)"
proof -
  have "l = source \<and> x = a \<or> offered (fmlookup (fs_rib_in (fed i)) k) l x"
    if "offered (fmlookup (fs_rib_in (fed (add_offer reg source issi a i))) k) l x" for k l x
    using that by (auto simp: add_offer_def offered_def split: option.splits if_splits)
  then show ?thesis
    using assms ok_cong [of "fed (add_offer reg source issi a i)" "fed i"]
    unfolding table_ok_def rib_ok_def add_offer_tables by metis
qed

text \<open>How both table messages end: rerouting and, when the choice changed, telling the peers.\<close>

definition settle :: "u32 \<Rightarrow> subscriber option \<Rightarrow> inner \<Rightarrow> inner \<times> u32 option" where
  "settle issi old i =
     (let (changed, i2) = reroute issi i in
      if changed then
        let (registered, i3) = publish issi old i2 in (i3, if registered then Some issi else None)
      else (i2, None))"

lemma settle_ok:
  assumes "table_ok i" "groups_ok i"
  shows "table_ok (fst (settle issi old i)) \<and> groups_ok (fst (settle issi old i))"
proof -
  obtain b i2 where r: "reroute issi i = (b, i2)" by (cases "reroute issi i")
  obtain d i3 where p: "publish issi old i2 = (d, i3)" by (cases "publish issi old i2")
  have i2: "table_ok i2" "groups_ok i2"
    using reroute_table_ok [OF assms(1), of issi] reroute_groups [OF assms(2), of issi] by (simp_all add: r)
  then have "table_ok i3" "groups_ok i3"
    using publish_tables [of issi old i2] table_ok_cong [of i3 i2] groups_ok_cong [of i3 i2]
    by (simp_all add: p)
  with i2 show ?thesis by (simp add: settle_def r p)
qed

lemma handle_route_ok:
  assumes "table_ok i" "groups_ok i" "fmlookup (fs_links (fed i)) source = Some nbr" "good_path nbr (ad_path a)"
  shows "table_ok (fst (handle_route now source issi a i)) \<and> groups_ok (fst (handle_route now source issi a i))"
proof -
  define i1 where "i1 = (if ad_reg a > saturating_add now MAX_FUTURE_MS \<or> fs_self_id (fed i) \<in> set (ad_path a)
      then snd (withdraw_offer issi source i) else add_offer (ad_reg a) source issi a i)"
  have "table_ok i1"
    using assms withdraw_offer_table_ok add_offer_table_ok
    by (auto simp: i1_def offer_ok_def)
  moreover have "groups_ok i1"
    using assms(2) groups_ok_cong [of i1 i] by (simp add: i1_def)
  moreover have "handle_route now source issi a i = settle issi (fmlookup (subscribers i) issi) i1"
    by (simp add: handle_route_def settle_def i1_def add_offer_def Let_def)
  ultimately show ?thesis
    using settle_ok by simp
qed

lemma handle_withdraw_ok:
  assumes "table_ok i" "groups_ok i"
  shows "table_ok (fst (handle_withdraw source issi i)) \<and> groups_ok (fst (handle_withdraw source issi i))"
proof -
  obtain had i1 where w: "withdraw_offer issi source i = (had, i1)" by (cases "withdraw_offer issi source i")
  have i1: "table_ok i1" "groups_ok i1"
    using withdraw_offer_table_ok [OF assms(1), of issi source] withdraw_offer_tables [of issi source i]
      groups_ok_cong [of i1 i] assms(2) by (simp_all add: w)
  have "handle_withdraw source issi i = (if had then settle issi (fmlookup (subscribers i) issi) i1 else (i1, None))"
    by (simp add: handle_withdraw_def settle_def w)
  with i1 show ?thesis
    using settle_ok by simp
qed

lemma handle_hello_tables [simp]:
  "subscribers (handle_hello now source nbr v i) = subscribers i"
  "group_clients (handle_hello now source nbr v i) = group_clients i"
  "fs_links (fed (handle_hello now source nbr v i)) = fs_links (fed i)"
  "fs_rib_in (fed (handle_hello now source nbr v i)) = fs_rib_in (fed i)"
  "fs_self_id (fed (handle_hello now source nbr v i)) = fs_self_id (fed i)"
  by (simp_all add: handle_hello_def Let_def)

lemma accept_tables:
  "subscribers (accept_bts now source a i) = subscribers i" "subscribers (accept_em now source b i) = subscribers i"
  "subscribers (accept_ms source c i) = subscribers i"
  "group_clients (accept_bts now source a i) = group_clients i"
  "group_clients (accept_em now source b i) = group_clients i" "group_clients (accept_ms source c i) = group_clients i"
  "fs_links (fed (accept_bts now source a i)) = fs_links (fed i)"
  "fs_links (fed (accept_em now source b i)) = fs_links (fed i)"
  "fs_links (fed (accept_ms source c i)) = fs_links (fed i)"
  "fs_rib_in (fed (accept_bts now source a i)) = fs_rib_in (fed i)"
  "fs_rib_in (fed (accept_em now source b i)) = fs_rib_in (fed i)"
  "fs_rib_in (fed (accept_ms source c i)) = fs_rib_in (fed i)"
  "fs_self_id (fed (accept_bts now source a i)) = fs_self_id (fed i)"
  "fs_self_id (fed (accept_em now source b i)) = fs_self_id (fed i)"
  "fs_self_id (fed (accept_ms source c i)) = fs_self_id (fed i)"
  by (simp_all add: accept_bts_def accept_em_def accept_ms_def Let_def)

lemma same_tables_ok:
  assumes "subscribers j = subscribers i" "group_clients j = group_clients i"
    "fs_links (fed j) = fs_links (fed i)" "fs_rib_in (fed j) = fs_rib_in (fed i)"
    "fs_self_id (fed j) = fs_self_id (fed i)" "table_ok i" "groups_ok i"
  shows "table_ok j \<and> groups_ok j"
  using assms table_ok_cong [of j i] groups_ok_cong [of j i] by simp

lemma handle_message_ok:
  assumes "table_ok i" "groups_ok i" "fmlookup (fs_links (fed i)) source = Some nbr"
    "\<And>p. message_path m = Some p \<Longrightarrow> good_path nbr p"
  shows "table_ok (fst (handle_message now source nbr m i)) \<and> groups_ok (fst (handle_message now source nbr m i))"
proof (cases m)
  case (FedRoute issi a)
  with assms handle_route_ok [OF assms(1-3), of a] show ?thesis
    by (simp add: handle_message_def message_path_def)
next
  case (FedWithdraw issi)
  with assms handle_withdraw_ok show ?thesis by (simp add: handle_message_def)
qed (use assms same_tables_ok [of _ i] in \<open>simp_all add: handle_message_def handle_prune_def accept_tables\<close>)

text \<open>C32. No bytes a neighbour can send upset the server: the handler never panics, and it keeps
  the routing table consistent -- every offer starts at the neighbour of its link, is free of loops
  and does not run through this server; every effective entry is a local registration or such an
  offer -- and the group forwarding sets exact.\<close>

theorem fed_handle_consistent:
  assumes "table_ok i" "groups_ok i"
  shows "\<exists>j registered. fed_handle now source raw i = Some (j, registered) \<and> table_ok j \<and> groups_ok j"
proof (cases "fmlookup (fs_links (fed i)) source")
  case None
  with assms show ?thesis by (simp add: fed_handle_def)
next
  case (Some nbr)
  obtain r where r: "fed_parse raw nbr = Some r"
    using fed_parse_total [of raw nbr] by (cases "fed_parse raw nbr") auto
  show ?thesis
  proof (cases r)
    case (Inl why)
    with Some r assms show ?thesis by (simp add: fed_handle_def)
  next
    case (Inr m)
    have "\<And>p. message_path m = Some p \<Longrightarrow> good_path nbr p"
      using parsed_path_good [of raw nbr m] r Inr by simp
    with Some r Inr handle_message_ok [OF assms Some, of m now] show ?thesis
      by (cases "handle_message now source nbr m i") (simp add: fed_handle_def)
  qed
qed

theorem fed_handle_consistent_witness:
  "\<exists>j registered. fed_handle 50 1 (build_route 4013 77 [7, 8] [91])
       ((empty_inner 6)\<lparr>fed := (empty_fed 6)\<lparr>fs_links := two_links\<rparr>\<rparr>) = Some (j, registered) \<and>
     table_ok j \<and> groups_ok j"
  by (rule fed_handle_consistent)
    (simp_all add: table_ok_def rib_ok_def offered_def empty_inner_def empty_fed_def groups_ok_def
      member_def uses_group_def no_empty_group_def)

end
