(* ===== verification/Monitor.thy ===== *)
theory Monitor
  imports State
begin

text \<open>
  The call and SDS history (\<open>src/src/monitor.rs\<close>): live calls, the lists of the last 200 ended
  calls and SDS, the counters, and the records appended to the history store, which a restart
  replays.  Broadcasting live events to the dashboard is not modelled.
\<close>

record call_record =
  cr_uuid :: uuid
  cr_kind :: string
  cr_source :: u32
  cr_destination :: u32
  cr_priority :: u8
  cr_started_at_ms :: u64
  cr_ended_at_ms :: "u64 option"
  cr_voice_frames :: u64

record sds_record =
  sd_uuid :: uuid
  sd_source :: u32
  sd_destination :: u32
  sd_at_ms :: u64
  sd_reports :: u32

text \<open>The history records of \<open>src/src/store.rs\<close>; a telemetry record is opaque here.\<close>

datatype stored_record =
    StoredCall call_record
  | StoredSds sds_record
  | StoredSdsReport uuid
  | StoredSdsTelemetry bytes

record monitor =
  mo_active :: "(uuid, call_record) fmap"
  mo_calls :: "call_record list"
  mo_sds :: "sds_record list"
  mo_total_calls :: u64
  mo_total_sds :: u64
  mo_voice_frames :: u64
  mo_stored :: "stored_record list"

definition empty_monitor :: monitor where
  "empty_monitor = \<lparr>mo_active = fmempty, mo_calls = [], mo_sds = [], mo_total_calls = 0,
     mo_total_sds = 0, mo_voice_frames = 0, mo_stored = []\<rparr>"

abbreviation (input) HISTORY :: nat where "HISTORY \<equiv> 200"

text \<open>\<open>push_front\<close> and \<open>while len > 200 pop_back\<close>.\<close>

definition push_capped :: "'a \<Rightarrow> 'a list \<Rightarrow> 'a list" where
  "push_capped x xs = take HISTORY (x # xs)"

text \<open>\<open>iter_mut().find(..)\<close>: the first match is updated.\<close>

fun update_first :: "('a \<Rightarrow> bool) \<Rightarrow> ('a \<Rightarrow> 'a) \<Rightarrow> 'a list \<Rightarrow> 'a list" where
  "update_first p f [] = []"
| "update_first p f (x # xs) = (if p x then f x # xs else x # update_first p f xs)"

definition persist :: "stored_record \<Rightarrow> monitor \<Rightarrow> monitor" where
  "persist r m = m\<lparr>mo_stored := mo_stored m @ [r]\<rparr>"

definition call_started :: "u64 \<Rightarrow> uuid \<Rightarrow> string \<Rightarrow> u32 \<Rightarrow> u32 \<Rightarrow> u8 \<Rightarrow> monitor \<Rightarrow> monitor" where
  "call_started now uid kind source destination priority m =
     (let r = \<lparr>cr_uuid = uid, cr_kind = kind, cr_source = source, cr_destination = destination,
               cr_priority = priority, cr_started_at_ms = now, cr_ended_at_ms = None, cr_voice_frames = 0\<rparr>
      in m\<lparr>mo_active := fmupd uid r (mo_active m),
            mo_total_calls := (if fmlookup (mo_active m) uid = None then mo_total_calls m + 1
                               else mo_total_calls m)\<rparr>)"

definition call_ended :: "u64 \<Rightarrow> uuid \<Rightarrow> monitor \<Rightarrow> monitor" where
  "call_ended now uid m =
     (case fmlookup (mo_active m) uid of
        None \<Rightarrow> m
      | Some r0 \<Rightarrow>
          let r = r0\<lparr>cr_ended_at_ms := Some now\<rparr> in
          persist (StoredCall r)
            (m\<lparr>mo_active := fmdrop uid (mo_active m), mo_calls := push_capped r (mo_calls m)\<rparr>))"

definition voice_frame :: "uuid \<Rightarrow> monitor \<Rightarrow> monitor" where
  "voice_frame uid m =
     m\<lparr>mo_voice_frames := mo_voice_frames m + 1,
        mo_active := fm_update uid (\<lambda>r. r\<lparr>cr_voice_frames := cr_voice_frames r + 1\<rparr>) (mo_active m)\<rparr>"

definition record_sds :: "u64 \<Rightarrow> uuid \<Rightarrow> u32 \<Rightarrow> u32 \<Rightarrow> monitor \<Rightarrow> monitor" where
  "record_sds now uid source destination m =
     (let r = \<lparr>sd_uuid = uid, sd_source = source, sd_destination = destination, sd_at_ms = now, sd_reports = 0\<rparr>
      in persist (StoredSds r)
           (m\<lparr>mo_total_sds := mo_total_sds m + 1, mo_sds := push_capped r (mo_sds m)\<rparr>))"

definition record_sds_report :: "uuid \<Rightarrow> monitor \<Rightarrow> monitor" where
  "record_sds_report uid m =
     persist (StoredSdsReport uid)
       (m\<lparr>mo_sds := update_first (\<lambda>r. sd_uuid r = uid) (\<lambda>r. r\<lparr>sd_reports := sd_reports r + 1\<rparr>) (mo_sds m)\<rparr>)"

definition apply_record :: "stored_record \<Rightarrow> monitor \<Rightarrow> monitor" where
  "apply_record rec m =
     (case rec of
        StoredCall r \<Rightarrow>
          m\<lparr>mo_total_calls := mo_total_calls m + 1, mo_voice_frames := mo_voice_frames m + cr_voice_frames r,
             mo_calls := push_capped r (mo_calls m)\<rparr>
      | StoredSds r \<Rightarrow>
          m\<lparr>mo_total_sds := mo_total_sds m + 1, mo_sds := push_capped r (mo_sds m)\<rparr>
      | StoredSdsReport uid \<Rightarrow>
          m\<lparr>mo_sds := update_first (\<lambda>r. sd_uuid r = uid) (\<lambda>r. r\<lparr>sd_reports := sd_reports r + 1\<rparr>) (mo_sds m)\<rparr>
      | StoredSdsTelemetry _ \<Rightarrow> m)"

definition with_store :: "stored_record list \<Rightarrow> monitor" where
  "with_store records = (fold apply_record records empty_monitor)\<lparr>mo_stored := records\<rparr>"

text \<open>\<open>ingest_replicated\<close>: the caller has appended the record to the store.\<close>

definition ingest_replicated :: "stored_record \<Rightarrow> monitor \<Rightarrow> monitor" where
  "ingest_replicated rec m = apply_record rec m"

record snapshot =
  sn_connected :: nat
  sn_subscribers :: nat
  sn_groups :: nat
  sn_active_calls :: "call_record list"
  sn_recent_calls :: "call_record list"
  sn_recent_sds :: "sds_record list"
  sn_total_calls :: u64
  sn_total_sds :: u64
  sn_voice_frames :: u64

definition monitor_snapshot :: "nat \<Rightarrow> nat \<Rightarrow> nat \<Rightarrow> monitor \<Rightarrow> snapshot" where
  "monitor_snapshot n subs grps m = \<lparr>sn_connected = n, sn_subscribers = subs, sn_groups = grps,
     sn_active_calls = map snd (fm_items (mo_active m)), sn_recent_calls = take 50 (mo_calls m),
     sn_recent_sds = take 50 (mo_sds m), sn_total_calls = mo_total_calls m,
     sn_total_sds = mo_total_sds m, sn_voice_frames = mo_voice_frames m\<rparr>"

section \<open>Restarts\<close>

text \<open>What the history of a monitor is after replaying its store.\<close>

definition history_matches :: "monitor \<Rightarrow> bool" where
  "history_matches m \<longleftrightarrow>
     (let r = with_store (mo_stored m) in
      mo_calls r = mo_calls m \<and> mo_sds r = mo_sds m \<and> mo_total_sds r = mo_total_sds m
      \<and> mo_total_calls r + of_nat (fcard (fmdom (mo_active m))) = mo_total_calls m)"

lemma with_store_snoc:
  "mo_calls (with_store (rs @ [r])) = mo_calls (apply_record r (with_store rs))"
  "mo_sds (with_store (rs @ [r])) = mo_sds (apply_record r (with_store rs))"
  "mo_total_sds (with_store (rs @ [r])) = mo_total_sds (apply_record r (with_store rs))"
  "mo_total_calls (with_store (rs @ [r])) = mo_total_calls (apply_record r (with_store rs))"
  by (simp_all add: with_store_def apply_record_def split: stored_record.split)

text \<open>The operations of a monitor.\<close>

inductive monitor_step :: "monitor \<Rightarrow> monitor \<Rightarrow> bool" where
  started: "monitor_step m (call_started now uid kind src dst prio m)"
| ended: "monitor_step m (call_ended now uid m)"
| voice: "monitor_step m (voice_frame uid m)"
| sds: "monitor_step m (record_sds now uid src dst m)"
| report: "monitor_step m (record_sds_report uid m)"

lemma history_step:
  assumes "monitor_step m m'" "history_matches m" shows "history_matches m'"
  using assms
proof (induction rule: monitor_step.induct)
  case (started m now uid kind src dst prio)
  then show ?case
    by (cases "fmlookup (mo_active m) uid")
      (auto simp: history_matches_def call_started_def Let_def fcard_finsert_disjoint fmdom_notI
        finsert_absorb fmdomI add.assoc)
next
  case (ended m now uid)
  show ?case
  proof (cases "fmlookup (mo_active m) uid")
    case None
    with ended show ?thesis by (simp add: call_ended_def)
  next
    case (Some r)
    then have "uid |\<in>| fmdom (mo_active m)" by (rule fmdomI)
    then have "fcard (fmdom (mo_active m)) = Suc (fcard (fmdom (mo_active m) |-| {|uid|}))"
      by (rule fcard_Suc_fminus1 [symmetric])
    with ended Some show ?thesis
      by (auto simp: history_matches_def call_ended_def Let_def persist_def with_store_snoc apply_record_def
          add.assoc)
  qed
next
  case (voice m uid)
  then show ?case by (simp add: history_matches_def voice_frame_def)
next
  case (sds m now uid src dst)
  then show ?case
    by (simp add: history_matches_def record_sds_def Let_def persist_def with_store_snoc apply_record_def)
next
  case (report m uid)
  then show ?case
    by (simp add: history_matches_def record_sds_report_def Let_def persist_def with_store_snoc apply_record_def)
qed

text \<open>C33. History survives a restart: whatever calls and SDS a server has handled since it started
  empty, the monitor rebuilt from the records in its store has the same list of ended calls, the
  same list of SDS with their report counts, the same SDS total, and a call total short of exactly
  the calls still running.\<close>

theorem monitor_replay:
  assumes "monitor_step\<^sup>*\<^sup>* empty_monitor m"
  shows "mo_calls (with_store (mo_stored m)) = mo_calls m \<and>
    mo_sds (with_store (mo_stored m)) = mo_sds m \<and>
    mo_total_sds (with_store (mo_stored m)) = mo_total_sds m \<and>
    mo_total_calls (with_store (mo_stored m)) + of_nat (fcard (fmdom (mo_active m))) = mo_total_calls m"
proof -
  have "history_matches m"
    using assms
  proof (induction rule: rtranclp_induct)
    case base
    show ?case by (simp add: history_matches_def with_store_def empty_monitor_def fcard_fempty)
  qed (rule history_step)
  then show ?thesis
    by (simp add: history_matches_def Let_def)
qed

definition one_call :: monitor where
  "one_call = call_ended 9 1 (call_started 5 1 ''group'' 90 1001 0 empty_monitor)"

theorem monitor_replay_witness:
  "length (mo_calls one_call) = 1 \<and> mo_calls (with_store (mo_stored one_call)) = mo_calls one_call"
proof -
  have "monitor_step\<^sup>*\<^sup>* empty_monitor one_call"
    unfolding one_call_def
    by (rule rtranclp.rtrancl_into_rtrancl [OF r_into_rtranclp [of monitor_step]])
      (rule monitor_step.started, rule monitor_step.ended)
  from monitor_replay [OF this] show ?thesis
    by (simp add: one_call_def call_ended_def call_started_def persist_def empty_monitor_def push_capped_def Let_def)
qed

end
