(* ===== verification/Sms_Center.thy ===== *)
theory Sms_Center
  imports Fed_Wire "HOL-Library.Multiset"
begin

text \<open>
  The store-and-forward queue for SDS to offline subscribers (\<open>src/src/sms_center.rs\<close>): what
  is stored, retransmissions and limits, delivery attempts, reports, expiry; the SDS-TL header
  helpers; and the facts that no message is lost or delivered twice by the queue.  New uuids and the
  clock are arguments; writing the queue file is only the revision it bumps.
\<close>

record sms_config =
  sc_enabled :: bool
  sc_message_ttl_seconds :: u64
  sc_only_known_destinations :: bool
  sc_exclude_protocol_ids :: "u8 list"
  sc_max_messages_per_destination :: nat
  sc_max_messages_total :: nat
  sc_send_status_reports :: bool
  sc_stored_report_status :: u8
  sc_ack_timeout_seconds :: u64
  sc_retry_interval_seconds :: u64
  sc_max_attempts :: u32

record stored_sms =
  ss_id :: uuid
  ss_source_issi :: u32
  ss_destination :: u32
  ss_length_bits :: u16
  ss_data_hex :: rstring
  ss_text :: "rstring option"
  ss_stored_at_ms :: u64
  ss_expires_at_ms :: u64
  ss_attempts :: u32
  ss_last_attempt_ms :: "u64 option"
  ss_in_flight :: "uuid option"

record sms_center =
  sm_cfg :: sms_config
  sm_known_issis :: "u32 fset"
  sm_messages :: "stored_sms list"
  sm_revision :: u64

datatype store_outcome =
    Stored stored_sms
  | Duplicate stored_sms
  | QueueFull
  | Skipped string

abbreviation (input) SMS_CENTER_CLIENT :: client_id where "SMS_CENTER_CLIENT \<equiv> 0"
abbreviation (input) VALIDITY_EXPIRED_NOT_RECEIVED :: u8 where "VALIDITY_EXPIRED_NOT_RECEIVED \<equiv> 0x48"
abbreviation (input) DELIVERY_FAILED :: u8 where "DELIVERY_FAILED \<equiv> 0x4A"
abbreviation (input) DEST_QUEUE_FULL :: u8 where "DEST_QUEUE_FULL \<equiv> 0x4C"
abbreviation (input) DUPLICATE_WINDOW_MS :: u64 where "DUPLICATE_WINDOW_MS \<equiv> 60000"

section \<open>SDS-TL helpers\<close>

record sds_tl_info =
  tl_protocol_id :: u8
  tl_is_transfer :: bool
  tl_report_requested :: bool
  tl_message_reference :: u8

definition sds_tl_info :: "bytes \<Rightarrow> sds_tl_info option" where
  "sds_tl_info data =
     (case data of
        [] \<Rightarrow> None
      | pid # rest \<Rightarrow>
          if pid < 0x80 \<or> length rest < 2 then None
          else let is_transfer = (drop_bit 4 (rest ! 0) = 0) in
            (case (if is_transfer then Some (rest ! 1) else get_at rest 2) of
               None \<Rightarrow> None
             | Some mr \<Rightarrow> Some \<lparr>tl_protocol_id = pid, tl_is_transfer = is_transfer,
                 tl_report_requested = (is_transfer \<and> drop_bit 2 (rest ! 0) AND 0x03 \<noteq> 0),
                 tl_message_reference = mr\<rparr>))"

definition build_tl_report :: "u8 \<Rightarrow> u8 \<Rightarrow> u8 \<Rightarrow> bytes" where
  "build_tl_report protocol_id delivery_status message_reference =
     [protocol_id, 0x10, delivery_status, message_reference]"

text \<open>\<open>char::is_control\<close> on the Latin-1 characters.\<close>

definition is_control :: "nat \<Rightarrow> bool" where
  "is_control c \<longleftrightarrow> c < 32 \<or> (127 \<le> c \<and> c \<le> 159)"

definition text_body :: "bytes \<Rightarrow> bytes option" where
  "text_body data =
     (case data of
        [] \<Rightarrow> None
      | pid # _ \<Rightarrow>
          if pid \<in> {0x02, 0x09} then get_from data 2
          else if pid \<in> {0x82, 0x89} then
            (case sds_tl_info data of
               None \<Rightarrow> None
             | Some info \<Rightarrow>
                 if \<not> tl_is_transfer info \<or> data ! 1 AND 0x01 \<noteq> 0 then None
                 else (case get_at data 3 of
                         None \<Rightarrow> None
                       | Some coding \<Rightarrow> get_from data (if coding AND 0x80 \<noteq> 0 then 7 else 4)))
          else None)"

definition text_preview :: "bytes \<Rightarrow> rstring option" where
  "text_preview data =
     (case text_body data of
        None \<Rightarrow> None
      | Some body \<Rightarrow>
          let text = trim (filter (\<lambda>c. \<not> is_control c) (latin1 body))
          in if text = [] then None else Some text)"

definition hex_encode :: "bytes \<Rightarrow> rstring" where
  "hex_encode bs = concat (map (\<lambda>x. [hex_digit (unat x div 16), hex_digit (unat x mod 16)]) bs)"

text \<open>\<open>u8::from_str_radix(&s[i..i + 2], 16)\<close> also takes a leading plus sign.  Strings are taken
  to be ASCII, as \<open>hex_encode\<close> writes them.\<close>

definition radix16 :: "nat \<Rightarrow> nat \<Rightarrow> u8 option" where
  "radix16 a b =
     (if a = 43 \<and> is_hex b then Some (of_nat (hex_value b))
      else if is_hex a \<and> is_hex b then Some (of_nat (hex_value a * 16 + hex_value b))
      else None)"

fun hex_pairs :: "rstring \<Rightarrow> bytes option" where
  "hex_pairs (a # b # s) = (case radix16 a b of None \<Rightarrow> None
      | Some x \<Rightarrow> map_option ((#) x) (hex_pairs s))"
| "hex_pairs _ = Some []"

definition hex_decode :: "rstring \<Rightarrow> bytes option" where
  "hex_decode s = (if length s mod 2 \<noteq> 0 then None else hex_pairs s)"

definition sms_data :: "stored_sms \<Rightarrow> bytes" where
  "sms_data m = (case hex_decode (ss_data_hex m) of Some bs \<Rightarrow> bs | None \<Rightarrow> [])"

section \<open>The queue\<close>

definition persist_sms :: "sms_center \<Rightarrow> sms_center" where
  "persist_sms s = s\<lparr>sm_revision := sm_revision s + 1\<rparr>"

definition note_known :: "u32 \<Rightarrow> sms_center \<Rightarrow> sms_center" where
  "note_known issi s =
     (if \<not> sc_enabled (sm_cfg s) then s
      else if issi |\<in>| sm_known_issis s then s
      else persist_sms (s\<lparr>sm_known_issis := finsert issi (sm_known_issis s)\<rparr>))"

definition wants :: "u32 \<Rightarrow> sms_center \<Rightarrow> bool" where
  "wants destination s =
     (sc_enabled (sm_cfg s) \<and>
      (\<not> sc_only_known_destinations (sm_cfg s) \<or> destination |\<in>| sm_known_issis s))"

definition has_pending_for :: "u32 \<Rightarrow> sms_center \<Rightarrow> bool" where
  "has_pending_for issi s =
     (sc_enabled (sm_cfg s) \<and> list_ex (\<lambda>m. ss_destination m = issi) (sm_messages s))"

definition sms_store ::
  "uuid \<Rightarrow> u32 \<Rightarrow> u32 \<Rightarrow> u16 \<Rightarrow> bytes \<Rightarrow> u64 \<Rightarrow> sms_center \<Rightarrow> store_outcome \<times> sms_center" where
  "sms_store fresh source_issi destination length_bits data now s =
     (let cfg = sm_cfg s in
      if \<not> sc_enabled cfg then (Skipped ''disabled'', s)
      else (case data of
        [] \<Rightarrow> (Skipped ''empty payload'', s)
      | pid # _ \<Rightarrow>
          if pid \<in> set (sc_exclude_protocol_ids cfg) then (Skipped ''excluded protocol id'', s)
          else if length data < div_ceil (unat length_bits) 8 then (Skipped ''length exceeds payload'', s)
          else let data_hex = hex_encode data in
            (case List.find (\<lambda>m. ss_source_issi m = source_issi \<and> ss_destination m = destination
                     \<and> ss_data_hex m = data_hex
                     \<and> saturating_sub now (ss_stored_at_ms m) < DUPLICATE_WINDOW_MS) (sm_messages s) of
               Some existing \<Rightarrow> (Duplicate existing, s)
             | None \<Rightarrow>
                 let per_dest = length (filter (\<lambda>m. ss_destination m = destination) (sm_messages s)) in
                 if sc_max_messages_per_destination cfg \<le> per_dest
                    \<or> sc_max_messages_total cfg \<le> length (sm_messages s) then (QueueFull, s)
                 else let msg = \<lparr>ss_id = fresh, ss_source_issi = source_issi, ss_destination = destination,
                        ss_length_bits = length_bits, ss_data_hex = data_hex, ss_text = text_preview data,
                        ss_stored_at_ms = now,
                        ss_expires_at_ms = saturating_add now (saturating_mul (sc_message_ttl_seconds cfg) 1000),
                        ss_attempts = 0, ss_last_attempt_ms = None, ss_in_flight = None\<rparr>
                   in (Stored msg, persist_sms (s\<lparr>sm_messages := sm_messages s @ [msg]\<rparr>)))))"

text \<open>\<open>t.is_none_or(|t| now - t >= ms)\<close>.\<close>

definition attempt_older :: "u64 \<Rightarrow> u64 \<Rightarrow> u64 option \<Rightarrow> bool" where
  "attempt_older now ms prev =
     (case prev of None \<Rightarrow> True | Some t \<Rightarrow> ms \<le> saturating_sub now t)"

definition retry_ms :: "sms_center \<Rightarrow> u64" where
  "retry_ms s = saturating_mul (sc_retry_interval_seconds (sm_cfg s)) 1000"

definition is_due :: "u32 \<Rightarrow> bool \<Rightarrow> u64 \<Rightarrow> sms_center \<Rightarrow> stored_sms \<Rightarrow> bool" where
  "is_due issi force now s m \<longleftrightarrow>
     ss_destination m = issi \<and> ss_in_flight m = None \<and> now < ss_expires_at_ms m
     \<and> (force \<or> attempt_older now (retry_ms s) (ss_last_attempt_ms m))"

text \<open>The position of the first message with the smallest key among those that satisfy \<open>p\<close>.\<close>

definition oldest_at :: "(stored_sms \<Rightarrow> bool) \<Rightarrow> stored_sms list \<Rightarrow> nat option" where
  "oldest_at p ms =
     (case filter (\<lambda>k. p (ms ! k)) [0..<length ms] of
        [] \<Rightarrow> None
      | ks \<Rightarrow> Some (arg_min_list (\<lambda>k. ss_stored_at_ms (ms ! k)) ks))"

definition take_next_due :: "uuid \<Rightarrow> u32 \<Rightarrow> bool \<Rightarrow> u64 \<Rightarrow> sms_center \<Rightarrow> stored_sms option \<times> sms_center" where
  "take_next_due fresh issi force now s =
     (if \<not> sc_enabled (sm_cfg s) then (None, s)
      else (case oldest_at (is_due issi force now s) (sm_messages s) of
              None \<Rightarrow> (None, s)
            | Some k \<Rightarrow>
                let m = (sm_messages s ! k)\<lparr>ss_in_flight := Some fresh,
                          ss_attempts := ss_attempts (sm_messages s ! k) + 1, ss_last_attempt_ms := Some now\<rparr>
                in (Some m, persist_sms (s\<lparr>sm_messages := (sm_messages s)[k := m]\<rparr>))))"

definition due_destinations :: "u64 \<Rightarrow> sms_center \<Rightarrow> u32 fset" where
  "due_destinations now s =
     (if \<not> sc_enabled (sm_cfg s) then {||}
      else fset_of_list (map ss_destination
        (filter (\<lambda>m. ss_in_flight m = None \<and> attempt_older now (retry_ms s) (ss_last_attempt_ms m))
           (sm_messages s))))"

definition release :: "uuid \<Rightarrow> sms_center \<Rightarrow> sms_center" where
  "release brew_uuid s =
     (case position (\<lambda>m. ss_in_flight m = Some brew_uuid) (sm_messages s) of
        None \<Rightarrow> s
      | Some k \<Rightarrow> persist_sms (s\<lparr>sm_messages := (sm_messages s)[k :=
          (sm_messages s ! k)\<lparr>ss_in_flight := None,
             ss_attempts := saturating_sub (ss_attempts (sm_messages s ! k)) 1\<rparr>]\<rparr>))"

definition remove_at :: "nat \<Rightarrow> 'a list \<Rightarrow> 'a list" where
  "remove_at k xs = take k xs @ drop (Suc k) xs"

definition on_report :: "uuid \<Rightarrow> sms_center \<Rightarrow> stored_sms option \<times> sms_center" where
  "on_report brew_uuid s =
     (case position (\<lambda>m. ss_in_flight m = Some brew_uuid) (sm_messages s) of
        None \<Rightarrow> (None, s)
      | Some k \<Rightarrow> (Some (sm_messages s ! k),
                   persist_sms (s\<lparr>sm_messages := remove_at k (sm_messages s)\<rparr>)))"

text \<open>One iteration of \<open>sweep\<close>'s loop: the message after freeing a timed-out attempt, and where
  it goes.\<close>

datatype fate = Keep | Expired | Failed

definition timed_out :: "u64 \<Rightarrow> u64 \<Rightarrow> stored_sms \<Rightarrow> bool" where
  "timed_out ack_ms now m \<longleftrightarrow>
     ss_in_flight m \<noteq> None \<and> attempt_older now ack_ms (ss_last_attempt_ms m)"

definition freed :: "u64 \<Rightarrow> u64 \<Rightarrow> stored_sms \<Rightarrow> stored_sms" where
  "freed ack_ms now m = (if timed_out ack_ms now m then m\<lparr>ss_in_flight := None\<rparr> else m)"

definition fate_of :: "sms_config \<Rightarrow> u64 \<Rightarrow> stored_sms \<Rightarrow> fate" where
  "fate_of cfg now m =
     (if ss_in_flight m = None \<and> ss_expires_at_ms m \<le> now then Expired
      else if ss_in_flight m = None \<and> 0 < sc_max_attempts cfg \<and> sc_max_attempts cfg \<le> ss_attempts m then Failed
      else Keep)"

definition sms_sweep :: "u64 \<Rightarrow> sms_center \<Rightarrow> (stored_sms list \<times> stored_sms list) \<times> sms_center" where
  "sms_sweep now s =
     (if \<not> sc_enabled (sm_cfg s) then (([], []), s)
      else let ack_ms = saturating_mul (sc_ack_timeout_seconds (sm_cfg s)) 1000;
               fate = fate_of (sm_cfg s) now;
               ms = map (freed ack_ms now) (sm_messages s);
               changed = list_ex (timed_out ack_ms now) (sm_messages s) \<or> list_ex (\<lambda>m. fate m \<noteq> Keep) ms;
               s1 = s\<lparr>sm_messages := filter (\<lambda>m. fate m = Keep) ms\<rparr>
           in ((filter (\<lambda>m. fate m = Expired) ms, filter (\<lambda>m. fate m = Failed) ms),
               if changed then persist_sms s1 else s1))"

definition delete_sms :: "uuid \<Rightarrow> sms_center \<Rightarrow> bool \<times> sms_center" where
  "delete_sms uid s =
     (let left = filter (\<lambda>m. ss_id m \<noteq> uid) (sm_messages s)
      in if length left \<noteq> length (sm_messages s)
         then (True, persist_sms (s\<lparr>sm_messages := left\<rparr>)) else (False, s\<lparr>sm_messages := left\<rparr>))"

end
