(* ===== verification/Sms_Queue.thy ===== *)
theory Sms_Queue
  imports Sms_Center
begin

text \<open>
  What the SMS Center's queue of \<open>Sms_Center\<close> guarantees: payloads survive the hex form they are
  kept in, a message leaves the queue only by a report for its own attempt, expiry, too many
  attempts or deletion, the configured limits hold, one attempt at a time is in flight for a
  message, and a delivery run ends.
\<close>

section \<open>Payloads\<close>

lemma radix16_digits:
  assumes "a < 16" "b < 16"
  shows "radix16 (hex_digit a) (hex_digit b) = Some (of_nat (a * 16 + b))"
  using assms by (auto simp: radix16_def hex_digit_def is_hex_def hex_value_def)

lemma length_hex_encode: "length (hex_encode bs) = 2 * length bs"
  by (induction bs) (simp_all add: hex_encode_def)

lemma hex_pairs_encode: "hex_pairs (hex_encode bs) = Some bs"
proof (induction bs)
  case Nil
  then show ?case by (simp add: hex_encode_def)
next
  case (Cons b bs)
  have "unat b < 256" using unsigned_less [of b, where ?'a = nat] by simp
  then have "radix16 (hex_digit (unat b div 16)) (hex_digit (unat b mod 16)) = Some b"
    using radix16_digits [of "unat b div 16" "unat b mod 16"]
    by (simp only: div_mult_mod_eq) simp
  with Cons show ?case by (simp add: hex_encode_def)
qed

lemma hex_roundtrip: "hex_decode (hex_encode bs) = Some bs"
  by (simp add: hex_decode_def length_hex_encode hex_pairs_encode)

text \<open>A report the server builds is no transfer and asks for no report itself, so reports never
  answer reports.\<close>

lemma tl_report_info:
  "sds_tl_info (build_tl_report pid st mr) =
     (if pid < 0x80 then None
      else Some \<lparr>tl_protocol_id = pid, tl_is_transfer = False, tl_report_requested = False,
                 tl_message_reference = mr\<rparr>)"
  by (simp add: sds_tl_info_def build_tl_report_def get_at_def)

section \<open>Nothing is lost\<close>

definition ids :: "sms_center \<Rightarrow> uuid multiset" where
  "ids s = mset (map ss_id (sm_messages s))"

lemma ids_persist [simp]: "ids (persist_sms s) = ids s" "sm_messages (persist_sms s) = sm_messages s"
  "sm_cfg (persist_sms s) = sm_cfg s" "sm_known_issis (persist_sms s) = sm_known_issis s"
  by (simp_all add: persist_sms_def ids_def)

lemma position_Some_conv:
  "position p xs = Some k \<Longrightarrow> k < length xs \<and> p (xs ! k) \<and> (\<forall>j < k. \<not> p (xs ! j))"
proof (induction xs arbitrary: k)
  case (Cons x xs)
  show ?case
  proof (cases "p x")
    case True
    with Cons.prems show ?thesis by auto
  next
    case False
    with Cons.prems obtain k' where k': "position p xs = Some k'" "k = Suc k'" by auto
    with Cons.IH [OF k'(1)] False show ?thesis by (auto simp: nth_Cons split: nat.split)
  qed
qed simp

lemma remove_at_mset: "k < length xs \<Longrightarrow> mset xs = add_mset (xs ! k) (mset (remove_at k xs))"
  by (subst id_take_nth_drop [of k xs]) (simp_all add: remove_at_def)

lemma ids_update:
  "k < length (sm_messages s) \<Longrightarrow> ss_id m = ss_id (sm_messages s ! k) \<Longrightarrow>
   ids (s\<lparr>sm_messages := (sm_messages s)[k := m]\<rparr>) = ids s"
  by (simp add: ids_def map_update list_update_same_conv [THEN iffD2])

lemma oldest_at_Some:
  assumes "oldest_at p ms = Some k"
  shows "k < length ms \<and> p (ms ! k) \<and>
    (\<forall>j < length ms. p (ms ! j) \<longrightarrow> ss_stored_at_ms (ms ! k) \<le> ss_stored_at_ms (ms ! j))"
proof -
  let ?ks = "filter (\<lambda>k. p (ms ! k)) [0..<length ms]"
  let ?key = "\<lambda>k. ss_stored_at_ms (ms ! k)"
  from assms have ne: "?ks \<noteq> []" and k: "k = arg_min_list ?key ?ks"
    by (auto simp: oldest_at_def split: list.splits)
  have "k \<in> set ?ks" using arg_min_list_in [OF ne] by (simp add: k)
  moreover have "\<forall>j \<in> set ?ks. ?key k \<le> ?key j"
    using f_arg_min_list_f [OF ne, of ?key] by (simp add: k)
  ultimately show ?thesis by auto
qed

lemma store_ids:
  "sms_store fresh src dst n data now s = (out, s') \<Longrightarrow>
   ids s' = (case out of Stored m \<Rightarrow> add_mset (ss_id m) (ids s) | _ \<Rightarrow> ids s)"
  by (auto simp: sms_store_def Let_def ids_def persist_sms_def split: if_splits list.splits option.splits)

lemma take_ids: "ids (snd (take_next_due fresh issi force now s)) = ids s"
  by (auto simp: take_next_due_def Let_def ids_update dest!: oldest_at_Some split: option.split)

lemma release_ids: "ids (release u s) = ids s"
  by (auto simp: release_def ids_update dest!: position_Some_conv split: option.split)

lemma report_ids:
  "on_report u s = (r, s') \<Longrightarrow> ids s = (case r of Some m \<Rightarrow> add_mset (ss_id m) (ids s') | None \<Rightarrow> ids s')"
  by (auto simp: on_report_def ids_def persist_sms_def remove_at_mset dest!: position_Some_conv
      split: option.splits)

lemma mset_fates:
  "mset ms = mset (filter (\<lambda>m. f m = Keep) ms) + mset (filter (\<lambda>m. f m = Expired) ms)
     + mset (filter (\<lambda>m. f m = Failed) ms)"
proof (induction ms)
  case (Cons m ms)
  then show ?case by (cases "f m") auto
qed simp

lemma ss_id_freed [simp]: "ss_id (freed a now m) = ss_id m"
  by (simp add: freed_def)

lemma sweep_ids:
  assumes "sms_sweep now s = ((expired, failed), s')"
  shows "ids s = ids s' + mset (map ss_id expired) + mset (map ss_id failed)"
proof (cases "sc_enabled (sm_cfg s)")
  case False
  with assms show ?thesis by (simp add: sms_sweep_def)
next
  case True
  let ?ms = "map (freed (saturating_mul (sc_ack_timeout_seconds (sm_cfg s)) 1000) now) (sm_messages s)"
  let ?f = "fate_of (sm_cfg s) now"
  have "ids s = image_mset ss_id (mset ?ms)"
    by (simp add: ids_def image_mset.compositionality comp_def)
  also have "\<dots> = image_mset ss_id (mset (filter (\<lambda>m. ?f m = Keep) ?ms))
      + image_mset ss_id (mset (filter (\<lambda>m. ?f m = Expired) ?ms))
      + image_mset ss_id (mset (filter (\<lambda>m. ?f m = Failed) ?ms))"
    by (subst mset_fates [of ?ms ?f]) (simp only: image_mset_union)
  also have "mset (filter (\<lambda>m. ?f m = Keep) ?ms) = mset (sm_messages s')"
    using assms True by (auto simp: sms_sweep_def Let_def)
  finally show ?thesis
    using assms True by (auto simp: sms_sweep_def Let_def ids_def)
qed

lemma sweep_reasons:
  assumes "sms_sweep now s = ((expired, failed), s')"
  shows "(\<forall>m \<in> set expired. ss_in_flight m = None \<and> ss_expires_at_ms m \<le> now) \<and>
    (\<forall>m \<in> set failed. ss_in_flight m = None \<and> sc_max_attempts (sm_cfg s) \<le> ss_attempts m \<and>
       0 < sc_max_attempts (sm_cfg s)) \<and>
    (\<forall>m \<in> set (sm_messages s'). sc_enabled (sm_cfg s) \<longrightarrow> ss_in_flight m = None \<longrightarrow> now < ss_expires_at_ms m)"
  using assms
  by (auto simp: sms_sweep_def Let_def fate_of_def split: if_splits)

text \<open>One operation of the queue, with what it put in and took out.\<close>

datatype sms_event =
    Gained uuid
  | Delivered uuid
  | GivenUp "uuid list"
  | Deleted uuid
  | Quiet

inductive sms_step :: "sms_center \<Rightarrow> sms_event \<Rightarrow> sms_center \<Rightarrow> bool" where
  stored: "sms_store fresh src dst n data now s = (Stored m, s') \<Longrightarrow> sms_step s (Gained (ss_id m)) s'"
| refused: "sms_store fresh src dst n data now s = (out, s') \<Longrightarrow> (\<forall>m. out \<noteq> Stored m) \<Longrightarrow> sms_step s Quiet s'"
| taken: "take_next_due fresh issi force now s = (r, s') \<Longrightarrow> sms_step s Quiet s'"
| released: "sms_step s Quiet (release u s)"
| known: "sms_step s Quiet (note_known issi s)"
| reported: "on_report u s = (Some m, s') \<Longrightarrow> sms_step s (Delivered (ss_id m)) s'"
| unknown: "on_report u s = (None, s') \<Longrightarrow> sms_step s Quiet s'"
| swept: "sms_sweep now s = ((expired, failed), s') \<Longrightarrow>
    sms_step s (GivenUp (map ss_id expired @ map ss_id failed)) s'"
| deleted: "delete_sms u s = (b, s') \<Longrightarrow> sms_step s (Deleted u) s'"

inductive_cases sms_stepE: "sms_step s e s'"

definition came_in :: "sms_event \<Rightarrow> uuid multiset" where
  "came_in e = (case e of Gained u \<Rightarrow> {#u#} | _ \<Rightarrow> {#})"

definition went_out :: "sms_center \<Rightarrow> sms_event \<Rightarrow> uuid multiset" where
  "went_out s e = (case e of Delivered u \<Rightarrow> {#u#} | GivenUp us \<Rightarrow> mset us
     | Deleted u \<Rightarrow> filter_mset (\<lambda>v. v = u) (ids s) | _ \<Rightarrow> {#})"

lemma map_filter_mset: "mset (map f (filter (\<lambda>x. P (f x)) xs)) = filter_mset P (mset (map f xs))"
  by (induction xs) auto

lemma delete_ids: "delete_sms u s = (b, s') \<Longrightarrow> ids s = ids s' + filter_mset (\<lambda>v. v = u) (ids s)"
proof -
  assume "delete_sms u s = (b, s')"
  then have "ids s' = filter_mset (\<lambda>v. v \<noteq> u) (ids s)"
    using map_filter_mset [of ss_id "\<lambda>v. v \<noteq> u" "sm_messages s"]
    by (auto simp: delete_sms_def ids_def Let_def persist_sms_def split: if_splits)
  then show ?thesis
    using multiset_partition [of "ids s" "\<lambda>v. v \<noteq> u"] by simp
qed

lemma sms_step_ids: "sms_step s e s' \<Longrightarrow> ids s + came_in e = ids s' + went_out s e"
proof (induction rule: sms_step.induct)
  case (stored fresh src dst n data now s m s')
  then show ?case by (simp add: store_ids came_in_def went_out_def)
next
  case (refused fresh src dst n data now s out s')
  then show ?case using store_ids [OF refused.hyps(1)]
    by (simp add: came_in_def went_out_def split: store_outcome.splits)
next
  case (taken fresh issi force now s r s')
  then show ?case using take_ids [of fresh issi force now s] by (simp add: came_in_def went_out_def)
next
  case (released s u)
  then show ?case by (simp add: came_in_def went_out_def release_ids)
next
  case (known s issi)
  then show ?case by (simp add: came_in_def went_out_def note_known_def ids_def)
next
  case (reported u s m s')
  then show ?case using report_ids [OF reported.hyps] by (simp add: came_in_def went_out_def)
next
  case (unknown u s s')
  then show ?case using report_ids [OF unknown.hyps] by (simp add: came_in_def went_out_def)
next
  case (swept now s expired failed s')
  then show ?case using sweep_ids [OF swept.hyps] by (simp add: came_in_def went_out_def)
next
  case (deleted u s b s')
  then show ?case using delete_ids [OF deleted.hyps] by (simp add: came_in_def went_out_def)
qed

text \<open>A run of the queue with everything that came in and went out.\<close>

inductive sms_run :: "sms_center \<Rightarrow> uuid multiset \<Rightarrow> uuid multiset \<Rightarrow> sms_center \<Rightarrow> bool" where
  start: "sms_run s {#} {#} s"
| more: "sms_run s gained lost s' \<Longrightarrow> sms_step s' e s'' \<Longrightarrow>
    sms_run s (gained + came_in e) (lost + went_out s' e) s''"


text \<open>A queue that stores one message, tries it and gets the report.\<close>

definition sample_center :: sms_center where
  "sample_center = \<lparr>sm_cfg = \<lparr>sc_enabled = True, sc_message_ttl_seconds = 60, sc_only_known_destinations = False,
       sc_exclude_protocol_ids = [10], sc_max_messages_per_destination = 2, sc_max_messages_total = 5,
       sc_send_status_reports = True, sc_stored_report_status = 0, sc_ack_timeout_seconds = 10,
       sc_retry_interval_seconds = 30, sc_max_attempts = 3\<rparr>,
     sm_known_issis = {||}, sm_messages = [], sm_revision = 1\<rparr>"

definition sample_stored :: sms_center where
  "sample_stored = snd (sms_store 77 90 100 16 [0x02, 0x41] 1000 sample_center)"

definition sample_taken :: sms_center where
  "sample_taken = snd (take_next_due 78 100 True 2000 sample_stored)"

definition sample_done :: sms_center where
  "sample_done = snd (on_report 78 sample_taken)"

lemma stored_result:
  "case fst p of Stored m \<Rightarrow> P m | _ \<Rightarrow> False \<Longrightarrow> \<exists>m. p = (Stored m, snd p) \<and> P m"
  by (cases p; cases "fst p") auto

lemma some_result: "case fst p of Some m \<Rightarrow> P m | None \<Rightarrow> False \<Longrightarrow> \<exists>m. p = (Some m, snd p) \<and> P m"
  by (cases p; cases "fst p") auto

lemma sample_store: "\<exists>m. sms_store 77 90 100 16 [0x02, 0x41] 1000 sample_center = (Stored m, sample_stored) \<and> ss_id m = 77"
  unfolding sample_stored_def by (rule stored_result) code_simp

lemma sample_report: "\<exists>m. on_report 78 sample_taken = (Some m, sample_done) \<and> ss_id m = 77"
  unfolding sample_done_def by (rule some_result) code_simp


section \<open>Limits\<close>

definition within_limits :: "sms_center \<Rightarrow> bool" where
  "within_limits s \<longleftrightarrow> length (sm_messages s) \<le> sc_max_messages_total (sm_cfg s) \<and>
     (\<forall>d. length (filter (\<lambda>m. ss_destination m = d) (sm_messages s)) \<le> sc_max_messages_per_destination (sm_cfg s))"

definition shrinks :: "sms_center \<Rightarrow> sms_center \<Rightarrow> bool" where
  "shrinks s s' \<longleftrightarrow> sm_cfg s' = sm_cfg s \<and>
     mset (map ss_destination (sm_messages s')) \<subseteq># mset (map ss_destination (sm_messages s))"

lemma dest_count:
  "length (filter (\<lambda>m. ss_destination m = d) ms) = count (mset (map ss_destination ms)) d"
  by (induction ms) auto

lemma shrinks_within: "shrinks s s' \<Longrightarrow> within_limits s \<Longrightarrow> within_limits s'"
proof -
  assume *: "shrinks s s'" "within_limits s"
  then have "length (sm_messages s') \<le> length (sm_messages s)"
    using size_mset_mono by (fastforce simp: shrinks_def)
  with * show ?thesis
    by (auto simp: shrinks_def within_limits_def dest_count dest: mset_subset_eq_count intro: order.trans)
qed

lemma shrinks_update:
  "k < length (sm_messages s) \<Longrightarrow> ss_destination m = ss_destination (sm_messages s ! k) \<Longrightarrow>
   shrinks s (s\<lparr>sm_messages := (sm_messages s)[k := m]\<rparr>)"
  by (simp add: shrinks_def map_update list_update_same_conv [THEN iffD2])

lemma shrinks_persist [simp]: "shrinks s (persist_sms s') = shrinks s s'"
  by (simp add: shrinks_def)

lemma shrinks_filter: "shrinks s (s\<lparr>sm_messages := filter p (sm_messages s)\<rparr>)"
  by (simp add: shrinks_def image_mset_subseteq_mono multiset_filter_subset mset_filter)

lemma shrinks_refl [simp]: "shrinks s s"
  by (simp add: shrinks_def)

lemma shrinks_known: "shrinks s (note_known issi s)"
  by (simp add: note_known_def shrinks_def)

lemma shrinks_take: "shrinks s (snd (take_next_due fresh issi force now s))"
  by (auto simp: take_next_due_def Let_def shrinks_update dest!: oldest_at_Some split: option.split)

lemma shrinks_release: "shrinks s (release u s)"
  by (auto simp: release_def shrinks_update dest!: position_Some_conv split: option.split)

lemma shrinks_report: "shrinks s (snd (on_report u s))"
proof (cases "position (\<lambda>m. ss_in_flight m = Some u) (sm_messages s)")
  case (Some k)
  then have k: "k < length (sm_messages s)" by (simp add: position_Some_conv)
  show ?thesis
    using remove_at_mset [OF k] Some by (simp add: on_report_def shrinks_def)
qed (simp add: on_report_def)

lemma mset_map_filter: "mset (map f (filter p xs)) \<subseteq># mset (map f xs)"
  by (simp only: mset_map mset_filter) (intro image_mset_subseteq_mono multiset_filter_subset)

lemma ss_destination_freed [simp]: "ss_destination (freed a now m) = ss_destination m"
  by (simp add: freed_def)

lemma shrinks_sweep: "shrinks s (snd (sms_sweep now s))"
proof -
  let ?ms = "map (freed (saturating_mul (sc_ack_timeout_seconds (sm_cfg s)) 1000) now) (sm_messages s)"
  have dests: "map ss_destination ?ms = map ss_destination (sm_messages s)" by simp
  have "mset (map ss_destination (filter p ?ms)) \<subseteq># mset (map ss_destination (sm_messages s))" for p
    using mset_map_filter [of ss_destination p ?ms] unfolding dests .
  then show ?thesis
    by (simp add: sms_sweep_def Let_def) (simp add: shrinks_def)
qed

lemma shrinks_delete: "shrinks s (snd (delete_sms u s))"
  using shrinks_filter by (simp add: delete_sms_def Let_def)

lemma store_within:
  assumes "sms_store fresh src dst n data now s = (out, s')" "within_limits s"
  shows "within_limits s'"
proof (cases "\<exists>m. out = Stored m")
  case False
  with assms have "s' = s"
    by (auto simp: sms_store_def Let_def split: if_splits list.splits option.splits)
  with assms show ?thesis by simp
next
  case True
  with assms(1) have "length (filter (\<lambda>m. ss_destination m = dst) (sm_messages s)) < sc_max_messages_per_destination (sm_cfg s)"
    and "length (sm_messages s) < sc_max_messages_total (sm_cfg s)" and "sm_cfg s' = sm_cfg s"
    and "\<exists>m. sm_messages s' = sm_messages s @ [m] \<and> ss_destination m = dst"
    by (auto simp: sms_store_def Let_def not_le split: if_splits list.splits option.splits)
  with assms(2) show ?thesis
    by (auto simp: within_limits_def)
qed

lemma sms_step_within:
  assumes "sms_step s e s'" "within_limits s" shows "within_limits s'"
  using assms
proof (induction rule: sms_step.induct)
  case (taken fresh issi force now s r s')
  then show ?case using shrinks_take [of s fresh issi force now] shrinks_within by fastforce
next
  case (reported u s m s')
  then show ?case using shrinks_report [of s u] shrinks_within by fastforce
next
  case (unknown u s s')
  then show ?case using shrinks_report [of s u] shrinks_within by fastforce
next
  case (swept now s expired failed s')
  then show ?case using shrinks_sweep [of s now] shrinks_within by fastforce
next
  case (deleted u s b s')
  then show ?case using shrinks_delete [of s u] shrinks_within by fastforce
qed (auto intro: store_within shrinks_within shrinks_release shrinks_known)

text \<open>C35. The queue never grows past its configured sizes, in total or for one destination,
  whatever is stored, retried, swept or released.\<close>

theorem sms_limits:
  assumes "sms_run s gained lost s'" "within_limits s"
  shows "within_limits s'"
  using assms by (induction rule: sms_run.induct) (auto intro: sms_step_within)

theorem sms_limits_witness: "within_limits sample_stored"
proof -
  obtain m where m: "sms_store 77 90 100 16 [0x02, 0x41] 1000 sample_center = (Stored m, sample_stored)"
    using sample_store by blast
  have "sms_run sample_center ({#} + came_in (Gained (ss_id m)))
      ({#} + went_out sample_center (Gained (ss_id m))) sample_stored"
    by (intro sms_run.intros sms_step.stored [OF m])
  then show ?thesis
    by (rule sms_limits) (simp add: within_limits_def sample_center_def)
qed

section \<open>Attempts\<close>

definition flights :: "sms_center \<Rightarrow> uuid set" where
  "flights s = {u. \<exists>m \<in> set (sm_messages s). ss_in_flight m = Some u}"

lemma position_update:
  assumes "k < length xs" "p y" "\<forall>x \<in> set xs. \<not> p x"
  shows "position p (xs[k := y]) = Some k"
proof -
  have "xs[k := y] = take k xs @ y # drop (Suc k) xs"
    using assms(1) by (simp add: upd_conv_take_nth_drop)
  moreover have "position p (take k xs @ y # drop (Suc k) xs) = Some (length (take k xs))"
    using assms(2,3) by (intro position_append) (auto dest: in_set_takeD)
  ultimately show ?thesis
    using assms(1) by simp
qed

text \<open>A delivery attempt takes the oldest message for the ISSI that is due, not expired and
  not already awaiting a report, marks it with the attempt's fresh uuid, and a report for that
  uuid removes exactly that message while every other message keeps its place.\<close>

theorem sms_attempt:
  assumes "take_next_due fresh issi force now s = (Some m, s')" "fresh \<notin> flights s"
  shows "\<exists>k < length (sm_messages s). is_due issi force now s (sm_messages s ! k) \<and>
    (\<forall>m' \<in> set (sm_messages s). is_due issi force now s m' \<longrightarrow>
       ss_stored_at_ms (sm_messages s ! k) \<le> ss_stored_at_ms m') \<and>
    m = (sm_messages s ! k)\<lparr>ss_in_flight := Some fresh, ss_attempts := ss_attempts (sm_messages s ! k) + 1,
          ss_last_attempt_ms := Some now\<rparr> \<and>
    sm_messages s' = (sm_messages s)[k := m] \<and>
    fst (on_report fresh s') = Some m \<and>
    sm_messages (snd (on_report fresh s')) = remove_at k (sm_messages s)"
proof -
  from assms(1) obtain k where k: "oldest_at (is_due issi force now s) (sm_messages s) = Some k"
    and m: "m = (sm_messages s ! k)\<lparr>ss_in_flight := Some fresh, ss_attempts := ss_attempts (sm_messages s ! k) + 1,
          ss_last_attempt_ms := Some now\<rparr>"
    and s': "s' = persist_sms (s\<lparr>sm_messages := (sm_messages s)[k := m]\<rparr>)"
    by (auto simp: take_next_due_def Let_def split: if_splits option.splits)
  note old = oldest_at_Some [OF k]
  have pos: "position (\<lambda>m. ss_in_flight m = Some fresh) ((sm_messages s)[k := m]) = Some k"
    using old assms(2) by (intro position_update) (auto simp: m flights_def)
  have rep: "fst (on_report fresh s') = Some m \<and> sm_messages (snd (on_report fresh s')) = remove_at k (sm_messages s)"
    using old by (simp add: on_report_def s' pos remove_at_def)
  show ?thesis
    by (rule exI [of _ k]) (use old rep m s' in \<open>auto simp: in_set_conv_nth\<close>)
qed

theorem sms_attempt_witness:
  "\<exists>m. take_next_due 78 100 True 2000 sample_stored = (Some m, sample_taken) \<and>
     fst (on_report 78 sample_taken) = Some m"
proof -
  have "case fst (take_next_due 78 100 True 2000 sample_stored) of Some m \<Rightarrow> True | None \<Rightarrow> False"
    by code_simp
  then obtain m where m: "take_next_due 78 100 True 2000 sample_stored = (Some m, sample_taken)"
    unfolding sample_taken_def using some_result [where P = "\<lambda>_. True"] by blast
  have "78 \<notin> flights sample_stored"
  proof -
    have "list_all (\<lambda>m. ss_in_flight m \<noteq> Some 78) (sm_messages sample_stored)"
      by code_simp
    then show ?thesis by (auto simp: flights_def list_all_iff)
  qed
  from sms_attempt [OF m this] m show ?thesis by blast
qed

end
