(* ===== verification/Position.thy ===== *)
theory Position
  imports Sms_Center
begin

text \<open>
  Positions in SDS payloads: the binary LIP reports of \<open>src/src/position.rs\<close> and the scan of a
  frame for them in \<open>src/src/router.rs\<close>.  The products and quotients the code forms on
  \<open>f64\<close> are exact (at most 34 significant bits, division by a power of two), so a result is
  the bit pattern of the exact quotient.  Coordinates in text are read by a parameter.
\<close>

section \<open>Exact f64 values\<close>

text \<open>The pattern of \<open>m / 2 ^ k\<close> for \<open>0 < |m| < 2 ^ 53\<close> in the normal range; 0 is \<open>+0.0\<close>.\<close>

definition bit_len :: "int \<Rightarrow> nat" where
  "bit_len m = length (takeWhile (\<lambda>j. 2 ^ j \<le> m) [0..<64])"

definition f64_of_quotient :: "int \<Rightarrow> nat \<Rightarrow> f64" where
  "f64_of_quotient m k =
     (if m = 0 then 0
      else let a = abs m; n = bit_len a in
        of_int ((if m < 0 then 2 ^ 63 else 0) + int (1023 + (n - 1) - k) * 2 ^ 52
                + (a * 2 ^ (53 - n) - 2 ^ 52)))"

text \<open>The number a finite non-subnormal pattern stands for, as numerator over \<open>2 ^ 1075\<close>.\<close>

definition f64_exponent :: "f64 \<Rightarrow> nat" where
  "f64_exponent x = unat x div 2 ^ 52 mod 2048"

definition f64_numerator :: "f64 \<Rightarrow> int" where
  "f64_numerator x =
     (if f64_magnitude x = 0 then 0
      else (if 2 ^ 63 \<le> unat x then -1 else 1)
           * (2 ^ 52 + int (unat x mod 2 ^ 52)) * 2 ^ f64_exponent x)"

section \<open>LIP reports\<close>

text \<open>The \<open>bit\<close> and \<open>take\<close> closures: most significant bit first.\<close>

definition lip_bit :: "bytes \<Rightarrow> nat \<Rightarrow> u32 panics" where
  "lip_bit pdu i = do { b \<leftarrow> index_at pdu (i div 8); Some (ucast (drop_bit (7 - i mod 8) b AND 1)) }"

fun lip_take :: "bytes \<Rightarrow> nat \<Rightarrow> nat \<Rightarrow> u32 \<Rightarrow> u32 panics" where
  "lip_take pdu start 0 v = Some v"
| "lip_take pdu start (Suc n) v = do { b \<leftarrow> lip_bit pdu start; lip_take pdu (start + 1) n (push_bit 1 v OR b) }"

definition sign_extend :: "u32 \<Rightarrow> nat \<Rightarrow> int" where
  "sign_extend v n = sint (signed_drop_bit (32 - n) (push_bit (32 - n) v))"

text \<open>\<open>LatLon::new\<close>.\<close>

definition lat_lon :: "f64 \<Rightarrow> f64 \<Rightarrow> (f64 \<times> f64) option" where
  "lat_lon lat lon = (if valid_position lat lon then Some (lat, lon) else None)"

definition decode_lip :: "bytes \<Rightarrow> (f64 \<times> f64) option panics" where
  "decode_lip bytes =
     (if length bytes < 8 \<or> bytes ! 0 \<noteq> 0x0A then Some None
      else do {
        pdu \<leftarrow> slice_from bytes 1;
        if length pdu * 8 < 4 + 25 + 24 then Some None
        else do {
          pdu_type \<leftarrow> lip_take pdu 0 2 0;
          if pdu_type \<noteq> 0 then Some None
          else do {
            _ \<leftarrow> lip_take pdu 2 2 0;
            lon_raw \<leftarrow> lip_take pdu 4 25 0;
            lat_raw \<leftarrow> lip_take pdu 29 24 0;
            let lon = f64_of_quotient (sign_extend lon_raw 25 * 360) 25;
            let lat = f64_of_quotient (sign_extend lat_raw 24 * 180) 24;
            if lon_raw = 0 \<and> lat_raw = 0 then Some None
            else Some (lat_lon lat lon)
          }
        }
      })"

definition is_ascii_hexdigit :: "nat \<Rightarrow> bool" where
  "is_ascii_hexdigit c = is_hex c"

definition decode_lip_hex :: "rstring \<Rightarrow> (f64 \<times> f64) option panics" where
  "decode_lip_hex hex =
     (let cleaned = filter is_ascii_hexdigit hex in
      if length cleaned < 2 \<or> length cleaned mod 2 \<noteq> 0 then Some None
      else (case hex_pairs cleaned of None \<Rightarrow> Some None | Some bs \<Rightarrow> decode_lip bs))"

definition decode_lip_long :: "bytes \<Rightarrow> (f64 \<times> f64) option panics" where
  "decode_lip_long data =
     (if length data < 23 \<or> data ! 0 \<noteq> 0x83 then Some None
      else do {
        lat_raw \<leftarrow> lip_take data 119 24 0;
        lon_raw \<leftarrow> lip_take data 152 25 0;
        if lat_raw = 0 \<and> lon_raw = 0 then Some None
        else Some (lat_lon (f64_of_quotient (int (unat lat_raw) * 180) 23)
                           (f64_of_quotient (int (unat lon_raw) * 360) 25))
      })"

section \<open>Scanning a frame\<close>

definition frame_body :: "bytes \<Rightarrow> bytes" where
  "frame_body raw = (if 20 < length raw then drop 20 raw else raw)"

definition sds_is_lip :: "bytes \<Rightarrow> bool" where
  "sds_is_lip raw = list_ex (\<lambda>b. b = 0x0A \<or> b = 0x83) (frame_body raw)"

text \<open>\<open>for i in 0..body.len()\<close>: the first offset with the marker whose report decodes.\<close>

fun scan :: "u8 \<Rightarrow> (bytes \<Rightarrow> (f64 \<times> f64) option panics) \<Rightarrow> bytes \<Rightarrow> (f64 \<times> f64) option panics" where
  "scan marker decode [] = Some None"
| "scan marker decode (b # bs) =
     (if b = marker then
        (case decode (b # bs) of
           None \<Rightarrow> None
         | Some (Some ll) \<Rightarrow> Some (Some ll)
         | Some None \<Rightarrow> scan marker decode bs)
      else scan marker decode bs)"

text \<open>\<open>text_position\<close> reads coordinates in text (\<open>position::parse_position\<close>).\<close>

definition extract_sds_position ::
  "(rstring \<Rightarrow> (f64 \<times> f64) option) \<Rightarrow> bytes \<Rightarrow> (f64 \<times> f64 \<times> rstring) option panics" where
  "extract_sds_position text_position raw =
     (let body = frame_body raw in
      (case scan 0x83 decode_lip_long body of
         None \<Rightarrow> None
       | Some (Some (lat, lon)) \<Rightarrow> Some (Some (lat, lon, of_ascii ''LIP long location report''))
       | Some None \<Rightarrow>
           (case scan 0x0A decode_lip body of
              None \<Rightarrow> None
            | Some (Some (lat, lon)) \<Rightarrow> Some (Some (lat, lon, of_ascii ''LIP short location report''))
            | Some None \<Rightarrow>
                let text = map (\<lambda>b. if 0x20 \<le> b \<and> b \<le> 0x7e then unat b else 32) body in
                Some (map_option (\<lambda>(lat, lon). (lat, lon, trim text)) (text_position text)))))"

end
