(* ===== verification/Position_Facts.thy ===== *)
theory Position_Facts
  imports Position
begin

text \<open>
  Facts about positions (\<open>Position\<close>): the scan of a frame never panics, the bit readers give
  the number in the field, the \<open>f64\<close> results are exactly the quotients the LIP standard asks
  for, and so are valid coordinates.
\<close>

section \<open>The bit fields\<close>

definition pdu_bit :: "bytes \<Rightarrow> nat \<Rightarrow> bool" where
  "pdu_bit pdu k \<longleftrightarrow> bit (pdu ! (k div 8)) (7 - k mod 8)"

text \<open>The unsigned number in the \<open>n\<close> bits from \<open>start\<close>, most significant first.\<close>

definition field :: "bytes \<Rightarrow> nat \<Rightarrow> nat \<Rightarrow> nat" where
  "field pdu start n = foldl (\<lambda>a k. 2 * a + of_bool (pdu_bit pdu k)) 0 [start..<start + n]"

lemma field_0 [simp]: "field pdu s 0 = 0"
  by (simp add: field_def)

lemma field_Suc: "field pdu s (Suc n) = 2 * field pdu s n + of_bool (pdu_bit pdu (s + n))"
  by (simp add: field_def)

lemma field_less: "field pdu s n < 2 ^ n"
  by (induction n) (auto simp: field_Suc)

lemma lip_bit_eq: "i < 8 * length pdu \<Longrightarrow> lip_bit pdu i = Some (of_bool (pdu_bit pdu i))"
  by (auto simp: lip_bit_def index_at_def pdu_bit_def less_mult_imp_div_less intro!: bit_word_eqI)
    (auto simp: bit_simps)

lemma shift_in: "push_bit 1 (v :: u32) OR of_bool b = 2 * v + of_bool b"
proof -
  have "push_bit 1 v OR of_bool b = push_bit 1 v + of_bool b"
    by (rule disjunctive_add [symmetric]) (auto simp: bit_push_bit_iff bit_of_bool_iff bit_0)
  then show ?thesis by (simp add: push_bit_eq_mult)
qed

lemma lip_take_Suc:
  "s < 8 * length pdu \<Longrightarrow> lip_take pdu s (Suc n) v = lip_take pdu (Suc s) n (2 * v + of_bool (pdu_bit pdu s))"
  by (simp only: lip_take.simps lip_bit_eq Option.bind.bind_lunit shift_in Suc_eq_plus1 [symmetric])

lemma lip_take_foldl:
  "s + n \<le> 8 * length pdu \<Longrightarrow>
   lip_take pdu s n v = Some (foldl (\<lambda>a k. 2 * a + of_bool (pdu_bit pdu k)) v [s..<s + n])"
  by (induction n arbitrary: s v) (simp_all add: lip_take_Suc upt_conv_Cons del: upt_Suc lip_take.simps(2))

lemma foldl_of_nat:
  "foldl (\<lambda>a k. 2 * a + of_bool (f k)) (of_nat m :: 'a::semiring_1) ks = of_nat (foldl (\<lambda>a k. 2 * a + of_bool (f k)) m ks)"
proof (induction ks arbitrary: m)
  case (Cons k ks)
  have "2 * of_nat m + of_bool (f k) = (of_nat (2 * m + of_bool (f k)) :: 'a)" by simp
  then show ?case using Cons by (simp del: of_nat_add of_nat_mult)
qed simp

lemma lip_take_field: "s + n \<le> 8 * length pdu \<Longrightarrow> lip_take pdu s n 0 = Some (of_nat (field pdu s n))"
  using foldl_of_nat [of "pdu_bit pdu" 0 "[s..<s + n]", where 'a = u32]
  by (simp add: lip_take_foldl field_def)

text \<open>Two's complement.\<close>

definition signed_field :: "nat \<Rightarrow> nat \<Rightarrow> int" where
  "signed_field n x = (if x < 2 ^ (n - 1) then int x else int x - 2 ^ n)"

lemma sign_extend_signed_take:
  assumes "0 < n" "n \<le> 32"
  shows "sign_extend v n = signed_take_bit (n - 1) (uint v)"
  using assms
  by (intro bit_eqI) (auto simp: sign_extend_def sint_signed_drop_bit_eq bit_simps min_def)

lemma sign_extend_field:
  assumes "0 < n" "n \<le> 32" "x < 2 ^ n"
  shows "sign_extend (of_nat x) n = signed_field n x"
proof -
  have x: "uint (of_nat x :: u32) = int x"
    using order_less_le_trans [OF assms(3) power_increasing [OF assms(2)]] by (simp add: uint_nat unat_of_nat)
  obtain m where n: "n = Suc m" using assms by (cases n) auto
  have "signed_take_bit m (int x) = signed_field n x"
  proof (cases "x < 2 ^ m")
    case True
    then show ?thesis
      by (simp add: signed_field_def n signed_take_bit_int_eq_self_iff) (metis of_nat_less_iff of_nat_numeral of_nat_power neg_0_le_iff_le of_nat_0_le_iff order_trans zero_le_numeral zero_le_power neg_le_0_iff_le)
  next
    case False
    have "signed_take_bit m (int x) = signed_take_bit m (int x - 2 ^ Suc m)"
      by (simp add: signed_take_bit_eq_iff_take_bit_eq take_bit_eq_mod)
    also have "\<dots> = int x - 2 ^ Suc m"
    proof (subst signed_take_bit_int_eq_self_iff)
      have "int x < 2 * 2 ^ m"
        using assms(3) n by (metis of_nat_less_iff of_nat_numeral of_nat_power power_Suc)
      moreover have "(2 :: int) ^ m \<le> int x"
        using False by (metis not_less of_nat_le_iff of_nat_numeral of_nat_power)
      ultimately show "- (2 ^ m) \<le> int x - 2 ^ Suc m \<and> int x - 2 ^ Suc m < 2 ^ m" by simp
    qed
    finally show ?thesis using False by (simp add: signed_field_def n)
  qed
  then show ?thesis
    using sign_extend_signed_take [OF assms(1,2), of "of_nat x"] x n by simp
qed

section \<open>No panic\<close>

declare not_None_eq [simp del]

lemma lip_take_total: "s + n \<le> 8 * length pdu \<Longrightarrow> lip_take pdu s n v = None \<longleftrightarrow> False"
  by (simp add: lip_take_foldl)

lemma decode_lip_total [total_simps]: "decode_lip bs = None \<longleftrightarrow> False"
  by (simp add: decode_lip_def bind_eq_None_conv panics_iff lip_take_total no_panic_simps not_less Let_def)

lemma decode_lip_long_total [total_simps]: "decode_lip_long bs = None \<longleftrightarrow> False"
  by (simp add: decode_lip_long_def bind_eq_None_conv panics_iff lip_take_total not_less)

lemma scan_total: "(\<And>xs. decode xs = None \<longleftrightarrow> False) \<Longrightarrow> scan marker decode bs = None \<longleftrightarrow> False"
  by (induction bs) (simp_all split: option.split)

lemma extract_total [total_simps]: "extract_sds_position text_position raw = None \<longleftrightarrow> False"
  by (simp add: extract_sds_position_def Let_def scan_total total_simps split: option.split prod.split)

lemma decode_lip_hex_total [total_simps]: "decode_lip_hex hex = None \<longleftrightarrow> False"
  by (simp add: decode_lip_hex_def Let_def total_simps split: option.split)

declare not_None_eq [simp]

section \<open>Exact quotients\<close>

text \<open>\<open>x\<close> is the number \<open>m / 2 ^ k\<close>.\<close>

definition f64_is :: "f64 \<Rightarrow> int \<Rightarrow> nat \<Rightarrow> bool" where
  "f64_is x m k \<longleftrightarrow> f64_numerator x * 2 ^ k = m * 2 ^ 1075"

lemma bit_len_bounds:
  assumes "0 < a" "a < 2 ^ 53"
  shows "2 ^ (bit_len a - 1) \<le> a" "a < 2 ^ bit_len a" "0 < bit_len a" "bit_len a \<le> 53"
proof -
  let ?P = "\<lambda>j. (2 :: int) ^ j \<le> a"
  have tw: "takeWhile ?P [0..<64] = [0..<bit_len a]"
    unfolding bit_len_def by (metis length_takeWhile_le take_upt add_0 length_upt diff_zero takeWhile_eq_take)
  have up: "?P j" if "j < bit_len a" for j
    using set_takeWhileD [of j ?P "[0..<64]"] that by (simp add: tw)
  have "bit_len a < 54"
    using up [of 53] assms(2) by (cases "53 < bit_len a") auto
  then have len: "bit_len a < length [0..<64]" by simp
  have "\<not> ?P ([0..<64] ! bit_len a)"
    unfolding bit_len_def by (rule nth_length_takeWhile) (use len in \<open>simp add: bit_len_def\<close>)
  then show lt: "a < 2 ^ bit_len a" using len by (simp add: not_le)
  then show pos: "0 < bit_len a" using assms(1) by (cases "bit_len a") auto
  then show "2 ^ (bit_len a - 1) \<le> a" using up [of "bit_len a - 1"] by simp
  show "bit_len a \<le> 53" using \<open>bit_len a < 54\<close> by simp
qed

lemma unat_mask63: "unat (x AND 0x7FFFFFFFFFFFFFFF :: u64) = unat x mod 2 ^ 63"
proof -
  have "(0x7FFFFFFFFFFFFFFF :: u64) = mask 63" by (simp add: mask_eq_exp_minus_1)
  then have "x AND 0x7FFFFFFFFFFFFFFF = take_bit 63 x" by (simp add: take_bit_eq_mask)
  moreover have "unat (take_bit 63 x) = unat x mod 2 ^ 63"
    unfolding unsigned_take_bit_eq by (rule take_bit_eq_mod)
  ultimately show ?thesis by simp
qed

text \<open>Among patterns, a larger magnitude is a larger number.\<close>

definition magnitude_value :: "nat \<Rightarrow> int" where
  "magnitude_value n = (if n = 0 then 0 else (2 ^ 52 + int (n mod 2 ^ 52)) * 2 ^ (n div 2 ^ 52))"

lemma magnitude_value_less:
  assumes "m < n" shows "magnitude_value m < magnitude_value n"
proof (cases "m = 0")
  case True
  then show ?thesis using assms by (simp add: magnitude_value_def add_pos_nonneg)
next
  case False
  let ?f = "\<lambda>n. int (n mod 2 ^ 52)" and ?e = "\<lambda>n :: nat. n div 2 ^ 52"
  have le: "?e m \<le> ?e n" using assms by (simp add: div_le_mono)
  have "(2 ^ 52 + ?f m) * 2 ^ ?e m < (2 ^ 52 + ?f n) * 2 ^ ?e n"
  proof (cases "?e m = ?e n")
    case True
    then have "m mod 2 ^ 52 < n mod 2 ^ 52"
      using assms div_mult_mod_eq [of m "2 ^ 52"] div_mult_mod_eq [of n "2 ^ 52"] by (metis nat_add_left_cancel_less)
    with True show ?thesis by (simp add: zless_nat_eq_int_zless)
  next
    case False
    then have "Suc (?e m) \<le> ?e n" using le by simp
    then have "(2 :: int) ^ Suc (?e m) \<le> 2 ^ ?e n" by (rule power_increasing) simp
    then have "2 ^ 52 * 2 ^ Suc (?e m) \<le> (2 ^ 52 + ?f n) * 2 ^ ?e n"
      by (intro mult_mono) auto
    moreover have "(2 ^ 52 + ?f m) * 2 ^ ?e m < 2 ^ 52 * 2 ^ Suc (?e m)"
    proof -
      have "m mod 2 ^ 52 < 2 ^ 52" by (rule mod_less_divisor) simp
      then have "?f m < 2 ^ 52" by (metis of_nat_less_iff of_nat_numeral of_nat_power)
      then show ?thesis by simp
    qed
    ultimately show ?thesis by (rule order_less_le_trans [rotated])
  qed
  then show ?thesis using assms False by (simp add: magnitude_value_def)
qed

lemma magnitude_value_le: "magnitude_value m \<le> magnitude_value n \<longleftrightarrow> m \<le> n"
  using magnitude_value_less [of m n] magnitude_value_less [of n m] by (metis leD leI nat_less_le order_less_imp_le)

text \<open>The three fields of a pattern.\<close>

lemma f64_fields:
  assumes "unat x = s * 2 ^ 63 + e * 2 ^ 52 + f" "s \<le> 1" "0 < e" "e < 2047" "f < 2 ^ 52"
  shows "f64_numerator x = (if s = 1 then - 1 else 1) * (2 ^ 52 + int f) * 2 ^ e"
    "unat (f64_magnitude x) = e * 2 ^ 52 + f"
    "\<bar>f64_numerator x\<bar> = magnitude_value (unat (f64_magnitude x))"
proof -
  have low: "e * 2 ^ 52 + f < 2 ^ 63" using assms(4,5) by simp
  have "unat x mod 2 ^ 63 = e * 2 ^ 52 + f"
    using low unfolding assms(1) add.assoc by (metis add.commute mod_less mod_mult_self1)
  then show m: "unat (f64_magnitude x) = e * 2 ^ 52 + f"
    by (simp only: f64_magnitude_def unat_mask63)
  then have nz: "f64_magnitude x \<noteq> 0"
    using assms(3) by (metis add_is_0 mult_is_0 neq0_conv power_not_zero unat_0 zero_neq_numeral)
  have "unat x = (s * 2048 + e) * 2 ^ 52 + f" using assms(1) by simp
  then have "unat x div 2 ^ 52 = s * 2048 + e" "unat x mod 2 ^ 52 = f"
    using assms(5) by (simp_all only: div_mult_self3 div_mult_self1 mod_mult_self3) simp_all
  then have e: "f64_exponent x = e" "int (unat x mod 2 ^ 52) = int f"
    using assms(4) by (simp_all add: f64_exponent_def)
  have "2 ^ 63 \<le> unat x \<longleftrightarrow> s = 1"
    using assms(1,2) low by (cases "s = 1") auto
  with e nz show num: "f64_numerator x = (if s = 1 then - 1 else 1) * (2 ^ 52 + int f) * 2 ^ e"
    by (simp add: f64_numerator_def)
  have "(e * 2 ^ 52 + f) div 2 ^ 52 = e" "(e * 2 ^ 52 + f) mod 2 ^ 52 = f" "e * 2 ^ 52 + f \<noteq> 0"
    using assms(3,5) by simp_all
  then show "\<bar>f64_numerator x\<bar> = magnitude_value (unat (f64_magnitude x))"
    unfolding num m magnitude_value_def by (simp add: abs_mult)
qed

lemma f64_of_quotient_exact:
  assumes "\<bar>m\<bar> < 2 ^ 53" "k \<le> 1000"
  shows "f64_is (f64_of_quotient m k) m k \<and>
    \<bar>f64_numerator (f64_of_quotient m k)\<bar> = magnitude_value (unat (f64_magnitude (f64_of_quotient m k)))"
proof (cases "m = 0")
  case True
  then show ?thesis
    by (simp add: f64_is_def f64_of_quotient_def f64_numerator_def f64_magnitude_def magnitude_value_def)
next
  case False
  define a n e where "a = \<bar>m\<bar>" and "n = bit_len \<bar>m\<bar>" and "e = 1023 + (n - 1) - k"
  have a: "0 < a" "a < 2 ^ 53" using False assms(1) by (simp_all add: a_def)
  have n: "2 ^ (n - 1) \<le> a" "a < 2 ^ n" "0 < n" "n \<le> 53"
    using bit_len_bounds [OF a] by (simp_all add: n_def a_def)
  define f where "f = nat (a * 2 ^ (53 - n) - 2 ^ 52)"
  have lo: "(2 :: int) ^ 52 \<le> a * 2 ^ (53 - n)"
  proof -
    have "(2 :: int) ^ 52 = 2 ^ (n - 1) * 2 ^ (53 - n)"
      using n(3,4) by (simp flip: power_add)
    then show ?thesis using mult_right_mono [OF n(1), of "2 ^ (53 - n)"] by simp
  qed
  have hi: "a * 2 ^ (53 - n) < 2 ^ 53"
  proof -
    have "(2 :: int) ^ 53 = 2 ^ n * 2 ^ (53 - n)"
      using n(4) by (simp flip: power_add)
    then show ?thesis using mult_strict_right_mono [OF n(2), of "2 ^ (53 - n)"] by simp
  qed
  have f: "int f = a * 2 ^ (53 - n) - 2 ^ 52" "f < 2 ^ 52"
    using lo hi by (simp_all add: f_def nat_less_iff)
  have e: "0 < e" "e < 2047" "e + k = 1022 + n"
    using n(3,4) assms(2) by (simp_all add: e_def)
  define s :: nat where "s = of_bool (m < 0)"
  have eq: "f64_of_quotient m k = of_int (int (s * 2 ^ 63 + e * 2 ^ 52 + f))"
    using False f(1) by (auto simp: f64_of_quotient_def Let_def s_def e_def n_def a_def)
  have "s * 2 ^ 63 + e * 2 ^ 52 + f < 2 ^ 64"
    using e f(2) by (simp add: s_def)
  then have "unat (f64_of_quotient m k) = s * 2 ^ 63 + e * 2 ^ 52 + f"
    unfolding eq by (simp add: unat_of_nat flip: of_nat_add of_nat_mult)
  note fields = f64_fields [OF this _ e(1,2) f(2)]
  have "f64_numerator (f64_of_quotient m k) * 2 ^ k = (if m < 0 then - 1 else 1) * a * (2 ^ (53 - n) * 2 ^ e * 2 ^ k)"
    using fields(1) by (simp add: s_def f(1))
  also have "(2 :: int) ^ (53 - n) * 2 ^ e * 2 ^ k = 2 ^ 1075"
  proof -
    have "53 - n + e + k = 1075" using e(3) n(4) by simp
    then show ?thesis by (simp flip: power_add)
  qed
  also have "(if m < 0 then - 1 else 1) * a = m" by (simp add: a_def)
  finally show ?thesis using fields(3) by (simp add: f64_is_def s_def)
qed

section \<open>LIP positions\<close>

lemma f64_magnitude_le:
  assumes "\<bar>m\<bar> < 2 ^ 53" "k \<le> 1000" "magnitude_value (unat c) = d * 2 ^ 1075"
  shows "f64_magnitude (f64_of_quotient m k) \<le> c \<longleftrightarrow> \<bar>m\<bar> \<le> d * 2 ^ k"
proof -
  let ?x = "f64_of_quotient m k"
  have x: "f64_numerator ?x * 2 ^ k = m * 2 ^ 1075"
    "\<bar>f64_numerator ?x\<bar> = magnitude_value (unat (f64_magnitude ?x))"
    using f64_of_quotient_exact [OF assms(1,2)] by (simp_all add: f64_is_def)
  have "f64_magnitude ?x \<le> c \<longleftrightarrow> \<bar>f64_numerator ?x\<bar> \<le> d * 2 ^ 1075"
    unfolding x(2) assms(3) [symmetric] magnitude_value_le word_le_nat_alt ..
  also have "\<dots> \<longleftrightarrow> \<bar>f64_numerator ?x\<bar> * 2 ^ k \<le> d * 2 ^ 1075 * 2 ^ k"
    by (rule mult_le_cancel_right_pos [symmetric]) simp
  also have "\<bar>f64_numerator ?x\<bar> * 2 ^ k = \<bar>m\<bar> * 2 ^ 1075"
    using arg_cong [OF x(1), of abs] by (simp only: abs_mult abs_power2 abs_numeral abs_of_pos) (simp add: abs_mult)
  also have "\<bar>m\<bar> * 2 ^ 1075 \<le> d * 2 ^ 1075 * 2 ^ k \<longleftrightarrow> \<bar>m\<bar> * 2 ^ 1075 \<le> (d * 2 ^ k) * 2 ^ 1075"
    by (simp only: mult_ac)
  also have "\<dots> \<longleftrightarrow> \<bar>m\<bar> \<le> d * 2 ^ k"
    by (rule mult_le_cancel_right_pos) simp
  finally show ?thesis .
qed

lemma f64_bounds: "magnitude_value (unat (0x4056800000000000 :: u64)) = 90 * 2 ^ 1075"
  "magnitude_value (unat (0x4066800000000000 :: u64)) = 180 * 2 ^ 1075"
  by (simp_all add: magnitude_value_def)

lemma f64_magnitude_zero: "\<bar>m\<bar> < 2 ^ 53 \<Longrightarrow> k \<le> 1000 \<Longrightarrow> f64_magnitude (f64_of_quotient m k) = 0 \<longleftrightarrow> m = 0"
  using f64_magnitude_le [of m k 0 0] by (simp add: magnitude_value_def)

lemma valid_quotients:
  assumes "\<bar>m\<bar> < 2 ^ 53" "\<bar>m'\<bar> < 2 ^ 53" "k \<le> 1000" "k' \<le> 1000"
  shows "valid_position (f64_of_quotient m k) (f64_of_quotient m' k') \<longleftrightarrow>
    \<bar>m\<bar> \<le> 90 * 2 ^ k \<and> \<bar>m'\<bar> \<le> 180 * 2 ^ k' \<and> (m \<noteq> 0 \<or> m' \<noteq> 0)"
proof -
  have lt: "x < 0x7FF0000000000000" if "x \<le> 0x4056800000000000 \<or> x \<le> 0x4066800000000000" for x :: u64
    using that by (auto elim: order_le_less_trans)
  show ?thesis
    unfolding valid_position_def
    using lt f64_magnitude_le [OF assms(1,3) f64_bounds(1)] f64_magnitude_le [OF assms(2,4) f64_bounds(2)]
      f64_magnitude_zero [OF assms(1,3)] f64_magnitude_zero [OF assms(2,4)] by blast
qed

lemma signed_field_bounds:
  assumes "x < 2 ^ n" "0 < n"
  shows "- (2 ^ (n - 1)) \<le> signed_field n x \<and> signed_field n x < 2 ^ (n - 1)"
proof -
  obtain k where k: "n = Suc k" using assms(2) by (cases n) auto
  have x: "int x < 2 ^ n" using assms(1) by (metis of_nat_less_iff of_nat_numeral of_nat_power)
  show ?thesis
  proof (cases "x < 2 ^ k")
    case True
    then have "int x < 2 ^ k" by (metis of_nat_less_iff of_nat_numeral of_nat_power)
    moreover have "- (2 ^ k) \<le> int x" by (rule order_trans [of _ 0]) simp_all
    ultimately show ?thesis using True by (simp add: signed_field_def k)
  next
    case False
    then have "2 ^ k \<le> int x" by (metis not_less of_nat_le_iff of_nat_numeral of_nat_power)
    with x False show ?thesis by (simp add: signed_field_def k)
  qed
qed

lemma signed_field_eq_0:
  assumes "x < 2 ^ n" shows "signed_field n x = 0 \<longleftrightarrow> x = 0"
proof -
  have "int x < 2 ^ n" using assms by (metis of_nat_less_iff of_nat_numeral of_nat_power)
  then show ?thesis by (cases "x = 0") (auto simp: signed_field_def)
qed

lemma decode_lip_eq:
  assumes "7 \<le> length pdu" "field pdu 0 2 = 0" "field pdu 4 25 \<noteq> 0 \<or> field pdu 29 24 \<noteq> 0"
  shows "decode_lip (0x0A # pdu) =
    Some (Some (f64_of_quotient (signed_field 24 (field pdu 29 24) * 180) 24,
                f64_of_quotient (signed_field 25 (field pdu 4 25) * 360) 25))"
proof -
  have b: "- (2 ^ 23) \<le> signed_field 24 (field pdu 29 24)" "signed_field 24 (field pdu 29 24) < 2 ^ 23"
    "- (2 ^ 24) \<le> signed_field 25 (field pdu 4 25)" "signed_field 25 (field pdu 4 25) < 2 ^ 24"
    using signed_field_bounds [OF field_less [of pdu 29 24]] signed_field_bounds [OF field_less [of pdu 4 25]]
    by simp_all
  have "unat (of_nat (field pdu 4 25) :: u32) = field pdu 4 25" "unat (of_nat (field pdu 29 24) :: u32) = field pdu 29 24"
    using field_less [of pdu 4 25] field_less [of pdu 29 24] by (simp_all add: unat_of_nat)
  then have zero: "\<not> ((of_nat (field pdu 4 25) :: u32) = 0 \<and> (of_nat (field pdu 29 24) :: u32) = 0)"
    using assms(3) by (metis unat_0)
  have "valid_position (f64_of_quotient (signed_field 24 (field pdu 29 24) * 180) 24)
      (f64_of_quotient (signed_field 25 (field pdu 4 25) * 360) 25)"
    using b assms(3) signed_field_eq_0 [OF field_less [of pdu 29 24]] signed_field_eq_0 [OF field_less [of pdu 4 25]]
    by (subst valid_quotients) (auto simp: abs_le_iff)
  moreover have "sign_extend (of_nat (field pdu 29 24)) 24 = signed_field 24 (field pdu 29 24)"
    "sign_extend (of_nat (field pdu 4 25)) 25 = signed_field 25 (field pdu 4 25)"
    by (rule sign_extend_field; simp add: field_less del: power_numeral)+
  ultimately show ?thesis
    using assms(1,2) zero
    by (simp add: decode_lip_def slice_from_def lip_take_field lat_lon_def Let_def del: lip_take.simps)
qed

text \<open>C40. The position of a LIP short location report is exact: the \<open>f64\<close> latitude and longitude
  the server records are, without rounding, the signed 24-bit field times 180/2^24 and the signed
  25-bit field times 360/2^25 degrees, for every report except the all-zero one -- northern or
  southern, eastern or western -- and such a report is never discarded as out of range.\<close>

theorem decode_lip_exact:
  assumes "7 \<le> length pdu" "field pdu 0 2 = 0" "field pdu 4 25 \<noteq> 0 \<or> field pdu 29 24 \<noteq> 0"
  shows "\<exists>lat lon. decode_lip (0x0A # pdu) = Some (Some (lat, lon)) \<and>
    f64_is lat (signed_field 24 (field pdu 29 24) * 180) 24 \<and>
    f64_is lon (signed_field 25 (field pdu 4 25) * 360) 25"
proof -
  have "\<bar>signed_field 24 (field pdu 29 24)\<bar> \<le> 2 ^ 23" "\<bar>signed_field 25 (field pdu 4 25)\<bar> \<le> 2 ^ 24"
    using signed_field_bounds [OF field_less [of pdu 29 24]] signed_field_bounds [OF field_less [of pdu 4 25]]
    by (simp_all add: abs_le_iff)
  then show ?thesis
    using decode_lip_eq [OF assms] f64_of_quotient_exact by (simp add: abs_mult)
qed

text \<open>A report of Athens.\<close>

theorem decode_lip_exact_witness:
  "\<exists>lat lon. decode_lip [0x0A, 0x01, 0x0E, 0x62, 0x39, 0xB0, 0x43, 0x9A, 0xFF, 0xE0, 0x20] = Some (Some (lat, lon)) \<and>
    f64_is lat (3541107 * 180) 24 \<and> f64_is lon (2214983 * 360) 25"
proof -
  let ?pdu = "[0x01, 0x0E, 0x62, 0x39, 0xB0, 0x43, 0x9A, 0xFF, 0xE0, 0x20] :: bytes"
  have t: "field ?pdu 0 2 = 0" by (simp add: field_def pdu_bit_def upt_rec_numeral)
  have lon: "field ?pdu 4 25 = 2214983" by (simp add: field_def pdu_bit_def upt_rec_numeral)
  have lat: "field ?pdu 29 24 = 3541107" by (simp add: field_def pdu_bit_def upt_rec_numeral)
  have "\<exists>lat lon. decode_lip (0x0A # ?pdu) = Some (Some (lat, lon)) \<and>
    f64_is lat (signed_field 24 (field ?pdu 29 24) * 180) 24 \<and>
    f64_is lon (signed_field 25 (field ?pdu 4 25) * 360) 25"
    by (rule decode_lip_exact) (simp, rule t, simp add: lon)
  then show ?thesis unfolding lon lat by (simp add: signed_field_def)
qed

text \<open>A position decoded from a long location report is never in the southern or western
  hemisphere: its fields are read as unsigned numbers.\<close>

theorem decode_lip_long_north_east:
  assumes "decode_lip_long data = Some (Some (lat, lon))"
  shows "0 \<le> f64_numerator lat \<and> 0 \<le> f64_numerator lon"
proof -
  have nonneg: "0 \<le> f64_numerator (f64_of_quotient m k)" if "0 \<le> m" "\<bar>m\<bar> < 2 ^ 53" "k \<le> 1000" for m k
  proof -
    have "0 \<le> f64_numerator (f64_of_quotient m k) * 2 ^ k"
      using f64_of_quotient_exact [OF that(2,3)] that(1) by (simp add: f64_is_def)
    then show ?thesis by (simp add: zero_le_mult_iff)
  qed
  have len: "23 \<le> length data" using assms by (simp add: decode_lip_long_def split: if_splits)
  define y x where "y = int (unat (of_nat (field data 119 24) :: u32))" and "x = int (unat (of_nat (field data 152 25) :: u32))"
  have "0 \<le> y" "y < 2 ^ 24" "0 \<le> x" "x < 2 ^ 25"
    using field_less [of data 119 24] field_less [of data 152 25] by (simp_all only: x_def y_def) (simp_all add: unat_of_nat)
  then have "0 \<le> f64_numerator (f64_of_quotient (y * 180) 23)" "0 \<le> f64_numerator (f64_of_quotient (x * 360) 25)"
    by (auto intro!: nonneg)
  moreover have "lat = f64_of_quotient (y * 180) 23 \<and> lon = f64_of_quotient (x * 360) 25"
    using assms len unfolding decode_lip_long_def y_def x_def
    by (auto simp: lip_take_field lat_lon_def Let_def split: if_splits)
  ultimately show ?thesis by simp
qed

text \<open>A long report of a station in Athens.\<close>

definition athens_long :: bytes where
  "athens_long = [131, 0, 0, 0, 0, 0, 0, 0, 0, 0, 0, 0, 0, 0, 0, 54, 4, 24, 0, 16, 223, 234, 0]"

theorem decode_lip_long_north_east_witness:
  "\<exists>lat lon. decode_lip_long athens_long = Some (Some (lat, lon)) \<and> 0 \<le> f64_numerator lat \<and> 0 \<le> f64_numerator lon"
proof -
  have lat: "field athens_long 119 24 = 1769996" and lon: "field athens_long 152 25 = 2211796"
    by (simp_all add: field_def pdu_bit_def athens_long_def upt_rec_numeral)
  obtain lat lon where d: "decode_lip_long athens_long = Some (Some (lat, lon))"
  proof -
    have "decode_lip_long athens_long = Some (lat_lon (f64_of_quotient (1769996 * 180) 23) (f64_of_quotient (2211796 * 360) 25))"
      using lat lon by (simp add: decode_lip_long_def lip_take_field) (simp add: athens_long_def)
    moreover have "lat_lon (f64_of_quotient (1769996 * 180) 23) (f64_of_quotient (2211796 * 360) 25) \<noteq> None"
      by code_simp
    ultimately show thesis using that by auto
  qed
  with decode_lip_long_north_east [OF d] show ?thesis by blast
qed

end
