(* ===== verification/App_State.thy ===== *)
theory App_State
  imports Monitor Position Fed_Advert
begin

text \<open>
  The server as a whole (\<open>AppState\<close> of \<open>src/src/state.rs\<close>): configuration, shared tables,
  history, the alarms known from telemetry, the SMS Center and the live blacklist.  What leaves the
  modelled part -- telemetry records, APRS reports, control commands, hang-ups of SIP legs, the
  config file -- is a log of effects in the order the code causes them.
\<close>

record config =
  cf_allow_multiple_calls_per_group :: bool
  cf_higher_priority_number_wins :: bool
  cf_preempt_cause :: u8
  cf_route_without_affiliations :: bool
  cf_fallback_broadcast_when_no_affiliations :: bool
  cf_max_call_duration_seconds :: u64
  cf_call_inactivity_timeout_seconds :: u64
  cf_session_ttl_seconds :: u64
  cf_blacklist_issis :: "u32 list"
  cf_console_users :: "rstring list"

datatype effect =
    PositionRecorded u32 f64 f64 u64 rstring
  | AprsReport u32 f64 f64
  | BrewRegistration u32 string
  | RssiReported u32 "32 word"
  | BridgeTeardown uuid
  | AmbienceListen "rstring option" u32
  | DeliveryStarted u32
  | ConfigSaved "u32 list"

record app =
  st_config :: config
  st_inner :: inner
  st_monitor :: monitor
  st_stations :: "(rstring, u32 fset) fmap"
  st_sms :: sms_center
  st_blocked :: "u32 fset"
  st_log :: "effect list"

text \<open>The two clocks the code reads: \<open>Instant::now()\<close> and \<open>telemetry::now_ms()\<close>.\<close>

record clock =
  ck_now :: instant
  ck_ms :: u64

definition on_inner :: "(inner \<Rightarrow> inner) \<Rightarrow> app \<Rightarrow> app" where
  "on_inner f st = st\<lparr>st_inner := f (st_inner st)\<rparr>"

definition on_monitor :: "(monitor \<Rightarrow> monitor) \<Rightarrow> app \<Rightarrow> app" where
  "on_monitor f st = st\<lparr>st_monitor := f (st_monitor st)\<rparr>"

definition log_effect :: "effect \<Rightarrow> app \<Rightarrow> app" where
  "log_effect e st = st\<lparr>st_log := st_log st @ [e]\<rparr>"

lemma on_inner_simps [simp]:
  "st_inner (on_inner f st) = f (st_inner st)" "st_config (on_inner f st) = st_config st"
  "st_monitor (on_inner f st) = st_monitor st" "st_stations (on_inner f st) = st_stations st"
  "st_sms (on_inner f st) = st_sms st" "st_blocked (on_inner f st) = st_blocked st"
  "st_log (on_inner f st) = st_log st"
  by (simp_all add: on_inner_def)

lemma on_monitor_simps [simp]:
  "st_inner (on_monitor g st) = st_inner st" "st_config (on_monitor g st) = st_config st"
  "st_monitor (on_monitor g st) = g (st_monitor st)" "st_stations (on_monitor g st) = st_stations st"
  "st_sms (on_monitor g st) = st_sms st" "st_blocked (on_monitor g st) = st_blocked st"
  "st_log (on_monitor g st) = st_log st"
  by (simp_all add: on_monitor_def)

lemma log_effect_simps [simp]:
  "st_inner (log_effect e st) = st_inner st" "st_config (log_effect e st) = st_config st"
  "st_monitor (log_effect e st) = st_monitor st" "st_stations (log_effect e st) = st_stations st"
  "st_sms (log_effect e st) = st_sms st" "st_blocked (log_effect e st) = st_blocked st"
  by (simp_all add: log_effect_def)

section \<open>The blacklist\<close>

definition is_blocked :: "app \<Rightarrow> u32 \<Rightarrow> bool" where
  "is_blocked st issi \<longleftrightarrow> issi |\<in>| st_blocked st"

definition blocked_list :: "app \<Rightarrow> u32 list" where
  "blocked_list st = sorted_list_of_fset (st_blocked st)"

text \<open>The result is whether the set changed.\<close>

definition set_blocked :: "u32 \<Rightarrow> bool \<Rightarrow> app \<Rightarrow> bool \<times> app" where
  "set_blocked issi blocked st =
     (if blocked then (issi |\<notin>| st_blocked st, st\<lparr>st_blocked := finsert issi (st_blocked st)\<rparr>)
      else (issi |\<in>| st_blocked st, st\<lparr>st_blocked := st_blocked st |-| {|issi|}\<rparr>))"

definition config_snapshot :: "app \<Rightarrow> config" where
  "config_snapshot st = (st_config st)\<lparr>cf_blacklist_issis := blocked_list st\<rparr>"

text \<open>\<open>telemetry.is_emergency\<close>: some station's alarms contain the ISSI.\<close>

definition telemetry_is_emergency :: "app \<Rightarrow> u32 \<Rightarrow> bool" where
  "telemetry_is_emergency st issi \<longleftrightarrow> fm_any (\<lambda>_ alarms. issi |\<in>| alarms) (st_stations st)"

section \<open>Housekeeping\<close>

abbreviation (input) NONCE_TTL :: nat where "NONCE_TTL \<equiv> 120000"
abbreviation (input) SDS_ROUTE_TTL :: nat where "SDS_ROUTE_TTL \<equiv> 60000"

definition purge_tables :: "config \<Rightarrow> clock \<Rightarrow> inner \<Rightarrow> inner" where
  "purge_tables cfg ck i =
     (let session_ttl = 1000 * unat (max (cf_session_ttl_seconds cfg) 1) in
      purge_bts (ck_ms ck)
        (i\<lparr>digest_nonces := fm_retain (\<lambda>_ at. ck_now ck - at < NONCE_TTL) (digest_nonces i),
           auth_sessions := fm_retain (\<lambda>_ (at, _). ck_now ck - at < session_ttl) (auth_sessions i),
           discovery_hints := fm_retain (\<lambda>_ (at, _). ck_now ck - at < session_ttl) (discovery_hints i),
           sds_routes := fm_retain (\<lambda>_ r. ck_now ck - sr_created_at r < SDS_ROUTE_TTL) (sds_routes i),
           recent_calls := fm_retain (\<lambda>_ (_, at). ck_now ck - at < CALL_DEDUP_WINDOW) (recent_calls i)\<rparr>))"

definition purge_ephemeral :: "clock \<Rightarrow> app \<Rightarrow> app" where
  "purge_ephemeral ck st = on_inner (purge_tables (st_config st) ck) st"

end
