(* ===== verification/Text.thy ===== *)
theory Text
  imports State
begin

text \<open>
  The operations of Rust's \<open>str\<close> that the SIP code uses, on strings as lists of scalar values:
  \<open>split\<close>, \<open>split_once\<close>, \<open>split_whitespace\<close>, \<open>strip_prefix\<close>, \<open>find\<close>,
  \<open>trim_start_matches\<close>, \<open>lines\<close>, \<open>parse::<uN>()\<close> and the decimal form of a number, with
  the facts by which a text that was printed is taken apart again.  A byte index of the code is an
  index into the list, as every index the code uses lies on a character boundary.
\<close>

abbreviation (input) CR :: nat where "CR \<equiv> 13"
abbreviation (input) LF :: nat where "LF \<equiv> 10"
abbreviation (input) SP :: nat where "SP \<equiv> 32"

text \<open>Characters written in the code.\<close>

abbreviation (input) ch :: "char \<Rightarrow> nat" where "ch c \<equiv> of_char c"

section \<open>Splitting\<close>

text \<open>\<open>s.split(c)\<close>: never empty.\<close>

fun split_on :: "nat \<Rightarrow> rstring \<Rightarrow> rstring list" where
  "split_on c [] = [[]]"
| "split_on c (x # xs) =
     (if x = c then [] # split_on c xs
      else case split_on c xs of y # ys \<Rightarrow> (x # y) # ys | [] \<Rightarrow> [[x]])"

text \<open>\<open>s.split("\r\n")\<close>.\<close>

fun split_crlf :: "rstring \<Rightarrow> rstring list" where
  "split_crlf [] = [[]]"
| "split_crlf [x] = [[x]]"
| "split_crlf (x # z # xs) =
     (if x = CR \<and> z = LF then [] # split_crlf xs
      else case split_crlf (z # xs) of y # ys \<Rightarrow> (x # y) # ys | [] \<Rightarrow> [[x]])"

definition split_once :: "nat \<Rightarrow> rstring \<Rightarrow> (rstring \<times> rstring) option" where
  "split_once c s = map_option (\<lambda>i. (take i s, drop (Suc i) s)) (position (\<lambda>x. x = c) s)"

function split_whitespace :: "rstring \<Rightarrow> rstring list" where
  "split_whitespace s =
     (let t = dropWhile is_rust_whitespace s in
      if t = [] then []
      else takeWhile (\<lambda>c. \<not> is_rust_whitespace c) t # split_whitespace (dropWhile (\<lambda>c. \<not> is_rust_whitespace c) t))"
  by auto
termination
proof (relation "measure length")
  fix s t assume t: "t = dropWhile is_rust_whitespace s" "t \<noteq> []"
  then have "\<not> is_rust_whitespace (hd t)" by (simp add: hd_dropWhile)
  then have "length (dropWhile (\<lambda>c. \<not> is_rust_whitespace c) t) < length t"
    using t(2) length_dropWhile_le [of "\<lambda>c. \<not> is_rust_whitespace c" "tl t"] by (cases t) auto
  also have "\<dots> \<le> length s" using t(1) length_dropWhile_le by blast
  finally show "(dropWhile (\<lambda>c. \<not> is_rust_whitespace c) t, s) \<in> measure length" by simp
qed simp

declare split_whitespace.simps [simp del]

section \<open>Prefixes and searching\<close>

definition strip_prefix :: "rstring \<Rightarrow> rstring \<Rightarrow> rstring option" where
  "strip_prefix p s = (if take (length p) s = p then Some (drop (length p) s) else None)"

definition strip_suffix :: "rstring \<Rightarrow> rstring \<Rightarrow> rstring option" where
  "strip_suffix p s = map_option rev (strip_prefix (rev p) (rev s))"

definition starts_with :: "rstring \<Rightarrow> rstring \<Rightarrow> bool" where
  "starts_with p s \<longleftrightarrow> strip_prefix p s \<noteq> None"

text \<open>\<open>s.find("..")\<close>.\<close>

fun find_sub :: "rstring \<Rightarrow> rstring \<Rightarrow> nat option" where
  "find_sub p [] = (if p = [] then Some 0 else None)"
| "find_sub p (x # xs) = (if starts_with p (x # xs) then Some 0 else map_option Suc (find_sub p xs))"

definition contains :: "rstring \<Rightarrow> rstring \<Rightarrow> bool" where
  "contains p s \<longleftrightarrow> find_sub p s \<noteq> None"

function trim_start_matches :: "rstring \<Rightarrow> rstring \<Rightarrow> rstring" where
  "trim_start_matches p s =
     (if p \<noteq> [] \<and> s \<noteq> [] \<and> take (length p) s = p then trim_start_matches p (drop (length p) s) else s)"
  by auto
termination by (relation "measure (\<lambda>(p, s). length s)") auto

declare trim_start_matches.simps [simp del]

definition trim_end :: "rstring \<Rightarrow> rstring" where
  "trim_end s = rev (dropWhile is_rust_whitespace (rev s))"

definition trim_char :: "nat \<Rightarrow> rstring \<Rightarrow> rstring" where
  "trim_char c s = rev (dropWhile (\<lambda>x. x = c) (rev (dropWhile (\<lambda>x. x = c) s)))"

text \<open>\<open>s.lines()\<close>: a final line end adds no empty line, and one CR before it is dropped.\<close>

definition drop_cr :: "rstring \<Rightarrow> rstring" where
  "drop_cr l = (if l \<noteq> [] \<and> last l = CR then butlast l else l)"

definition str_lines :: "rstring \<Rightarrow> rstring list" where
  "str_lines s =
     (let parts = split_on LF s
      in map drop_cr (butlast parts) @ (if last parts = [] then [] else [last parts]))"

section \<open>Case and numbers\<close>

definition ascii_upper :: "nat \<Rightarrow> nat" where
  "ascii_upper c = (if 97 \<le> c \<and> c \<le> 122 then c - 32 else c)"

abbreviation to_lower :: "rstring \<Rightarrow> rstring" where "to_lower s \<equiv> map ascii_lower s"
abbreviation to_upper :: "rstring \<Rightarrow> rstring" where "to_upper s \<equiv> map ascii_upper s"

fun decimal :: "nat \<Rightarrow> rstring" where
  "decimal n = (if n < 10 then [48 + n] else decimal (n div 10) @ [48 + n mod 10])"

declare decimal.simps [simp del]

definition is_digit :: "nat \<Rightarrow> bool" where
  "is_digit c \<longleftrightarrow> 48 \<le> c \<and> c \<le> 57"

definition digits_value :: "rstring \<Rightarrow> nat" where
  "digits_value ds = foldl (\<lambda>v c. 10 * v + (c - 48)) 0 ds"

text \<open>\<open>parse::<uN>()\<close>, \<open>bound\<close> being \<open>2 ^ N\<close>: an optional plus sign, then digits.\<close>

definition parse_uint :: "nat \<Rightarrow> rstring \<Rightarrow> nat option" where
  "parse_uint bound s =
     (let ds = (case s of c # t \<Rightarrow> if c = ch CHR ''+'' then t else s | [] \<Rightarrow> s)
      in if ds \<noteq> [] \<and> list_all is_digit ds \<and> digits_value ds < bound then Some (digits_value ds) else None)"

section \<open>Taking a printed text apart\<close>

lemma strip_prefix_append [simp]: "strip_prefix p (p @ s) = Some s"
  by (simp add: strip_prefix_def)

lemma split_on_nonempty [simp]: "split_on c s \<noteq> []"
  by (induction s) (auto split: list.splits)

lemma split_on_none: "c \<notin> set s \<Longrightarrow> split_on c s = [s]"
  by (induction s) auto

lemma split_on_append: "c \<notin> set a \<Longrightarrow> split_on c (a @ c # s) = a # split_on c s"
  by (induction a) auto

lemma split_on_concat:
  assumes "\<forall>l \<in> set ls. c \<notin> set l" "c \<notin> set m"
  shows "split_on c (concat (map (\<lambda>l. l @ [c]) ls) @ m) = ls @ [m]"
  using assms(1) by (induction ls) (auto simp: split_on_append split_on_none assms(2))

lemma split_once_append: "c \<notin> set a \<Longrightarrow> split_once c (a @ c # s) = Some (a, s)"
proof -
  assume c: "c \<notin> set a"
  then have "position (\<lambda>x. x = c) (a @ c # s) = Some (length a)" by (intro position_append) auto
  then show ?thesis by (simp add: split_once_def)
qed

lemma decimal_digits: "list_all is_digit (decimal n)"
proof (induction n rule: decimal.induct)
  case (1 n)
  have "is_digit (48 + n mod 10)" by (simp add: is_digit_def)
  moreover have "is_digit (48 + n)" if "n < 10" using that by (simp add: is_digit_def)
  ultimately show ?case using 1 by (subst decimal.simps) simp
qed

lemma decimal_nonempty [simp]: "decimal n \<noteq> []"
  by (subst decimal.simps) simp

lemma digits_value_decimal: "digits_value (decimal n) = n"
proof (induction n rule: decimal.induct)
  case (1 n)
  have "digits_value (ds @ [48 + m]) = 10 * digits_value ds + m" for ds m by (simp add: digits_value_def)
  moreover have "digits_value [48 + n] = n" by (simp add: digits_value_def)
  ultimately show ?case using 1 by (subst decimal.simps) simp
qed

lemma parse_decimal [simp]: "n < bound \<Longrightarrow> parse_uint bound (decimal n) = Some n"
proof -
  assume n: "n < bound"
  obtain d ds where d: "decimal n = d # ds" by (cases "decimal n") simp_all
  moreover from d have "d \<noteq> 43" using decimal_digits [of n] by (auto simp: is_digit_def)
  ultimately show ?thesis using n decimal_digits [of n] digits_value_decimal [of n]
    by (simp add: parse_uint_def)
qed

lemma parse_decimal_overflow: "\<not> n < bound \<Longrightarrow> parse_uint bound (decimal n) = None"
proof -
  obtain d ds where d: "decimal n = d # ds" by (cases "decimal n") simp_all
  moreover from d have "d \<noteq> 43" using decimal_digits [of n] by (auto simp: is_digit_def)
  ultimately show "\<not> n < bound \<Longrightarrow> parse_uint bound (decimal n) = None"
    using digits_value_decimal [of n] by (simp add: parse_uint_def)
qed

lemma parse_uint_value: "parse_uint bound (decimal n) = Some k \<Longrightarrow> k = n"
  by (cases "n < bound") (auto simp: parse_decimal_overflow)

lemma parse_uint_bound: "parse_uint bound s = Some n \<Longrightarrow> n < bound"
  by (auto simp: parse_uint_def Let_def split: if_splits)

text \<open>A word: text without white space.\<close>

definition is_word :: "rstring \<Rightarrow> bool" where
  "is_word w \<longleftrightarrow> w \<noteq> [] \<and> list_all (\<lambda>c. \<not> is_rust_whitespace c) w"

lemma digit_not_space: "is_digit c \<Longrightarrow> \<not> is_rust_whitespace c"
  by (auto simp: is_digit_def is_rust_whitespace_def)

lemma decimal_word [simp]: "is_word (decimal n)"
  using decimal_digits [of n] by (auto simp: is_word_def list_all_iff digit_not_space)

lemma space_is_space [simp]: "is_rust_whitespace 32" "is_rust_whitespace 10" "is_rust_whitespace 13"
    "is_rust_whitespace 9"
  by (simp_all add: is_rust_whitespace_def)

lemma dropWhile_word: "is_word w \<Longrightarrow> dropWhile is_rust_whitespace (w @ s) = w @ s"
  by (cases w) (auto simp: is_word_def)

lemma take_word:
  assumes "is_word w"
  shows "takeWhile (\<lambda>c. \<not> is_rust_whitespace c) (w @ 32 # s) = w"
    "dropWhile (\<lambda>c. \<not> is_rust_whitespace c) (w @ 32 # s) = 32 # s"
    "takeWhile (\<lambda>c. \<not> is_rust_whitespace c) w = w" "dropWhile (\<lambda>c. \<not> is_rust_whitespace c) w = []"
  using assms by (auto simp: is_word_def list_all_iff takeWhile_append dropWhile_append)

lemma split_whitespace_space: "split_whitespace (32 # s) = split_whitespace s"
  by (subst (1 2) split_whitespace.simps) simp

lemma split_whitespace_Cons: "is_word w \<Longrightarrow> split_whitespace (w @ 32 # s) = w # split_whitespace s"
  by (subst split_whitespace.simps)
    (auto simp: Let_def dropWhile_word take_word split_whitespace_space is_word_def)

lemma split_whitespace_Nil [simp]: "split_whitespace [] = []"
  by (simp add: split_whitespace.simps)

lemma split_whitespace_word: "is_word w \<Longrightarrow> split_whitespace w = [w]"
  using dropWhile_word [of w "[]"]
  by (subst split_whitespace.simps) (auto simp: Let_def take_word is_word_def)

lemma dropWhile_solid: "xs = [] \<or> \<not> P (hd xs) \<Longrightarrow> dropWhile P xs = xs"
  by (cases xs) auto

lemma trim_solid: "s \<noteq> [] \<Longrightarrow> \<not> is_rust_whitespace (hd s) \<Longrightarrow> \<not> is_rust_whitespace (last s) \<Longrightarrow> trim s = s"
  by (simp add: trim_def dropWhile_solid hd_rev)

lemma word_ends: "is_word w \<Longrightarrow> w \<noteq> [] \<and> \<not> is_rust_whitespace (hd w) \<and> \<not> is_rust_whitespace (last w)"
  by (auto simp: is_word_def list_all_iff)

lemma trim_word [simp]: "is_word w \<Longrightarrow> trim w = w"
  using word_ends trim_solid by blast

lemma trim_space_front: "is_rust_whitespace c \<Longrightarrow> trim (c # v) = trim v"
  by (simp add: trim_def)

lemma trim_nonempty: "\<not> is_rust_whitespace c \<Longrightarrow> trim (c # s) \<noteq> []"
  by (simp add: trim_def)

lemma trim_char_none: "c \<notin> set v \<Longrightarrow> trim_char c v = v"
proof -
  assume "c \<notin> set v"
  then have "v = [] \<or> hd v \<noteq> c \<and> last v \<noteq> c" by auto
  then show ?thesis by (auto simp: trim_char_def dropWhile_solid hd_rev)
qed

lemma trim_char_quoted: "c \<notin> set v \<Longrightarrow> trim_char c (c # v @ [c]) = v"
proof (cases "v = []")
  case False
  assume v: "c \<notin> set v"
  then have "hd v \<noteq> c" "last v \<noteq> c" using False by auto
  then show ?thesis using False by (simp add: trim_char_def dropWhile_solid hd_rev)
qed (simp add: trim_char_def)

lemma find_append: "find P (xs @ ys) = (case find P xs of None \<Rightarrow> find P ys | Some x \<Rightarrow> Some x)"
  by (induction xs) auto

end
