(* ===== verification/Router_Calls.thy ===== *)
theory Router_Calls
  imports App_State Text
begin

text \<open>
  Calls (\<open>src/src/router.rs\<close>): group transmissions with floor arbitration, pre-emption,
  duplicate suppression and emergency handling; private set-ups and their control messages; voice
  and DTMF frames; the end of a call; the time-out sweep.
\<close>

abbreviation (input) AMBIENCE_LISTENING_SERVICE :: u8 where "AMBIENCE_LISTENING_SERVICE \<equiv> 9"
abbreviation (input) GROUP_TX_PRIORITY_AT :: nat where "GROUP_TX_PRIORITY_AT \<equiv> 26"
abbreviation (input) EMERGENCY_PRIORITY :: u8 where "EMERGENCY_PRIORITY \<equiv> 15"

definition is_emergency_call :: "app \<Rightarrow> u32 \<Rightarrow> u8 \<Rightarrow> bool" where
  "is_emergency_call st source_issi priority \<longleftrightarrow>
     EMERGENCY_PRIORITY \<le> priority \<or> telemetry_is_emergency st source_issi"

definition with_emergency_priority :: "bytes \<Rightarrow> bytes" where
  "with_emergency_priority raw = raw[GROUP_TX_PRIORITY_AT := EMERGENCY_PRIORITY]"

section \<open>Group calls\<close>

text \<open>The floor: \<open>None\<close> when the running call keeps it (the transmission is refused), else the
  state after a pre-empted call was released, and that call.\<close>

definition arbitrate_floor ::
  "config \<Rightarrow> uuid \<Rightarrow> group_transmission \<Rightarrow> inner \<Rightarrow> (inner \<times> uuid option) option" where
  "arbitrate_floor cfg uid gt i =
     (if cf_allow_multiple_calls_per_group cfg then Some (i, None)
      else (case fmlookup (group_floor i) (gt_destination gt) of
              None \<Rightarrow> Some (i, None)
            | Some existing_id \<Rightarrow>
                if existing_id = uid then Some (i, None)
                else (case fmlookup (calls i) existing_id of
                        None \<Rightarrow> Some (i, None)
                      | Some existing \<Rightarrow>
                          if (if cf_higher_priority_number_wins cfg
                              then ac_priority existing < gt_priority gt
                              else gt_priority gt < ac_priority existing)
                          then Some
                            (let release = build_call_cause CALL_GROUP_IDLE existing_id (cf_preempt_cause cfg);
                                 i1 = send_all (finsert (ac_owner existing) (ac_peers existing)) release i
                             in i1\<lparr>calls := fmdrop existing_id (calls i1)\<rparr>, Some existing_id)
                          else None)))"

definition group_targets ::
  "config \<Rightarrow> client_id \<Rightarrow> uuid \<Rightarrow> group_transmission \<Rightarrow> bool \<Rightarrow> inner \<Rightarrow> client_id fset" where
  "group_targets cfg source uid gt emergency i =
     (let t0 = (if cf_route_without_affiliations cfg then fmdom (clients i)
                else (case fmlookup (group_clients i) (gt_destination gt) of Some m \<Rightarrow> m | None \<Rightarrow> {||}));
          t1 = (if t0 = {||} \<and> \<not> cf_route_without_affiliations cfg
                   \<and> cf_fallback_broadcast_when_no_affiliations cfg
                then fmdom (clients i) else t0);
          t2 = (case fmlookup (calls i) uid of
                  Some existing \<Rightarrow>
                    if ac_owner existing = source \<and> ac_source_issi existing = gt_source gt
                    then t1 |\<union>| ffilter (is_peer i) (ac_peers existing) else t1
                | None \<Rightarrow> t1);
          t3 = (if emergency then t2 |\<union>| consoles i |\<union>| peer_clients i else t2)
      in t3 |-| {|source|})"

definition call_priority :: "bool \<Rightarrow> group_transmission \<Rightarrow> u8" where
  "call_priority emergency gt = (if emergency then max (gt_priority gt) EMERGENCY_PRIORITY else gt_priority gt)"

definition record_group_call ::
  "clock \<Rightarrow> client_id \<Rightarrow> uuid \<Rightarrow> group_transmission \<Rightarrow> bool \<Rightarrow> client_id fset \<Rightarrow> bytes \<Rightarrow> inner \<Rightarrow> inner" where
  "record_group_call ck source uid gt emergency targets raw i =
     (let i1 = i\<lparr>group_floor := fmupd (gt_destination gt) uid (group_floor i),
                 calls := fmupd uid \<lparr>ac_kind = GroupCall, ac_owner = source, ac_source_issi = gt_source gt,
                   ac_destination = gt_destination gt, ac_priority = call_priority emergency gt,
                   ac_peers = targets, ac_started_at = ck_now ck, ac_last_activity_ms = ck_ms ck\<rparr> (calls i)\<rparr>
      in note_call uid (gt_source gt) source (ck_now ck)
           (i1\<lparr>group_tx_raw := fmupd uid raw
              (fm_retain (\<lambda>c _. fmlookup (calls i1) c \<noteq> None) (group_tx_raw i1))\<rparr>))"

text \<open>Each target gets the GROUP_TX in its own layout, raised for consoles and peers when the wire
  does not say it is an emergency.\<close>

definition send_group_tx :: "group_transmission \<Rightarrow> bool \<Rightarrow> client_id fset \<Rightarrow> bytes \<Rightarrow> inner \<Rightarrow> inner" where
  "send_group_tx gt emergency targets raw i =
     (let raised = emergency \<and> gt_priority gt < EMERGENCY_PRIORITY in
      push_each (\<lambda>c cl.
        if c |\<in>| targets then
          [adapt_to_version
             (if raised \<and> (c |\<in>| consoles i \<or> cl_mode cl = Peer) then with_emergency_priority raw else raw)
             (forward_version cl)]
        else []) i)"

definition handle_group_tx :: "clock \<Rightarrow> client_id \<Rightarrow> uuid \<Rightarrow> call_payload \<Rightarrow> bytes \<Rightarrow> app \<Rightarrow> app" where
  "handle_group_tx ck source uid payload raw st =
     (case payload of
        GroupTransmission gt \<Rightarrow>
          let emergency = is_emergency_call st (gt_source gt) (gt_priority gt); i = st_inner st in
          if is_blocked st (gt_source gt) \<and> \<not> emergency then st
          else if is_peer i source \<and> is_duplicate i uid (gt_source gt) source (ck_now ck) then
            (if fmlookup (fs_links (fed i)) source \<noteq> None
             then on_inner (send_to source (build_prune uid (gt_source gt))) st else st)
          else (case arbitrate_floor (st_config st) uid gt i of
                  None \<Rightarrow> st
                | Some (i1, preempted) \<Rightarrow>
                    let targets = group_targets (st_config st) source uid gt emergency i1;
                        i2 = record_group_call ck source uid gt emergency targets raw i1;
                        i3 = send_group_tx gt emergency targets raw i2;
                        st1 = st\<lparr>st_inner := i3\<rparr>;
                        st2 = (case preempted of
                                 None \<Rightarrow> st1
                               | Some old \<Rightarrow> log_effect (BridgeTeardown old)
                                   (on_monitor (call_ended (ck_ms ck) old) st1))
                    in on_monitor (call_started (ck_ms ck) uid ''group'' (gt_source gt) (gt_destination gt)
                         (call_priority emergency gt)) st2)
      | _ \<Rightarrow> st)"

text \<open>\<open>emergency_raised\<close>: one running call of the ISSI becomes an emergency call.\<close>

definition raise_call :: "u32 \<Rightarrow> client_id fset \<Rightarrow> uuid \<Rightarrow> inner \<Rightarrow> inner" where
  "raise_call issi told uid i =
     (case fmlookup (calls i) uid of
        None \<Rightarrow> i
      | Some call \<Rightarrow>
          let new = ffilter (\<lambda>c. c \<noteq> ac_owner call \<and> c |\<notin>| ac_peers call) told;
              msg = build_group_tx uid issi (ac_destination call) EMERGENCY_PRIORITY;
              i1 = i\<lparr>calls := fmupd uid (call\<lparr>ac_priority := EMERGENCY_PRIORITY,
                       ac_peers := ac_peers call |\<union>| new\<rparr>) (calls i)\<rparr>
          in send_all (ffilter (\<lambda>c. c |\<in>| consoles i \<or> is_peer i c) (ac_peers call |\<union>| new)) msg i1)"

definition emergency_raised :: "u32 \<Rightarrow> app \<Rightarrow> app" where
  "emergency_raised issi st =
     (let i = st_inner st;
          told = consoles i |\<union>| peer_clients i;
          ids = map fst (filter (\<lambda>(_, c). ac_kind c = GroupCall \<and> ac_source_issi c = issi
                                   \<and> ac_priority c < EMERGENCY_PRIORITY) (fm_items (calls i)))
      in on_inner (fold (raise_call issi told) ids) st)"

section \<open>The end of a call\<close>

definition recipients_of :: "active_call \<Rightarrow> client_id \<Rightarrow> client_id fset" where
  "recipients_of call source =
     (if ac_kind call = PrivateCall then finsert (ac_owner call) (ac_peers call) else ac_peers call)
       |-| {|source|}"

definition drop_floor :: "uuid \<Rightarrow> active_call \<Rightarrow> inner \<Rightarrow> inner" where
  "drop_floor uid call i =
     (if ac_kind call = GroupCall \<and> fmlookup (group_floor i) (ac_destination call) = Some uid
      then i\<lparr>group_floor := fmdrop (ac_destination call) (group_floor i)\<rparr> else i)"

definition end_call :: "clock \<Rightarrow> client_id \<Rightarrow> uuid \<Rightarrow> bytes \<Rightarrow> app \<Rightarrow> app" where
  "end_call ck source uid raw st =
     (case fmlookup (calls (st_inner st)) uid of
        None \<Rightarrow> st
      | Some call \<Rightarrow>
          if \<not> (ac_owner call = source \<or> source |\<in>| ac_peers call) then st
          else if ac_kind call = GroupCall \<and> ac_owner call \<noteq> source then st
          else
            let i = st_inner st;
                i1 = drop_floor uid call (i\<lparr>calls := fmdrop uid (calls i)\<rparr>);
                i2 = note_call uid (ac_source_issi call) (ac_owner call) (ck_now ck) i1;
                i3 = send_all (recipients_of call source) raw i2
            in log_effect (BridgeTeardown uid) (on_monitor (call_ended (ck_ms ck) uid) (st\<lparr>st_inner := i3\<rparr>)))"

section \<open>Private calls\<close>

definition reject_setup :: "client_id \<Rightarrow> uuid \<Rightarrow> app \<Rightarrow> app" where
  "reject_setup source uid st =
     on_inner (send_to source (build_call_cause CALL_SETUP_REJECT uid CAUSE_CALLED_PARTY_NOT_REACHABLE)) st"

text \<open>What the set-up is about: source, destination, dialled number, service and priority.\<close>

definition setup_parties :: "call_payload \<Rightarrow> (u32 \<times> u32 \<times> rstring \<times> u8 \<times> u8) option panics" where
  "setup_parties payload =
     (case payload of
        CircularCall c \<Rightarrow> Some (Some (cc_source c, cc_destination c, cc_number c, cc_service c, cc_priority c))
      | other \<Rightarrow> map_option (map_option (\<lambda>(s, d). (s, d, [], 0, 0))) (raw_peer_pair other))"

definition dialled_number :: "rstring \<Rightarrow> u32 \<Rightarrow> rstring" where
  "dialled_number number destination =
     (let trimmed = trim number in if trimmed = [] then decimal (unat destination) else trimmed)"

text \<open>\<open>sip source_issi dialled\<close>: whether the SIP bridge takes the call.\<close>

definition setup_call ::
  "(u32 \<Rightarrow> rstring \<Rightarrow> bool) \<Rightarrow> clock \<Rightarrow> client_id \<Rightarrow> uuid \<Rightarrow> u32 \<Rightarrow> u32 \<Rightarrow> rstring \<Rightarrow> u8 \<Rightarrow> u8 \<Rightarrow> bytes \<Rightarrow> app \<Rightarrow> app" where
  "setup_call sip ck source uid source_issi destination number service priority raw st =
     (let ambience = (service = AMBIENCE_LISTENING_SERVICE);
          from_peer = is_peer (st_inner st) source
      in if from_peer \<and> is_duplicate (st_inner st) uid source_issi source (ck_now ck) then st
         else
           let st1 = on_inner (note_call uid source_issi source (ck_now ck)) st; i = st_inner st1 in
           if (is_blocked st source_issi \<or> (is_blocked st destination \<and> \<not> ambience))
              \<and> \<not> is_emergency_call st source_issi priority
           then reject_setup source uid st1
           else (case fmlookup (subscribers i) destination of
                   None \<Rightarrow>
                     if sip source_issi (dialled_number number destination)
                     then on_monitor (call_started (ck_ms ck) uid ''private'' source_issi destination priority) st1
                     else reject_setup source uid st1
                 | Some sub \<Rightarrow>
                     let target = sb_client_id sub in
                     if target = source then (if from_peer then st1 else reject_setup source uid st1)
                     else
                       let i1 = i\<lparr>calls := fmupd uid \<lparr>ac_kind = PrivateCall, ac_owner = source,
                                  ac_source_issi = source_issi, ac_destination = destination,
                                  ac_priority = priority, ac_peers = {|target|}, ac_started_at = ck_now ck,
                                  ac_last_activity_ms = ck_ms ck\<rparr> (calls i)\<rparr>;
                           bts = (case fmlookup (clients i) target of Some cl \<Rightarrow> cl_username cl | None \<Rightarrow> None);
                           i2 = push_each (\<lambda>c cl. if c = target
                                  then [adapt_to_version raw (forward_version cl)] else []) i1;
                           st2 = on_monitor (call_started (ck_ms ck) uid
                                   (if ambience then ''ambience'' else ''private'') source_issi destination priority)
                                   (st1\<lparr>st_inner := i2\<rparr>)
                       in if ambience then log_effect (AmbienceListen bts destination) st2 else st2))"

definition handle_private_setup ::
  "(u32 \<Rightarrow> rstring \<Rightarrow> bool) \<Rightarrow> clock \<Rightarrow> client_id \<Rightarrow> uuid \<Rightarrow> call_payload \<Rightarrow> bytes \<Rightarrow> app \<Rightarrow> app panics" where
  "handle_private_setup sip ck source uid payload raw st = do {
     p \<leftarrow> setup_parties payload;
     (case p of
        None \<Rightarrow> Some st
      | Some (source_issi, destination, number, service, priority) \<Rightarrow>
          Some (setup_call sip ck source uid source_issi destination number service priority raw st))
   }"

definition touch_call :: "u64 \<Rightarrow> uuid \<Rightarrow> inner \<Rightarrow> inner" where
  "touch_call now_ms uid i = i\<lparr>calls := fm_update uid (touch now_ms) (calls i)\<rparr>"

definition route_private_control :: "clock \<Rightarrow> client_id \<Rightarrow> uuid \<Rightarrow> bytes \<Rightarrow> app \<Rightarrow> app" where
  "route_private_control ck source uid raw st =
     (if get_at raw 1 = Some CALL_SETUP_REJECT then end_call ck source uid raw st
      else (case fmlookup (calls (st_inner st)) uid of
              None \<Rightarrow> st
            | Some call \<Rightarrow>
                if ac_kind call \<noteq> PrivateCall then st
                else on_inner (\<lambda>i. send_all (finsert (ac_owner call) (ac_peers call) |-| {|source|}) raw
                                 (touch_call (ck_ms ck) uid i)) st))"

section \<open>Voice and DTMF frames\<close>

definition may_send_frame :: "active_call \<Rightarrow> client_id \<Rightarrow> bool" where
  "may_send_frame call source \<longleftrightarrow>
     (if ac_kind call = GroupCall then ac_owner call = source
      else source |\<in>| ac_peers call \<or> ac_owner call = source)"

text \<open>The recipients and the state with the call touched, \<open>None\<close> when the frame is dropped.\<close>

definition call_frame_recipients ::
  "clock \<Rightarrow> client_id \<Rightarrow> uuid \<Rightarrow> inner \<Rightarrow> (client_id fset \<times> inner) option" where
  "call_frame_recipients ck source uid i =
     (case fmlookup (calls i) uid of
        None \<Rightarrow> None
      | Some call \<Rightarrow>
          if \<not> may_send_frame call source then None
          else Some (recipients_of call source, touch_call (ck_ms ck) uid i))"

definition route_call_frame :: "clock \<Rightarrow> client_id \<Rightarrow> uuid \<Rightarrow> bytes \<Rightarrow> app \<Rightarrow> app" where
  "route_call_frame ck source uid raw st =
     (case call_frame_recipients ck source uid (st_inner st) of
        None \<Rightarrow> st
      | Some (recipients, i) \<Rightarrow>
          on_monitor (voice_frame uid) (st\<lparr>st_inner := send_all recipients raw i\<rparr>))"

definition route_dtmf_frame :: "clock \<Rightarrow> client_id \<Rightarrow> uuid \<Rightarrow> bytes \<Rightarrow> app \<Rightarrow> app" where
  "route_dtmf_frame ck source uid raw st =
     (case call_frame_recipients ck source uid (st_inner st) of
        None \<Rightarrow> st
      | Some (recipients, i) \<Rightarrow> st\<lparr>st_inner := send_all recipients raw i\<rparr>)"

section \<open>Time-outs\<close>

definition expired_calls :: "instant \<Rightarrow> nat \<Rightarrow> (uuid, active_call) fmap \<Rightarrow> (uuid \<times> client_id \<times> call_kind) list" where
  "expired_calls now limit cs =
     (if limit = 0 then []
      else map (\<lambda>(uid, c). (uid, ac_owner c, ac_kind c))
             (filter (\<lambda>(_, c). limit \<le> now - ac_started_at c) (fm_items cs)))"

definition idle_calls ::
  "u64 \<Rightarrow> u64 \<Rightarrow> (client_id \<Rightarrow> bool) \<Rightarrow> (uuid, active_call) fmap \<Rightarrow> (uuid \<times> client_id \<times> call_kind) list" where
  "idle_calls now_ms limit_ms is_bridged cs =
     (if limit_ms = 0 then []
      else map (\<lambda>(uid, c). (uid, ac_owner c, ac_kind c))
             (filter (\<lambda>(_, c). \<not> is_bridged (ac_owner c) \<and> \<not> fBex (ac_peers c) is_bridged)
                (filter (\<lambda>(_, c). limit_ms \<le> idle_ms now_ms c) (fm_items cs))))"

definition is_bridged :: "inner \<Rightarrow> client_id \<Rightarrow> bool" where
  "is_bridged i c =
     (case fmlookup (clients i) c of
        Some cl \<Rightarrow> cl_mode cl = Terminal \<and> cl_remote_addr cl = None | None \<Rightarrow> False)"

definition timed_out_calls :: "clock \<Rightarrow> config \<Rightarrow> inner \<Rightarrow> (uuid \<times> client_id \<times> call_kind) list" where
  "timed_out_calls ck cfg i =
     (let v = expired_calls (ck_now ck) (1000 * unat (cf_max_call_duration_seconds cfg)) (calls i)
      in v @ filter (\<lambda>c. fst c \<notin> set (map fst v))
           (idle_calls (ck_ms ck) (cf_call_inactivity_timeout_seconds cfg * 1000) (is_bridged i) (calls i)))"

definition force_end :: "clock \<Rightarrow> uuid \<times> client_id \<times> call_kind \<Rightarrow> app \<Rightarrow> app" where
  "force_end ck c st =
     (case c of (uid, owner, kind) \<Rightarrow>
        end_call ck owner uid
          (build_call_cause (if kind = GroupCall then CALL_GROUP_IDLE else CALL_RELEASE) uid 0) st)"

text \<open>One tick of \<open>run_call_duration_sweep\<close>.\<close>

definition call_duration_sweep :: "clock \<Rightarrow> app \<Rightarrow> app" where
  "call_duration_sweep ck st =
     fold (force_end ck) (timed_out_calls ck (st_config st) (st_inner st)) st"

end
