(* ===== verification/Router_Sds.thy ===== *)
theory Router_Sds
  imports Router_Calls
begin

text \<open>
  Short data (\<open>src/src/router.rs\<close> and the network side of \<open>src/src/sms_center.rs\<close>): the
  header that opens an SDS, its payload, its report, what is kept for an offline subscriber and how
  it is delivered later, and the positions decoded from payloads on the way.
\<close>

text \<open>What the outside world answers during one packet: the clocks, the uuids drawn, the SIP bridge
  and the reading of coordinates in text.\<close>

record env =
  ev_clock :: clock
  ev_sms_id :: uuid
  ev_brew_id :: uuid
  ev_sip :: "u32 \<Rightarrow> rstring \<Rightarrow> bool"
  ev_text_position :: "rstring \<Rightarrow> (f64 \<times> f64) option"

abbreviation now_of :: "env \<Rightarrow> instant" where "now_of ev \<equiv> ck_now (ev_clock ev)"
abbreviation ms_of :: "env \<Rightarrow> u64" where "ms_of ev \<equiv> ck_ms (ev_clock ev)"

section \<open>Positions\<close>

definition advertise_if_local :: "client_id \<Rightarrow> u32 \<Rightarrow> f64 \<Rightarrow> f64 \<Rightarrow> u64 \<Rightarrow> app \<Rightarrow> app" where
  "advertise_if_local source issi lat lon at_ms st =
     (if is_peer (st_inner st) source then st
      else on_inner (advertise_ms issi lat lon at_ms (of_ascii ''brew-sds'')) st)"

definition record_position :: "env \<Rightarrow> client_id \<Rightarrow> u32 \<Rightarrow> f64 \<times> f64 \<times> rstring \<Rightarrow> app \<Rightarrow> app" where
  "record_position ev source issi p st =
     (case p of (lat, lon, note) \<Rightarrow>
        log_effect (AprsReport issi lat lon)
          (advertise_if_local source issi lat lon (ms_of ev)
             (log_effect (PositionRecorded issi lat lon (ms_of ev) note) st)))"

section \<open>SDS originated by the SMS Center\<close>

definition originate ::
  "clock \<Rightarrow> client_id \<Rightarrow> uuid \<Rightarrow> u32 \<Rightarrow> u32 \<Rightarrow> u16 \<Rightarrow> bytes \<Rightarrow> app \<Rightarrow> bool \<times> app" where
  "originate ck client brew_uuid source_issi destination length_bits data st =
     (if is_blocked st destination then (False, st)
      else if \<not> connected (st_inner st) client then (False, st)
      else
        let i = st_inner st;
            i1 = i\<lparr>sds_routes := fmupd brew_uuid
                   \<lparr>sr_source_client = SMS_CENTER_CLIENT, sr_targets = {|client|}, sr_source_issi = source_issi,
                    sr_destination = destination, sr_created_at = ck_now ck, sr_store_offline = False,
                    sr_lip_only = False, sr_held_header = None\<rparr> (sds_routes i)\<rparr>;
            i2 = send_list client [build_short_transfer brew_uuid source_issi destination,
                                   build_sds_transfer_frame brew_uuid length_bits data] i1
        in (True, on_monitor (record_sds (ck_ms ck) brew_uuid source_issi destination) (st\<lparr>st_inner := i2\<rparr>)))"

definition client_of :: "u32 \<Rightarrow> inner \<Rightarrow> client_id option" where
  "client_of issi i =
     (case fmlookup (subscribers i) issi of
        None \<Rightarrow> None
      | Some s \<Rightarrow> if connected i (sb_client_id s) then Some (sb_client_id s) else None)"

definition report_to_originator ::
  "clock \<Rightarrow> uuid \<Rightarrow> u32 \<Rightarrow> u32 \<Rightarrow> bytes \<Rightarrow> u8 \<Rightarrow> client_id option \<Rightarrow> app \<Rightarrow> app" where
  "report_to_originator ck brew_uuid source_issi destination data delivery_status via st =
     (if \<not> sc_send_status_reports (sm_cfg (st_sms st)) then st
      else (case sds_tl_info data of
              None \<Rightarrow> st
            | Some tli \<Rightarrow>
                if \<not> tl_report_requested tli then st
                else (case (case via of Some c \<Rightarrow> Some c | None \<Rightarrow> client_of source_issi (st_inner st)) of
                        None \<Rightarrow> st
                      | Some client \<Rightarrow>
                          snd (originate ck client brew_uuid destination source_issi 32
                            (build_tl_report (tl_protocol_id tli) delivery_status (tl_message_reference tli)) st))))"

text \<open>One turn of \<open>deliver_pending\<close>'s loop: whether it goes on.\<close>

definition deliver_one :: "bool \<Rightarrow> clock \<Rightarrow> uuid \<Rightarrow> u32 \<Rightarrow> app \<Rightarrow> bool \<times> app" where
  "deliver_one force ck fresh issi st =
     (case client_of issi (st_inner st) of
        None \<Rightarrow> (False, st)
      | Some client \<Rightarrow>
          (case take_next_due fresh issi force (ck_ms ck) (st_sms st) of
             (None, _) \<Rightarrow> (False, st)
           | (Some m, sms) \<Rightarrow>
               let st1 = st\<lparr>st_sms := sms\<rparr>;
                   (sent, st2) = originate ck client fresh (ss_source_issi m) (ss_destination m)
                     (ss_length_bits m) (sms_data m) st1
               in if sent then (True, st2)
                  else (False, st2\<lparr>st_sms := release fresh (st_sms st2)\<rparr>)))"

text \<open>The loop, with the clock and the uuid of each turn; \<open>None\<close> when they run out first.\<close>

fun deliver_pending :: "bool \<Rightarrow> (clock \<times> uuid) list \<Rightarrow> u32 \<Rightarrow> app \<Rightarrow> app option" where
  "deliver_pending force [] issi st = None"
| "deliver_pending force ((ck, fresh) # turns) issi st =
     (case deliver_one force ck fresh issi st of
        (True, st') \<Rightarrow> deliver_pending force turns issi st'
      | (False, st') \<Rightarrow> Some st')"

text \<open>\<open>subscriber_registered\<close>: the delivery it spawns is an effect of its own.\<close>

definition subscriber_registered :: "u32 \<Rightarrow> app \<Rightarrow> app" where
  "subscriber_registered issi st =
     (let st1 = st\<lparr>st_sms := note_known issi (st_sms st)\<rparr>
      in if has_pending_for issi (st_sms st1) then log_effect (DeliveryStarted issi) st1 else st1)"

text \<open>One tick of the SMS Center's background task up to the deliveries it spawns: reports for what
  expired and failed, each under its own uuid, then the destinations to try.\<close>

fun report_all :: "clock \<Rightarrow> u8 \<Rightarrow> (stored_sms \<times> uuid) list \<Rightarrow> app \<Rightarrow> app" where
  "report_all ck why [] st = st"
| "report_all ck why ((m, fresh) # ms) st =
     report_all ck why ms (report_to_originator ck fresh (ss_source_issi m) (ss_destination m) (sms_data m) why None st)"

definition sms_tick :: "clock \<Rightarrow> (nat \<Rightarrow> uuid) \<Rightarrow> app \<Rightarrow> app" where
  "sms_tick ck fresh st =
     (if \<not> sc_enabled (sm_cfg (st_sms st)) then st
      else
        let ((expired, failed), sms) = sms_sweep (ck_ms ck) (st_sms st);
            st1 = st\<lparr>st_sms := sms\<rparr>;
            st2 = report_all ck VALIDITY_EXPIRED_NOT_RECEIVED (zip expired (map fresh [0..<length expired])) st1;
            st3 = report_all ck DELIVERY_FAILED
                    (zip failed (map fresh [length expired..<length expired + length failed])) st2;
            due = filter (\<lambda>d. client_of d (st_inner st3) \<noteq> None)
                    (sorted_list_of_fset (due_destinations (ck_ms ck) (st_sms st3)))
        in fold (\<lambda>d. log_effect (DeliveryStarted d)) due st3)"

section \<open>The header\<close>

definition sds_targets :: "client_id \<Rightarrow> u32 \<Rightarrow> inner \<Rightarrow> client_id fset" where
  "sds_targets source destination i =
     ((case fmlookup (subscribers i) destination of Some s \<Rightarrow> {|sb_client_id s|} | None \<Rightarrow> {||})
      |\<union>| (case fmlookup (group_clients i) destination of Some m \<Rightarrow> m | None \<Rightarrow> {||})) |-| {|source|}"

definition route_sds_header ::
  "env \<Rightarrow> client_id \<Rightarrow> uuid \<Rightarrow> u32 \<Rightarrow> u32 \<Rightarrow> bool \<Rightarrow> bytes \<Rightarrow> app \<Rightarrow> app" where
  "route_sds_header ev source uid source_issi destination lip_only raw st =
     (let i = st_inner st;
          targets = sds_targets source destination i;
          store_offline = (\<not> lip_only \<and> targets = {||} \<and> fmlookup (group_clients i) destination = None
                           \<and> wants destination (st_sms st));
          i1 = i\<lparr>sds_routes := fmupd uid \<lparr>sr_source_client = source, sr_targets = targets,
                 sr_source_issi = source_issi, sr_destination = destination, sr_created_at = now_of ev,
                 sr_store_offline = store_offline, sr_lip_only = lip_only,
                 sr_held_header = (if lip_only then Some raw else None)\<rparr> (sds_routes i)\<rparr>;
          st1 = st\<lparr>st_inner := i1\<rparr>
      in if targets = {||} then st1
         else if lip_only then st1
         else on_monitor (record_sds (ms_of ev) uid source_issi destination)
                (on_inner (send_all targets raw) st1))"

definition handle_sds_header ::
  "env \<Rightarrow> client_id \<Rightarrow> uuid \<Rightarrow> call_payload \<Rightarrow> bytes \<Rightarrow> app \<Rightarrow> app panics" where
  "handle_sds_header ev source uid payload raw st =
     (case payload of
        ShortTransfer source_issi destination \<Rightarrow>
          if is_peer (st_inner st) source \<and> is_duplicate (st_inner st) uid source_issi source (now_of ev)
          then Some st
          else do {
            let st1 = on_inner (note_call uid source_issi source (now_of ev)) st;
            let lip_only = is_blocked st source_issi \<or> is_blocked st destination;
            p \<leftarrow> extract_sds_position (ev_text_position ev) raw;
            let st2 = (case p of
                         Some q \<Rightarrow> if \<not> lip_only then record_position ev source source_issi q st1 else st1
                       | None \<Rightarrow> st1);
            Some (route_sds_header ev source uid source_issi destination lip_only raw st2)
          }
      | _ \<Rightarrow> Some st)"

section \<open>The payload\<close>

definition store_offline_sds ::
  "env \<Rightarrow> client_id \<Rightarrow> uuid \<Rightarrow> u32 \<Rightarrow> u32 \<Rightarrow> bytes \<Rightarrow> app \<Rightarrow> app panics" where
  "store_offline_sds ev source uid source_issi destination raw st = do {
     r \<leftarrow> parse_brew raw;
     (case r of
        Inr (FrameMsg frame) \<Rightarrow>
          (case sms_store (ev_sms_id ev) source_issi destination (fm_length_bits frame) (fm_data frame)
                  (ms_of ev) (st_sms st) of
             (outcome, sms) \<Rightarrow>
               let st1 = st\<lparr>st_sms := sms\<rparr>;
                   report = (\<lambda>why. report_to_originator (ev_clock ev) (ev_brew_id ev) source_issi destination
                               (fm_data frame) why (Some source))
               in Some (case outcome of
                    Stored m \<Rightarrow> report (sc_stored_report_status (sm_cfg sms))
                      (on_monitor (record_sds (ms_of ev) uid source_issi destination) st1)
                  | Duplicate m \<Rightarrow> report (sc_stored_report_status (sm_cfg sms)) st1
                  | QueueFull \<Rightarrow> report DEST_QUEUE_FULL st1
                  | Skipped why \<Rightarrow> st1))
      | _ \<Rightarrow> Some st)
   }"

text \<open>What the route table says about a payload: dropped, or the source ISSI, the recipients, the
  destination to store it for and the header held back, with the route as it is left.\<close>

datatype sds_verdict =
    Drop inner
  | Deliver u32 "client_id fset" "u32 option" "(bytes \<times> u32) option" inner

definition is_lip_payload :: "bytes \<Rightarrow> bool" where
  "is_lip_payload raw \<longleftrightarrow> get_at raw 20 = Some 0x0A \<or> get_at raw 20 = Some 0x83"

definition sds_verdict_of :: "instant \<Rightarrow> client_id \<Rightarrow> uuid \<Rightarrow> bytes \<Rightarrow> inner \<Rightarrow> sds_verdict" where
  "sds_verdict_of now source uid raw i =
     (case fmlookup (sds_routes i) uid of
        Some r \<Rightarrow>
          if sr_source_client r = source then
            (if sr_lip_only r \<and> \<not> is_lip_payload raw
             then Drop (i\<lparr>sds_routes := fmdrop uid (sds_routes i)\<rparr>)
             else Deliver (sr_source_issi r) (sr_targets r)
               (if sr_store_offline r then Some (sr_destination r) else None)
               (map_option (\<lambda>h. (h, sr_destination r)) (sr_held_header r))
               (i\<lparr>sds_routes := fmupd uid (r\<lparr>sr_store_offline := False, sr_held_header := None\<rparr>) (sds_routes i)\<rparr>))
          else Drop i
      | None \<Rightarrow>
          if is_peer i source \<and> fm_any (\<lambda>(call, _) (link, at). call = uid \<and> link \<noteq> source
                                    \<and> now - at < CALL_DEDUP_WINDOW) (recent_calls i)
          then Drop i
          else Deliver 0 {||} None None i)"

definition handle_sds_transfer :: "env \<Rightarrow> client_id \<Rightarrow> uuid \<Rightarrow> bytes \<Rightarrow> app \<Rightarrow> app panics" where
  "handle_sds_transfer ev source uid raw st =
     (case sds_verdict_of (now_of ev) source uid raw (st_inner st) of
        Drop i \<Rightarrow> Some (st\<lparr>st_inner := i\<rparr>)
      | Deliver source_issi targets store_for held i \<Rightarrow> do {
          let st1 = st\<lparr>st_inner := i\<rparr>;
          let st2 = (case held of
                       Some (header, destination) \<Rightarrow>
                         on_monitor (record_sds (ms_of ev) uid source_issi destination)
                           (on_inner (send_all targets header) st1)
                     | None \<Rightarrow> st1);
          let st3 = on_inner (send_all targets raw) st2;
          st4 \<leftarrow> (case store_for of
                    Some destination \<Rightarrow> store_offline_sds ev source uid source_issi destination raw st3
                  | None \<Rightarrow> Some st3);
          p \<leftarrow> extract_sds_position (ev_text_position ev) raw;
          Some (case p of Some q \<Rightarrow> record_position ev source source_issi q st4 | None \<Rightarrow> st4)
        })"

section \<open>The report\<close>

definition handle_sds_report :: "client_id \<Rightarrow> uuid \<Rightarrow> bytes \<Rightarrow> app \<Rightarrow> app" where
  "handle_sds_report source uid raw st =
     (case fmlookup (sds_routes (st_inner st)) uid of
        None \<Rightarrow> st
      | Some r \<Rightarrow>
          if source |\<notin>| sr_targets r then st
          else
            let i = st_inner st;
                i1 = (if fcard (sr_targets r) = 1 then i\<lparr>sds_routes := fmdrop uid (sds_routes i)\<rparr> else i);
                sms = (if sr_source_client r = SMS_CENTER_CLIENT then snd (on_report uid (st_sms st)) else st_sms st);
                i2 = send_to (sr_source_client r) raw i1
            in on_monitor (record_sds_report uid) (st\<lparr>st_inner := i2, st_sms := sms\<rparr>))"

end
