(* ===== verification/Router.thy ===== *)
theory Router
  imports Router_Sds Fed_Flood
begin

text \<open>
  The packet router (\<open>src/src/router.rs\<close>): registrations and affiliations with late entry, and
  the dispatch of every received packet; the blacklist commands of dispatch consoles
  (\<open>src/src/blacklist.rs\<close>); and what happens when a connection is lost
  (\<open>cleanup_client\<close> in \<open>src/src/state.rs\<close>).
\<close>

section \<open>Registrations\<close>

text \<open>Late entry: the running group calls to one of \<open>groups\<close> take the client on; the headers it is
  sent, in order.\<close>

definition joins_late :: "inner \<Rightarrow> client_id \<Rightarrow> u32 fset \<Rightarrow> active_call \<Rightarrow> bool" where
  "joins_late i client groups call \<longleftrightarrow>
     ac_kind call = GroupCall \<and> ac_destination call |\<in>| groups \<and> ac_owner call \<noteq> client
     \<and> client |\<notin>| ac_peers call"

definition late_header :: "inner \<Rightarrow> client_id \<Rightarrow> conn_version \<Rightarrow> uuid \<times> active_call \<Rightarrow> bytes" where
  "late_header i client version c =
     (let header = (case fmlookup (group_tx_raw i) (fst c) of
                      Some raw \<Rightarrow> raw
                    | None \<Rightarrow> build_group_tx (fst c) (ac_source_issi (snd c)) (ac_destination (snd c))
                                (ac_priority (snd c)));
          header = (if client |\<in>| consoles i \<and> EMERGENCY_PRIORITY \<le> ac_priority (snd c)
                    then with_emergency_priority header else header)
      in adapt_to_version header version)"

definition late_entry :: "client_id \<Rightarrow> u32 fset \<Rightarrow> inner \<Rightarrow> bytes list \<times> inner" where
  "late_entry client groups i =
     (if groups = {||} \<or> is_peer i client then ([], i)
      else (case fmlookup (clients i) client of
              None \<Rightarrow> ([], i)
            | Some c \<Rightarrow>
                let i1 = i\<lparr>group_tx_raw := fm_retain (\<lambda>uid _. fmlookup (calls i) uid \<noteq> None) (group_tx_raw i)\<rparr>
                in (map (late_header i1 client (forward_version c))
                      (filter (\<lambda>(_, call). joins_late i1 client groups call) (fm_items (calls i1))),
                    i1\<lparr>calls := fmmap (\<lambda>call. if joins_late i1 client groups call
                        then call\<lparr>ac_peers := finsert client (ac_peers call)\<rparr> else call) (calls i1)\<rparr>)))"

definition local_subscriber ::
  "u64 \<Rightarrow> client_id \<Rightarrow> client_mode \<Rightarrow> u32 fset \<Rightarrow> inner \<Rightarrow> subscriber \<times> inner" where
  "local_subscriber now_ms source mode groups i =
     (let (reg, f) = tick now_ms (fed i)
      in (\<lparr>sb_client_id = source, sb_groups = groups, sb_mode = mode,
           sb_route = \<lparr>rt_reg = reg, rt_path = []\<rparr>\<rparr>, i\<lparr>fed := f\<rparr>))"

text \<open>The new effective entry a SUB message asks for, with the dashboard event; \<open>None\<close> when the
  message is turned away.\<close>

definition requested_entry ::
  "u64 \<Rightarrow> client_id \<Rightarrow> subscriber_message \<Rightarrow> inner \<Rightarrow> (subscriber option \<times> string option \<times> inner) option" where
  "requested_entry now_ms source msg i =
     (let mode = (case fmlookup (clients i) source of Some c \<Rightarrow> cl_mode c | None \<Rightarrow> Basestation);
          old = fmlookup (subscribers i) (sm_issi msg);
          mine = (case old of Some o' \<Rightarrow> if sb_client_id o' = source then Some o' else None | None \<Rightarrow> None)
      in if sm_msg_type msg \<in> {SUB_REGISTER, SUB_REREGISTER} then
           let (s, i1) = local_subscriber now_ms source mode
                 (case old of Some o' \<Rightarrow> sb_groups o' | None \<Rightarrow> {||}) i
           in Some (Some s, if mode = Terminal then Some ''register'' else None, i1)
         else if sm_msg_type msg = SUB_DEREGISTER then
           (case mine of
              None \<Rightarrow> None
            | Some sub \<Rightarrow> Some (None, if sb_mode sub = Terminal then Some ''deregister'' else None, i))
         else if sm_msg_type msg = SUB_AFFILIATE then
           (case old of
              Some o' \<Rightarrow>
                if sb_client_id o' \<noteq> source then None
                else Some (Some (o'\<lparr>sb_groups := sb_groups o' |\<union>| fset_of_list (sm_groups msg)\<rparr>), None, i)
            | None \<Rightarrow>
                let (s, i1) = local_subscriber now_ms source mode {||} i
                in Some (Some (s\<lparr>sb_groups := fset_of_list (sm_groups msg)\<rparr>), None, i1))
         else if sm_msg_type msg = SUB_DEAFFILIATE then
           (case mine of
              None \<Rightarrow> None
            | Some sub \<Rightarrow> Some (Some (sub\<lparr>sb_groups := sb_groups sub |-| fset_of_list (sm_groups msg)\<rparr>), None, i))
         else None)"

text \<open>The changes to the tables, in the order of the code: the new entry, a reroute after a
  deregistration, the peers told, and late entry.\<close>

definition apply_entry ::
  "client_id \<Rightarrow> subscriber_message \<Rightarrow> subscriber option \<Rightarrow> subscriber option \<Rightarrow> inner \<Rightarrow> bool \<times> inner" where
  "apply_entry source msg old new i =
     (let issi = sm_issi msg;
          i1 = set_effective issi new i;
          i2 = (if new = None then snd (reroute issi i1) else i1);
          (registered, i3) = publish issi old i2;
          joined = (if sm_msg_type msg \<in> {SUB_REGISTER, SUB_REREGISTER, SUB_AFFILIATE} then
                      (case fmlookup (subscribers i3) issi of
                         Some s \<Rightarrow> if sb_client_id s = source then sb_groups s else {||}
                       | None \<Rightarrow> {||})
                    else {||});
          (headers, i4) = late_entry source joined i3
      in (registered, send_list source headers i4))"

definition handle_subscriber :: "clock \<Rightarrow> client_id \<Rightarrow> subscriber_message \<Rightarrow> app \<Rightarrow> app" where
  "handle_subscriber ck source msg st =
     (if fmlookup (fs_links (fed (st_inner st))) source \<noteq> None then st
      else (case requested_entry (ck_ms ck) source msg (st_inner st) of
              None \<Rightarrow> st
            | Some (new, event, i1) \<Rightarrow>
                let old = fmlookup (subscribers (st_inner st)) (sm_issi msg);
                    (registered, i2) = apply_entry source msg old new i1;
                    st1 = st\<lparr>st_inner := i2\<rparr>;
                    st2 = (case event of Some k \<Rightarrow> log_effect (BrewRegistration (sm_issi msg) k) st1 | None \<Rightarrow> st1)
                in if registered then subscriber_registered (sm_issi msg) st2 else st2))"

section \<open>Blacklist commands\<close>

text \<open>What a console's JSON command says: not JSON at all, or its \<open>issi\<close> as a number and its
  \<open>action\<close> as a string, when they are.\<close>

datatype command = NotJson | Command "nat option" "rstring option"

datatype apply_error = Invalid | Save string

text \<open>\<open>saved\<close> is the outcome of writing the config file: \<open>None\<close> or the error.  The JSON texts are made by the serde_json crate: \<open>list_json list can_edit\<close> and
  \<open>error_json why\<close>.\<close>

record json_texts =
  js_list :: "u32 list \<Rightarrow> bool \<Rightarrow> rstring"
  js_error :: "string \<Rightarrow> rstring"

definition may_edit :: "client_id \<Rightarrow> app \<Rightarrow> bool" where
  "may_edit c st \<longleftrightarrow>
     c |\<in>| consoles (st_inner st) \<and>
     (case fmlookup (clients (st_inner st)) c of
        None \<Rightarrow> False
      | Some cl \<Rightarrow> (case cl_username cl of None \<Rightarrow> False | Some u \<Rightarrow> u \<in> set (cf_console_users (st_config st))))"

definition blacklist_message :: "json_texts \<Rightarrow> u32 list \<Rightarrow> bool \<Rightarrow> bytes" where
  "blacklist_message js list can_edit = build_service SERVICE_BLACKLIST (js_list js list can_edit)"

definition blacklist_error :: "json_texts \<Rightarrow> string \<Rightarrow> bytes" where
  "blacklist_error js why = build_service SERVICE_BLACKLIST (js_error js why)"

definition push_to_consoles :: "json_texts \<Rightarrow> app \<Rightarrow> app" where
  "push_to_consoles js st =
     on_inner (push_each (\<lambda>c _. if c |\<in>| consoles (st_inner st)
       then [blacklist_message js (blocked_list st) (may_edit c st)] else [])) st"

definition apply_blacklist :: "json_texts \<Rightarrow> string option \<Rightarrow> u32 \<Rightarrow> bool \<Rightarrow> app \<Rightarrow> (apply_error + unit) \<times> app" where
  "apply_blacklist js saved issi blocked st =
     (if issi = 0 \<or> 0xFFFFFF < issi then (Inl Invalid, st)
      else
        let st1 = snd (set_blocked issi blocked st);
            st2 = push_to_consoles js (log_effect (ConfigSaved (cf_blacklist_issis (config_snapshot st1))) st1)
        in (case saved of None \<Rightarrow> Inr () | Some e \<Rightarrow> Inl (Save e), st2))"

definition handle_command :: "json_texts \<Rightarrow> string option \<Rightarrow> client_id \<Rightarrow> command \<Rightarrow> app \<Rightarrow> app" where
  "handle_command js saved source cmd st =
     (let reply = (\<lambda>why. on_inner (send_to source (blacklist_error js why))) in
      if \<not> may_edit source st then reply ''not authorised to edit the blacklist'' st
      else (case cmd of
              NotJson \<Rightarrow> reply ''malformed command'' st
            | Command n action \<Rightarrow>
                let issi = (case n of Some k \<Rightarrow> if k < 2 ^ 32 then of_nat k else 0 | None \<Rightarrow> 0)
                in (case (if action = Some (of_ascii ''block'') then Some True
                          else if action = Some (of_ascii ''unblock'') then Some False else None) of
                      None \<Rightarrow> reply ''unknown action'' st
                    | Some blocked \<Rightarrow>
                        (case apply_blacklist js saved issi blocked st of
                           (Inr _, st') \<Rightarrow> st'
                         | (Inl Invalid, st') \<Rightarrow> reply ''ISSI must be 1-16777215'' st'
                         | (Inl (Save e), st') \<Rightarrow> reply (''applied, but saving the config failed: '' @ e) st'))))"

section \<open>A received packet\<close>

text \<open>Beside \<open>env\<close>: the reading of the two JSON service messages, the texts of the answers and the
  outcome of writing the config file.\<close>

record packet_env =
  pe_env :: env
  pe_rssi :: "rstring \<Rightarrow> (u32 \<times> 32 word) option"
  pe_command :: "rstring \<Rightarrow> command"
  pe_json :: json_texts
  pe_saved :: "string option"

definition handle_federation :: "clock \<Rightarrow> client_id \<Rightarrow> bytes \<Rightarrow> app \<Rightarrow> app panics" where
  "handle_federation ck source raw st = do {
     (i, registered) \<leftarrow> fed_handle (ck_ms ck) source raw (st_inner st);
     let st1 = st\<lparr>st_inner := i\<rparr>;
     Some (case registered of Some issi \<Rightarrow> subscriber_registered issi st1 | None \<Rightarrow> st1)
   }"

definition dispatch_call :: "env \<Rightarrow> client_id \<Rightarrow> bytes \<Rightarrow> call_control_message \<Rightarrow> app \<Rightarrow> app panics" where
  "dispatch_call ev source raw cc st =
     (let t = cm_call_state cc; uid = cm_identifier cc; ck = ev_clock ev in
      if t = CALL_GROUP_TX then Some (handle_group_tx ck source uid (cm_payload cc) raw st)
      else if t = CALL_SHORT_TRANSFER then handle_sds_header ev source uid (cm_payload cc) raw st
      else if t = CALL_SETUP_REQUEST then handle_private_setup (ev_sip ev) ck source uid (cm_payload cc) raw st
      else if t \<in> {CALL_SETUP_ACCEPT, CALL_SETUP_REJECT, CALL_ALERT, CALL_CONNECT_REQUEST,
                   CALL_CONNECT_CONFIRM, CALL_SIMPLEX_GRANTED, CALL_SIMPLEX_IDLE}
      then Some (route_private_control ck source uid raw st)
      else if t = CALL_GROUP_IDLE \<or> t = CALL_RELEASE then Some (end_call ck source uid raw st)
      else Some st)"

definition dispatch_frame :: "env \<Rightarrow> client_id \<Rightarrow> bytes \<Rightarrow> frame_message \<Rightarrow> app \<Rightarrow> app panics" where
  "dispatch_frame ev source raw f st =
     (let t = fm_frame_type f; uid = fm_identifier f; ck = ev_clock ev in
      if t = FRAME_SDS_TRANSFER then handle_sds_transfer ev source uid raw st
      else if t = FRAME_SDS_REPORT then Some (handle_sds_report source uid raw st)
      else if t = FRAME_TRAFFIC_CHANNEL then Some (route_call_frame ck source uid raw st)
      else if t = FRAME_DTMF then Some (route_dtmf_frame ck source uid raw st)
      else Some st)"

definition dispatch_service :: "packet_env \<Rightarrow> client_id \<Rightarrow> service_message \<Rightarrow> app \<Rightarrow> app" where
  "dispatch_service pe source sv st =
     (if sv_service_type sv = SERVICE_RSSI then
        (case pe_rssi pe (sv_json_data sv) of
           Some (issi, dbfs) \<Rightarrow> log_effect (RssiReported issi dbfs) st | None \<Rightarrow> st)
      else if sv_service_type sv = SERVICE_BLACKLIST_CMD then
        handle_command (pe_json pe) (pe_saved pe) source (pe_command pe (sv_json_data sv)) st
      else st)"

definition dispatch :: "packet_env \<Rightarrow> client_id \<Rightarrow> bytes \<Rightarrow> brew_message \<Rightarrow> app \<Rightarrow> app panics" where
  "dispatch pe source raw m st =
     (case m of
        SubscriberMsg s \<Rightarrow> Some (handle_subscriber (ev_clock (pe_env pe)) source s st)
      | CallControlMsg cc \<Rightarrow> dispatch_call (pe_env pe) source raw cc st
      | FrameMsg f \<Rightarrow> dispatch_frame (pe_env pe) source raw f st
      | ServiceMsg sv \<Rightarrow> Some (dispatch_service pe source sv st)
      | ErrorMsg _ \<Rightarrow> Some st)"

definition handle_packet :: "packet_env \<Rightarrow> client_id \<Rightarrow> bytes \<Rightarrow> app \<Rightarrow> app panics" where
  "handle_packet pe source raw st0 =
     (let ck = ev_clock (pe_env pe); st = purge_ephemeral ck st0 in
      if get_at raw 0 = Some CLASS_FEDERATION then handle_federation ck source raw st
      else do {
        let version = client_version source (st_inner st);
        r \<leftarrow> parse_with_version raw version;
        (case r of
           Inl _ \<Rightarrow> Some st
         | Inr (m, detected) \<Rightarrow>
             let st1 = (if as_u8 version < as_u8 detected
                        then on_inner (\<lambda>i. snd (promote_client_version source detected i)) st else st)
             in dispatch pe source raw m st1)
      })"

section \<open>A lost connection\<close>

definition drop_connection :: "client_id \<Rightarrow> inner \<Rightarrow> inner" where
  "drop_connection c i =
     i\<lparr>clients := fmdrop c (clients i), consoles := consoles i |-| {|c|},
        fed := (fed i)\<lparr>fs_links := fmdrop c (fs_links (fed i)),
                        fs_bts_links := fs_bts_links (fed i) |-| {|c|},
                        fs_ms_links := fs_ms_links (fed i) |-| {|c|},
                        fs_em_links := fs_em_links (fed i) |-| {|c|}\<rparr>\<rparr>"

definition affected_issis :: "client_id \<Rightarrow> bool \<Rightarrow> inner \<Rightarrow> u32 list" where
  "affected_issis c negotiated i =
     sorted_list_of_fset
       (fm_keys_where (\<lambda>_ s. sb_client_id s = c) (subscribers i) |\<union>|
        (if negotiated then fm_keys_where (\<lambda>_ offers. fmlookup offers c \<noteq> None) (fs_rib_in (fed i)) else {||}))"

definition forget_entry :: "client_id \<Rightarrow> u32 \<times> subscriber option \<Rightarrow> inner \<Rightarrow> inner" where
  "forget_entry c p i =
     (case p of (issi, old) \<Rightarrow>
        let i1 = snd (withdraw_offer issi c i) in
        (case old of
           Some o' \<Rightarrow> if sb_client_id o' = c then i1\<lparr>subscribers := fmdrop issi (subscribers i1)\<rparr> else i1
         | None \<Rightarrow> i1))"

definition drop_memberships :: "client_id \<Rightarrow> inner \<Rightarrow> inner" where
  "drop_memberships c i =
     i\<lparr>group_clients := fm_retain (\<lambda>_ m. m \<noteq> {||}) (fmmap (\<lambda>m. m |-| {|c|}) (group_clients i))\<rparr>"

definition reroute_and_publish :: "u32 \<times> subscriber option \<Rightarrow> inner \<Rightarrow> inner" where
  "reroute_and_publish p i = snd (publish (fst p) (snd p) (snd (reroute (fst p) i)))"

definition cleanup_routes :: "client_id \<Rightarrow> inner \<Rightarrow> inner" where
  "cleanup_routes c i =
     (let negotiated = (fmlookup (fs_links (fed i)) c \<noteq> None);
          i1 = drop_connection c i;
          previous = map (\<lambda>issi. (issi, fmlookup (subscribers i1) issi)) (affected_issis c negotiated i1);
          i2 = drop_memberships c (fold (forget_entry c) previous i1)
      in fold reroute_and_publish previous i2)"

definition end_involved :: "client_id \<Rightarrow> uuid \<Rightarrow> uuid list \<times> inner \<Rightarrow> uuid list \<times> inner" where
  "end_involved c uid s =
     (case s of (removed, i) \<Rightarrow>
        (case fmlookup (calls i) uid of
           None \<Rightarrow> (removed, i)
         | Some call \<Rightarrow>
             if ac_kind call = GroupCall \<and> ac_owner call \<noteq> c
             then (removed, i\<lparr>calls := fmupd uid (call\<lparr>ac_peers := ac_peers call |-| {|c|}\<rparr>) (calls i)\<rparr>)
             else
               let i1 = drop_floor uid call (i\<lparr>calls := fmdrop uid (calls i)\<rparr>);
                   msg = build_call_cause (if ac_kind call = GroupCall then CALL_GROUP_IDLE else CALL_RELEASE)
                           uid CAUSE_SWMI_REQUESTED_DISCONNECTION
               in (removed @ [uid], send_all (recipients_of call c) msg i1)))"

definition cleanup_calls :: "client_id \<Rightarrow> inner \<Rightarrow> uuid list \<times> inner" where
  "cleanup_calls c i =
     (let involved = map fst (filter (\<lambda>(_, call). ac_owner call = c \<or> c |\<in>| ac_peers call) (fm_items (calls i)));
          (removed, i1) = fold (end_involved c) involved ([], i)
      in (removed,
          i1\<lparr>sds_routes := fm_retain (\<lambda>_ r. sr_source_client r \<noteq> c \<and> c |\<notin>| sr_targets r) (sds_routes i1),
              recent_calls := fm_retain (\<lambda>_ (link, _). link \<noteq> c) (recent_calls i1)\<rparr>))"

definition cleanup_client :: "clock \<Rightarrow> client_id \<Rightarrow> app \<Rightarrow> app" where
  "cleanup_client ck c st =
     (let (removed, i) = cleanup_calls c (cleanup_routes c (st_inner st))
      in fold (\<lambda>uid s. log_effect (BridgeTeardown uid) (on_monitor (call_ended (ck_ms ck) uid) s))
           removed (st\<lparr>st_inner := i\<rparr>))"

end
