(* ===== verification/Router_Inv.thy ===== *)
theory Router_Inv
  imports Router
begin

text \<open>
  The invariant every packet, time-out and lost connection keeps: consistent routes and group
  sets (\<open>Fed_Table\<close>), well-formed calls -- a call's owner is never among those it is sent to, a
  private call has exactly one other party -- and no table naming a connection that is gone.
\<close>

section \<open>Operations that keep a predicate\<close>

locale keeps =
  fixes ok :: "'s \<Rightarrow> bool"
    and step :: "'e \<Rightarrow> 's \<Rightarrow> 's"
  assumes step_ok: "ok s \<Longrightarrow> ok (step e s)"
begin

lemma fold_ok: "ok s \<Longrightarrow> ok (fold step es s)"
  by (induction es arbitrary: s) (simp_all add: step_ok)

end

section \<open>The invariant\<close>

definition call_ok :: "client_id fset \<Rightarrow> active_call \<Rightarrow> bool" where
  "call_ok conns call \<longleftrightarrow> ac_owner call |\<notin>| ac_peers call \<and> ac_owner call |\<in>| conns
     \<and> ac_peers call |\<subseteq>| conns \<and> (ac_kind call = PrivateCall \<longrightarrow> (\<exists>p. ac_peers call = {|p|}))"

definition calls_ok :: "inner \<Rightarrow> bool" where
  "calls_ok i \<longleftrightarrow> (\<forall>uid call. fmlookup (calls i) uid = Some call \<longrightarrow> call_ok (fmdom (clients i)) call)"

definition sds_route_ok :: "client_id fset \<Rightarrow> sds_route \<Rightarrow> bool" where
  "sds_route_ok conns r \<longleftrightarrow> sr_targets r |\<subseteq>| conns \<and>
     (sr_source_client r |\<in>| conns \<or> sr_source_client r = SMS_CENTER_CLIENT)"

definition sds_ok :: "inner \<Rightarrow> bool" where
  "sds_ok i \<longleftrightarrow> (\<forall>uid r. fmlookup (sds_routes i) uid = Some r \<longrightarrow> sds_route_ok (fmdom (clients i)) r)"

definition recent_ok :: "inner \<Rightarrow> bool" where
  "recent_ok i \<longleftrightarrow> (\<forall>k link at. fmlookup (recent_calls i) k = Some (link, at) \<longrightarrow> link |\<in>| fmdom (clients i))"

definition links_ok :: "inner \<Rightarrow> bool" where
  "links_ok i \<longleftrightarrow> consoles i |\<subseteq>| fmdom (clients i) \<and> fmdom (fs_links (fed i)) |\<subseteq>| fmdom (clients i)
     \<and> (\<forall>issi s. fmlookup (subscribers i) issi = Some s \<longrightarrow> sb_client_id s |\<in>| fmdom (clients i))"

definition inner_ok :: "inner \<Rightarrow> bool" where
  "inner_ok i \<longleftrightarrow> table_ok i \<and> groups_ok i \<and> links_ok i \<and> calls_ok i \<and> sds_ok i \<and> recent_ok i"

definition app_ok :: "app \<Rightarrow> bool" where
  "app_ok st \<longleftrightarrow> inner_ok (st_inner st)"

text \<open>An operation that leaves the routes and the set of connections alone.\<close>

definition same_frame :: "inner \<Rightarrow> inner \<Rightarrow> bool" where
  "same_frame i j \<longleftrightarrow> subscribers j = subscribers i \<and> group_clients j = group_clients i \<and>
     fs_links (fed j) = fs_links (fed i) \<and> fs_rib_in (fed j) = fs_rib_in (fed i) \<and>
     fs_self_id (fed j) = fs_self_id (fed i) \<and> consoles j = consoles i \<and> fmdom (clients j) = fmdom (clients i)"

lemma same_frame_refl [simp]: "same_frame i i"
  by (simp add: same_frame_def)

lemma same_frame_trans: "same_frame i j \<Longrightarrow> same_frame j k \<Longrightarrow> same_frame i k"
  by (simp add: same_frame_def)

lemma same_frame_conns: "same_frame i j \<Longrightarrow> fmdom (clients j) = fmdom (clients i)"
  by (simp add: same_frame_def)

lemma inner_okI:
  "same_frame i j \<Longrightarrow> inner_ok i \<Longrightarrow> calls_ok j \<Longrightarrow> sds_ok j \<Longrightarrow> recent_ok j \<Longrightarrow> inner_ok j"
  using same_tables_ok [of j i] by (simp add: same_frame_def inner_ok_def links_ok_def)

text \<open>An operation that besides leaves the calls, the SDS transactions and the notes alone.\<close>

definition same_work :: "inner \<Rightarrow> inner \<Rightarrow> bool" where
  "same_work i j \<longleftrightarrow> calls j = calls i \<and> sds_routes j = sds_routes i \<and> recent_calls j = recent_calls i
     \<and> fmdom (clients j) = fmdom (clients i)"

lemma same_workD:
  assumes "same_work i j"
  shows "calls_ok j = calls_ok i" "sds_ok j = sds_ok i" "recent_ok j = recent_ok i"
  using assms by (simp_all add: same_work_def calls_ok_def sds_ok_def recent_ok_def)

lemma inner_ok_same: "same_frame i j \<Longrightarrow> same_work i j \<Longrightarrow> inner_ok i \<Longrightarrow> inner_ok j"
  by (rule inner_okI [of i]) (simp_all add: same_workD inner_ok_def)

lemma inner_ok_parts:
  "inner_ok i \<Longrightarrow> calls_ok i" "inner_ok i \<Longrightarrow> sds_ok i" "inner_ok i \<Longrightarrow> recent_ok i"
  "inner_ok i \<Longrightarrow> table_ok i" "inner_ok i \<Longrightarrow> groups_ok i" "inner_ok i \<Longrightarrow> links_ok i"
  by (simp_all add: inner_ok_def)

text \<open>The part about routes alone, which a lost connection needs before its calls are ended.\<close>

definition routes_ok :: "inner \<Rightarrow> bool" where
  "routes_ok i \<longleftrightarrow> table_ok i \<and> groups_ok i \<and> links_ok i"

lemma inner_ok_routes: "inner_ok i \<longleftrightarrow> routes_ok i \<and> calls_ok i \<and> sds_ok i \<and> recent_ok i"
  by (auto simp: inner_ok_def routes_ok_def)

lemma inner_ok_same_work: "inner_ok i \<Longrightarrow> same_work i j \<Longrightarrow> routes_ok j \<Longrightarrow> inner_ok j"
  using same_workD [of i j] by (simp add: inner_ok_routes)

lemma same_work_trans: "same_work i j \<Longrightarrow> same_work j k \<Longrightarrow> same_work i k"
  by (simp add: same_work_def)

lemma routes_ok_same: "same_frame i j \<Longrightarrow> routes_ok i \<Longrightarrow> routes_ok j"
  using same_tables_ok [of j i] by (simp add: same_frame_def routes_ok_def links_ok_def)

section \<open>Sending\<close>

lemma fmdom_push [simp]:
  "fmdom (clients (push_each f i)) = fmdom (clients i)" "fmdom (clients (send_all t p i)) = fmdom (clients i)"
  "fmdom (clients (send_list c ps i)) = fmdom (clients i)" "fmdom (clients (send_to c p i)) = fmdom (clients i)"
  by (simp_all add: push_each_def send_all_def send_list_def send_to_def)

lemma same_frame_push [simp]:
  "same_frame i (push_each f j) = same_frame i j" "same_frame i (send_all t p j) = same_frame i j"
  "same_frame i (send_list c ps j) = same_frame i j" "same_frame i (send_to c p j) = same_frame i j"
  by (simp_all add: same_frame_def send_to_def)

lemma same_work_push [simp]:
  "same_work i (push_each f j) = same_work i j" "same_work i (send_all t p j) = same_work i j"
  "same_work i (send_list c ps j) = same_work i j" "same_work i (send_to c p j) = same_work i j"
  by (simp_all add: same_work_def send_to_def)

lemma same_work_refl [simp]: "same_work i i"
  by (simp add: same_work_def)

lemma work_ok_push [simp]:
  "calls_ok (push_each f i) = calls_ok i" "calls_ok (send_all t p i) = calls_ok i"
  "calls_ok (send_list c ps i) = calls_ok i" "calls_ok (send_to c p i) = calls_ok i"
  "sds_ok (push_each f i) = sds_ok i" "sds_ok (send_all t p i) = sds_ok i"
  "sds_ok (send_list c ps i) = sds_ok i" "sds_ok (send_to c p i) = sds_ok i"
  "recent_ok (push_each f i) = recent_ok i" "recent_ok (send_all t p i) = recent_ok i"
  "recent_ok (send_list c ps i) = recent_ok i" "recent_ok (send_to c p i) = recent_ok i"
  by (rule same_workD, simp)+

lemma inner_ok_push [simp]:
  "inner_ok i \<Longrightarrow> inner_ok (push_each f i)" "inner_ok i \<Longrightarrow> inner_ok (send_all t p i)"
  "inner_ok i \<Longrightarrow> inner_ok (send_list c ps i)" "inner_ok i \<Longrightarrow> inner_ok (send_to c p i)"
  by (rule inner_ok_same [of i]; simp)+

section \<open>The small updates\<close>

lemma calls_ok_drop [intro]: "calls_ok i \<Longrightarrow> calls_ok (i\<lparr>calls := fmdrop uid (calls i)\<rparr>)"
  by (auto simp: calls_ok_def)

lemma calls_ok_upd: "calls_ok i \<Longrightarrow> call_ok (fmdom (clients i)) c \<Longrightarrow> calls_ok (i\<lparr>calls := fmupd uid c (calls i)\<rparr>)"
  by (auto simp: calls_ok_def)

lemma calls_ok_lookup:
  "calls_ok i \<Longrightarrow> fmlookup (calls i) uid = Some call \<Longrightarrow> call_ok (fmdom (clients i)) call"
  by (simp add: calls_ok_def)

lemma note_call_shape: "\<exists>m. note_call uid src link now i = i\<lparr>recent_calls := m\<rparr>"
  by (auto simp: note_call_def)

lemma recent_update_simps [simp]:
  "same_frame j (i\<lparr>recent_calls := m\<rparr>) = same_frame j i" "queue (i\<lparr>recent_calls := m\<rparr>) c = queue i c"
  "connected (i\<lparr>recent_calls := m\<rparr>) c = connected i c" "is_peer (i\<lparr>recent_calls := m\<rparr>) c = is_peer i c"
  "calls_ok (i\<lparr>recent_calls := m\<rparr>) = calls_ok i" "sds_ok (i\<lparr>recent_calls := m\<rparr>) = sds_ok i"
  by (simp_all add: same_frame_def queue_def connected_def is_peer_def sds_ok_def calls_ok_def)

lemma note_call_simps [simp]:
  "calls (note_call uid src link now i) = calls i" "same_frame j (note_call uid src link now i) = same_frame j i"
  "clients (note_call uid src link now i) = clients i" "calls_ok (note_call uid src link now i) = calls_ok i"
  "subscribers (note_call uid src link now i) = subscribers i" "group_clients (note_call uid src link now i) = group_clients i"
  "consoles (note_call uid src link now i) = consoles i" "fed (note_call uid src link now i) = fed i"
  "queue (note_call uid src link now i) c = queue i c" "is_peer (note_call uid src link now i) c = is_peer i c"
  "connected (note_call uid src link now i) c = connected i c" "sds_routes (note_call uid src link now i) = sds_routes i"
  "group_floor (note_call uid src link now i) = group_floor i" "sds_ok (note_call uid src link now i) = sds_ok i"
  by (simp_all add: note_call_def)

lemma recent_ok_note [simp]:
  "recent_ok i \<Longrightarrow> link |\<in>| fmdom (clients i) \<Longrightarrow> recent_ok (note_call uid src link now i)"
  by (auto simp: note_call_def recent_ok_def)

lemma inner_ok_note [simp]:
  "inner_ok i \<Longrightarrow> link |\<in>| fmdom (clients i) \<Longrightarrow> inner_ok (note_call uid src link now i)"
  by (rule inner_okI [of i]) (simp_all add: inner_ok_parts)

lemma drop_floor_simps [simp]:
  "calls (drop_floor uid call i) = calls i" "same_frame j (drop_floor uid call i) = same_frame j i"
  "calls_ok (drop_floor uid call i) = calls_ok i" "clients (drop_floor uid call i) = clients i"
  "queue (drop_floor uid call i) c = queue i c" "connected (drop_floor uid call i) c = connected i c"
  "subscribers (drop_floor uid call i) = subscribers i" "group_clients (drop_floor uid call i) = group_clients i"
  "fed (drop_floor uid call i) = fed i" "consoles (drop_floor uid call i) = consoles i"
  "sds_routes (drop_floor uid call i) = sds_routes i" "recent_calls (drop_floor uid call i) = recent_calls i"
  "sds_ok (drop_floor uid call i) = sds_ok i" "recent_ok (drop_floor uid call i) = recent_ok i"
  by (simp_all add: drop_floor_def same_frame_def calls_ok_def sds_ok_def recent_ok_def queue_def connected_def)

lemma calls_update_simps [simp]:
  "same_frame j (i\<lparr>calls := m\<rparr>) = same_frame j i" "clients (i\<lparr>calls := m\<rparr>) = clients i"
  "queue (i\<lparr>calls := m\<rparr>) c = queue i c" "connected (i\<lparr>calls := m\<rparr>) c = connected i c"
  "is_peer (i\<lparr>calls := m\<rparr>) c = is_peer i c" "sds_ok (i\<lparr>calls := m\<rparr>) = sds_ok i"
  "recent_ok (i\<lparr>calls := m\<rparr>) = recent_ok i"
  by (simp_all add: same_frame_def queue_def connected_def is_peer_def sds_ok_def recent_ok_def)

lemma sds_update_simps [simp]:
  "same_frame j (i\<lparr>sds_routes := m\<rparr>) = same_frame j i" "clients (i\<lparr>sds_routes := m\<rparr>) = clients i"
  "queue (i\<lparr>sds_routes := m\<rparr>) c = queue i c" "connected (i\<lparr>sds_routes := m\<rparr>) c = connected i c"
  "is_peer (i\<lparr>sds_routes := m\<rparr>) c = is_peer i c" "calls_ok (i\<lparr>sds_routes := m\<rparr>) = calls_ok i"
  "recent_ok (i\<lparr>sds_routes := m\<rparr>) = recent_ok i"
  by (simp_all add: same_frame_def queue_def connected_def is_peer_def calls_ok_def recent_ok_def)

lemma inner_ok_sds:
  "inner_ok i \<Longrightarrow> sds_ok (i\<lparr>sds_routes := m\<rparr>) \<Longrightarrow> inner_ok (i\<lparr>sds_routes := m\<rparr>)"
  by (rule inner_okI [of i]) (simp_all add: inner_ok_parts)

lemma inner_ok_calls:
  "inner_ok i \<Longrightarrow> calls_ok (i\<lparr>calls := m\<rparr>) \<Longrightarrow> inner_ok (i\<lparr>calls := m\<rparr>)"
  by (rule inner_okI [of i]) (simp_all add: inner_ok_parts)

lemma inner_ok_drop_call: "inner_ok i \<Longrightarrow> m = fmdrop uid (calls i) \<Longrightarrow> inner_ok (i\<lparr>calls := m\<rparr>)"
  by (auto intro!: inner_ok_calls calls_ok_drop simp: inner_ok_parts)

lemma inner_ok_set_call:
  "inner_ok i \<Longrightarrow> m = fmupd uid c (calls i) \<Longrightarrow> call_ok (fmdom (clients i)) c \<Longrightarrow> inner_ok (i\<lparr>calls := m\<rparr>)"
  by (auto intro!: inner_ok_calls calls_ok_upd simp: inner_ok_parts)

lemma app_ok_simps [simp]:
  "app_ok (on_monitor f st) = app_ok st" "app_ok (log_effect e st) = app_ok st"
  "app_ok (st\<lparr>st_inner := i\<rparr>) = inner_ok i" "app_ok (on_inner g st) = inner_ok (g (st_inner st))"
  "app_ok (st\<lparr>st_sms := sms\<rparr>) = app_ok st"
  by (simp_all add: app_ok_def)

lemma app_okD: "app_ok st \<Longrightarrow> inner_ok (st_inner st)"
  by (simp add: app_ok_def)

section \<open>Group calls\<close>

lemma arbitrate_floor_ok:
  assumes "arbitrate_floor cfg uid gt i = Some (j, old)" "inner_ok i"
  shows "inner_ok j" "fmdom (clients j) = fmdom (clients i)" "consoles j = consoles i"
    "group_clients j = group_clients i" "subscribers j = subscribers i"
  using assms
  by (auto simp: arbitrate_floor_def Let_def intro!: inner_ok_drop_call split: if_splits option.splits)

lemma source_not_target [simp]: "source |\<notin>| group_targets cfg source uid gt emergency i"
  by (simp add: group_targets_def Let_def)

lemma member_connected: "inner_ok i \<Longrightarrow> fmlookup (group_clients i) g = Some m \<Longrightarrow> m |\<subseteq>| fmdom (clients i)"
proof (rule fsubsetI)
  fix c assume ok: "inner_ok i" and m: "fmlookup (group_clients i) g = Some m" and c: "c |\<in>| m"
  have "uses_group i g c"
    using inner_ok_parts(5) [OF ok] m c by (auto simp: groups_ok_def member_def)
  then show "c |\<in>| fmdom (clients i)"
    using inner_ok_parts(6) [OF ok] by (auto simp: uses_group_def links_ok_def)
qed

lemma group_targets_connected:
  assumes "inner_ok i"
  shows "group_targets cfg source uid gt emergency i |\<subseteq>| fmdom (clients i)"
proof -
  have "ac_peers call |\<subseteq>| fmdom (clients i)" if "fmlookup (calls i) uid = Some call" for call
    using calls_ok_lookup [OF inner_ok_parts(1) [OF assms] that] by (simp add: call_ok_def)
  moreover have "consoles i |\<subseteq>| fmdom (clients i)"
    using assms by (simp add: inner_ok_def links_ok_def)
  moreover have "peer_clients i |\<subseteq>| fmdom (clients i)"
    by (auto simp: peer_clients_def fmlookup_dom_iff)
  ultimately show ?thesis
    using member_connected [OF assms]
    by (auto simp: group_targets_def Let_def dest: fsubsetD split: option.splits if_splits)
qed

lemma record_group_call_ok:
  assumes "inner_ok i" "source |\<notin>| targets" "source |\<in>| fmdom (clients i)" "targets |\<subseteq>| fmdom (clients i)"
  shows "inner_ok (record_group_call ck source uid gt emergency targets raw i)"
proof -
  have "inner_ok (i\<lparr>calls := fmupd uid c (calls i)\<rparr>)" if "call_ok (fmdom (clients i)) c" for c
    using assms(1) that by (auto intro: inner_ok_set_call)
  moreover have "inner_ok (j\<lparr>group_floor := f, calls := c, group_tx_raw := r\<rparr>) = inner_ok (j\<lparr>calls := c\<rparr>)" for j f c r
    using inner_ok_same [of "j\<lparr>calls := c\<rparr>" "j\<lparr>group_floor := f, calls := c, group_tx_raw := r\<rparr>"]
      inner_ok_same [of "j\<lparr>group_floor := f, calls := c, group_tx_raw := r\<rparr>" "j\<lparr>calls := c\<rparr>"]
    by (auto simp: same_frame_def same_work_def)
  ultimately show ?thesis
    using assms by (simp add: record_group_call_def Let_def call_ok_def)
qed

lemma send_group_tx_ok: "inner_ok i \<Longrightarrow> inner_ok (send_group_tx gt emergency targets raw i)"
  by (simp add: send_group_tx_def Let_def)

lemma handle_group_tx_ok:
  assumes "app_ok st" "source |\<in>| fmdom (clients (st_inner st))"
  shows "app_ok (handle_group_tx ck source uid payload raw st)"
proof (cases "\<exists>gt. payload = GroupTransmission gt")
  case True
  then obtain gt where gt: "payload = GroupTransmission gt" by blast
  show ?thesis
  proof (cases "arbitrate_floor (st_config st) uid gt (st_inner st)")
    case None
    then show ?thesis using assms app_okD [OF assms(1)] by (simp add: handle_group_tx_def gt Let_def)
  next
    case (Some p)
    then obtain i1 old where p: "arbitrate_floor (st_config st) uid gt (st_inner st) = Some (i1, old)"
      by (cases p) simp
    note i1 = arbitrate_floor_ok [OF p app_okD [OF assms(1)]]
    show ?thesis
      using assms app_okD [OF assms(1)] i1 group_targets_connected [OF i1(1)]
      by (auto simp: handle_group_tx_def gt Let_def p split: option.split
          intro!: send_group_tx_ok record_group_call_ok del: fsubsetI)
  qed
qed (use assms in \<open>simp add: handle_group_tx_def split: call_payload.split\<close>)

lemma raise_call_ok:
  assumes "inner_ok i" "told |\<subseteq>| fmdom (clients i)"
    "\<And>c. fmlookup (calls i) uid = Some c \<Longrightarrow> ac_kind c = GroupCall"
  shows "inner_ok (raise_call issi told uid i)"
proof (cases "fmlookup (calls i) uid")
  case (Some call)
  then have "call_ok (fmdom (clients i)) call" "ac_kind call = GroupCall"
    using assms calls_ok_lookup [OF inner_ok_parts(1)] by auto
  then have "call_ok (fmdom (clients i)) (call\<lparr>ac_priority := EMERGENCY_PRIORITY,
      ac_peers := ac_peers call |\<union>| ffilter (\<lambda>c. c \<noteq> ac_owner call \<and> c |\<notin>| ac_peers call) told\<rparr>)"
    using assms(2) by (auto simp: call_ok_def dest: fsubsetD)
  then show ?thesis
    using assms(1) Some by (auto simp: raise_call_def Let_def intro!: inner_ok_push inner_ok_set_call)
qed (use assms in \<open>simp add: raise_call_def\<close>)

lemma raise_call_simps [simp]:
  "fmdom (clients (raise_call issi told uid i)) = fmdom (clients i)"
  "map_option ac_kind (fmlookup (calls (raise_call issi told uid i)) u) = map_option ac_kind (fmlookup (calls i) u)"
  by (simp_all add: raise_call_def Let_def split: option.split)

lemma fold_raise_call_ok:
  assumes "inner_ok i" "told |\<subseteq>| fmdom (clients i)"
    "\<forall>uid \<in> set uids. map_option ac_kind (fmlookup (calls i) uid) = Some GroupCall"
  shows "inner_ok (fold (raise_call issi told) uids i)"
  using assms
proof (induction uids arbitrary: i)
  case (Cons uid uids)
  have "inner_ok (raise_call issi told uid i)"
    using Cons.prems by (intro raise_call_ok) auto
  moreover have "\<forall>u \<in> set uids. map_option ac_kind (fmlookup (calls (raise_call issi told uid i)) u) = Some GroupCall"
    using Cons.prems(3) unfolding raise_call_simps by simp
  ultimately show ?case
    using Cons.IH [of "raise_call issi told uid i"] Cons.prems(2) by simp
qed simp

lemma emergency_raised_ok:
  assumes "app_ok st" shows "app_ok (emergency_raised issi st)"
proof -
  have "consoles (st_inner st) |\<union>| peer_clients (st_inner st) |\<subseteq>| fmdom (clients (st_inner st))"
    using app_okD [OF assms] by (auto simp: inner_ok_def links_ok_def peer_clients_def fmlookup_dom_iff dest: fsubsetD)
  then show ?thesis
    using app_okD [OF assms] by (auto simp: emergency_raised_def Let_def intro!: fold_raise_call_ok)
qed

section \<open>The end of a call\<close>

lemma end_call_ok:
  assumes "app_ok st" shows "app_ok (end_call ck source uid raw st)"
proof (cases "fmlookup (calls (st_inner st)) uid")
  case (Some call)
  let ?i = "st_inner st"
  have ok: "inner_ok ?i" "calls_ok ?i" using assms by (simp_all add: app_okD inner_ok_parts)
  have "ac_owner call |\<in>| fmdom (clients ?i)"
    using calls_ok_lookup [OF ok(2) Some] by (simp add: call_ok_def)
  moreover have "inner_ok (drop_floor uid call (?i\<lparr>calls := fmdrop uid (calls ?i)\<rparr>))"
    using ok by (intro inner_okI [OF _ ok(1)]) (auto simp: inner_ok_parts)
  ultimately show ?thesis
    using assms Some by (auto simp: end_call_def Let_def)
qed (use assms in \<open>simp add: end_call_def\<close>)

section \<open>Private calls, frames and time-outs\<close>

lemma reject_setup_ok [simp]: "app_ok st \<Longrightarrow> app_ok (reject_setup source uid st)"
  by (simp add: reject_setup_def app_okD)

lemma setup_call_ok:
  assumes "app_ok st" "source |\<in>| fmdom (clients (st_inner st))"
  shows "app_ok (setup_call sip ck source uid issi dest number service priority raw st)"
proof -
  let ?i = "note_call uid issi source (ck_now ck) (st_inner st)"
  have i: "inner_ok ?i" using assms by (simp add: app_okD)
  have "inner_ok (?i\<lparr>calls := fmupd uid c (calls ?i)\<rparr>)" if "call_ok (fmdom (clients ?i)) c" for c
    using i that by (auto intro: inner_ok_set_call)
  moreover have "sb_client_id sub |\<in>| fmdom (clients (st_inner st))"
    if "fmlookup (subscribers (st_inner st)) dest = Some sub" for sub
    using i that by (simp add: inner_ok_def links_ok_def)
  ultimately show ?thesis
    using assms i by (simp add: setup_call_def Let_def call_ok_def split: option.split)
qed

lemma handle_private_setup_ok:
  assumes "app_ok st" "source |\<in>| fmdom (clients (st_inner st))"
    "handle_private_setup sip ck source uid payload raw st = Some st'"
  shows "app_ok st'"
  using assms setup_call_ok [OF assms(1,2)]
  by (auto simp: handle_private_setup_def bind_eq_Some_conv split: option.splits)

lemma call_ok_touch [simp]: "call_ok conns (touch now_ms call) = call_ok conns call"
  by (simp add: call_ok_def touch_def)

lemma touch_call_ok [simp]: "inner_ok i \<Longrightarrow> inner_ok (touch_call now_ms uid i)"
  unfolding touch_call_def
  by (rule inner_ok_calls) (auto simp: calls_ok_def dest!: inner_ok_parts(1) split: if_splits)

lemma route_private_control_ok: "app_ok st \<Longrightarrow> app_ok (route_private_control ck source uid raw st)"
  by (simp add: route_private_control_def end_call_ok app_okD split: option.split)

lemma frames_ok:
  assumes "app_ok st"
  shows "app_ok (route_call_frame ck source uid raw st)" "app_ok (route_dtmf_frame ck source uid raw st)"
  using app_okD [OF assms] assms
  by (simp_all add: route_call_frame_def route_dtmf_frame_def call_frame_recipients_def split: option.split)

interpretation swept: keeps app_ok "force_end ck" for ck
  by unfold_locales (simp add: force_end_def end_call_ok split: prod.split)

lemma call_duration_sweep_ok: "app_ok st \<Longrightarrow> app_ok (call_duration_sweep ck st)"
  by (simp add: call_duration_sweep_def swept.fold_ok)

end
