(* ===== verification/Router_Step.thy ===== *)
theory Router_Step
  imports Router_Inv Position_Facts
begin

text \<open>
  The invariant over short data, registrations, federation messages, lost connections and time-outs,
  the absence of panics, and the reachable states: a step relation over everything the modelled
  server reacts to, and the invariant in every state it reaches.
\<close>

section \<open>Short data\<close>

lemma inner_ok_add_sds:
  "inner_ok i \<Longrightarrow> m = fmupd uid r (sds_routes i) \<Longrightarrow> sds_route_ok (fmdom (clients i)) r \<Longrightarrow>
   inner_ok (i\<lparr>sds_routes := m\<rparr>)"
  by (rule inner_ok_sds) (auto dest!: inner_ok_parts(2) simp: sds_ok_def)

lemma inner_ok_drop_sds: "inner_ok i \<Longrightarrow> m = fmdrop uid (sds_routes i) \<Longrightarrow> inner_ok (i\<lparr>sds_routes := m\<rparr>)"
  by (rule inner_ok_sds) (auto dest!: inner_ok_parts(2) simp: sds_ok_def)

lemma sds_ok_lookup:
  "inner_ok i \<Longrightarrow> fmlookup (sds_routes i) uid = Some r \<Longrightarrow> sds_route_ok (fmdom (clients i)) r"
  by (simp add: inner_ok_def sds_ok_def)

lemma sds_route_ok_taken [simp]:
  "sds_route_ok conns (r\<lparr>sr_store_offline := b, sr_held_header := h\<rparr>) = sds_route_ok conns r"
  by (simp add: sds_route_ok_def)

lemma connected_dom: "connected i c \<longleftrightarrow> c |\<in>| fmdom (clients i)"
  by (simp add: connected_def fmlookup_dom_iff)

lemma originate_ok:
  assumes "app_ok st" shows "app_ok (snd (originate ck client uid s d n data st))"
  using app_okD [OF assms] assms
  by (auto simp: originate_def Let_def connected_dom sds_route_ok_def intro!: inner_ok_push inner_ok_add_sds)

lemma report_to_originator_ok: "app_ok st \<Longrightarrow> app_ok (report_to_originator ck uid s d data why via st)"
  by (auto simp: report_to_originator_def originate_ok split: option.split)

lemma deliver_one_ok: "app_ok st \<Longrightarrow> app_ok (snd (deliver_one force ck fresh issi st))"
  using originate_ok
  by (auto simp: deliver_one_def Let_def split: option.split prod.split) (metis app_ok_simps(5) snd_conv)+

lemma deliver_pending_ok: "app_ok st \<Longrightarrow> deliver_pending force turns issi st = Some st' \<Longrightarrow> app_ok st'"
proof (induction force turns issi st rule: deliver_pending.induct)
  case (2 force ck fresh turns issi st)
  then show ?case
    using deliver_one_ok [OF 2(2), of force ck fresh issi] by (auto split: prod.splits bool.splits)
qed simp

lemma subscriber_registered_ok [simp]: "app_ok (subscriber_registered issi st) = app_ok st"
  by (simp add: subscriber_registered_def Let_def)

lemma report_all_ok: "app_ok st \<Longrightarrow> app_ok (report_all ck why ms st)"
  by (induction ck why ms st rule: report_all.induct) (simp_all add: report_to_originator_ok)

interpretation logged: keeps app_ok "\<lambda>d. log_effect (f d)" for f :: "'a \<Rightarrow> effect"
  by unfold_locales simp

lemma sms_tick_ok: "app_ok st \<Longrightarrow> app_ok (sms_tick ck fresh st)"
  by (auto simp: sms_tick_def Let_def report_all_ok split: prod.split intro!: logged.fold_ok)

text \<open>A position recorded on the way.\<close>

lemma advertise_ms_same:
  "same_frame i (advertise_ms issi lat lon at station i)" "same_work i (advertise_ms issi lat lon at station i)"
  by (auto simp: advertise_ms_def relay_ms_def relay_to_def same_frame_def same_work_def Let_def split: option.split)

lemma record_position_ok: "app_ok st \<Longrightarrow> app_ok (record_position ev source issi p st)"
  by (auto simp: record_position_def advertise_if_local_def app_okD split: prod.split
      intro!: inner_ok_same [OF advertise_ms_same])

lemma record_position_clients [simp]:
  "fmdom (clients (st_inner (record_position ev source issi p st))) = fmdom (clients (st_inner st))"
  using advertise_ms_same(2) [of "st_inner st"]
  by (auto simp: record_position_def advertise_if_local_def same_work_def split: prod.split)

lemma sds_targets_connected: "inner_ok i \<Longrightarrow> sds_targets source d i |\<subseteq>| fmdom (clients i)"
  using member_connected [of i d] inner_ok_parts(6) [of i]
  by (auto simp: sds_targets_def links_ok_def split: option.split dest: fsubsetD)

lemma route_sds_header_ok:
  assumes "app_ok st" "source |\<in>| fmdom (clients (st_inner st))"
  shows "app_ok (route_sds_header ev source uid s d lip raw st)"
  using app_okD [OF assms(1)] assms(2) sds_targets_connected [OF app_okD [OF assms(1)], of source d]
  by (auto simp: route_sds_header_def Let_def sds_route_ok_def intro!: inner_ok_push inner_ok_add_sds del: fsubsetI)

lemma handle_sds_header_ok:
  assumes "app_ok st" "source |\<in>| fmdom (clients (st_inner st))"
    "handle_sds_header ev source uid payload raw st = Some st'"
  shows "app_ok st'"
proof (cases "\<exists>s d. payload = ShortTransfer s d")
  case True
  then obtain s d where p: "payload = ShortTransfer s d" by blast
  define st1 where "st1 = on_inner (note_call uid s source (now_of ev)) st"
  have st1: "app_ok st1" "source |\<in>| fmdom (clients (st_inner st1))"
    using assms(1,2) by (simp_all add: st1_def app_okD)
  consider "st' = st"
    | b where "st' = route_sds_header ev source uid s d b raw st1"
    | b q where "st' = route_sds_header ev source uid s d b raw (record_position ev source s q st1)"
    using assms(3) unfolding p handle_sds_header_def call_payload.case Let_def st1_def [symmetric]
    by (cases "extract_sds_position (ev_text_position ev) raw") (auto split: if_splits option.splits)
  then show ?thesis
    using st1 assms(1) by cases (simp_all add: route_sds_header_ok record_position_ok)
qed (use assms in \<open>auto simp: handle_sds_header_def split: call_payload.splits\<close>)

lemma store_offline_sds_ok:
  assumes "app_ok st" "store_offline_sds ev source uid s d raw st = Some st'"
  shows "app_ok st'"
proof -
  obtain r where r: "parse_brew raw = Some r"
    using assms(2) by (auto simp: store_offline_sds_def bind_eq_Some_conv)
  show ?thesis
  proof (cases "\<exists>frame. r = Inr (FrameMsg frame)")
    case True
    then obtain frame where f: "r = Inr (FrameMsg frame)" by blast
    obtain outcome sms where "sms_store (ev_sms_id ev) s d (fm_length_bits frame) (fm_data frame) (ms_of ev) (st_sms st)
        = (outcome, sms)" by (cases "sms_store (ev_sms_id ev) s d (fm_length_bits frame) (fm_data frame) (ms_of ev) (st_sms st)")
    with assms r f show ?thesis
      by (cases outcome) (auto simp: store_offline_sds_def Let_def intro!: report_to_originator_ok)
  next
    case False
    with assms r show ?thesis
      by (auto simp: store_offline_sds_def split: sum.splits brew_message.splits)
  qed
qed

lemma sds_verdict_ok:
  assumes "inner_ok i"
  shows "sds_verdict_of now source uid raw i = Drop j \<Longrightarrow> inner_ok j"
    "sds_verdict_of now source uid raw i = Deliver s t f h j \<Longrightarrow> inner_ok j"
proof -
  show "sds_verdict_of now source uid raw i = Drop j \<Longrightarrow> inner_ok j"
    using assms by (auto simp: sds_verdict_of_def intro!: inner_ok_drop_sds split: option.splits if_splits)
  show "sds_verdict_of now source uid raw i = Deliver s t f h j \<Longrightarrow> inner_ok j"
    using assms sds_ok_lookup [OF assms, of uid]
    by (auto simp: sds_verdict_of_def intro!: inner_ok_add_sds split: option.splits if_splits)
qed

lemma handle_sds_transfer_ok:
  assumes "app_ok st" "handle_sds_transfer ev source uid raw st = Some st'"
  shows "app_ok st'"
proof (cases "sds_verdict_of (now_of ev) source uid raw (st_inner st)")
  case (Drop j)
  with assms sds_verdict_ok(1) [OF app_okD [OF assms(1)] Drop] show ?thesis by (auto simp: handle_sds_transfer_def)
next
  case (Deliver s t f h j)
  define st3 where "st3 = on_inner (send_all t raw) (case h of Some (header, d) \<Rightarrow>
      on_monitor (record_sds (ms_of ev) uid s d) (on_inner (send_all t header) (st\<lparr>st_inner := j\<rparr>)) | None \<Rightarrow> st\<lparr>st_inner := j\<rparr>)"
  have st3: "app_ok st3"
    using sds_verdict_ok(2) [OF app_okD [OF assms(1)] Deliver]
    by (auto simp: st3_def split: option.split)
  have "(case f of Some d \<Rightarrow> store_offline_sds ev source uid s d raw st3 | None \<Rightarrow> Some st3) \<bind>
      (\<lambda>st4. extract_sds_position (ev_text_position ev) raw \<bind>
        (\<lambda>p. Some (case p of Some q \<Rightarrow> record_position ev source s q st4 | None \<Rightarrow> st4))) = Some st'"
    using assms(2) Deliver unfolding handle_sds_transfer_def st3_def by (simp add: Let_def)
  then obtain st4 p where st4: "(case f of Some d \<Rightarrow> store_offline_sds ev source uid s d raw st3 | None \<Rightarrow> Some st3) = Some st4"
    "st' = (case p of Some q \<Rightarrow> record_position ev source s q st4 | None \<Rightarrow> st4)"
    by (elim bind_SomeE) (rule that, assumption, drule option.inject [THEN iffD1], erule sym)
  have "app_ok st4"
    using st4(1) st3 store_offline_sds_ok by (auto split: option.splits)
  then show ?thesis by (simp add: st4(2) record_position_ok split: option.split)
qed

lemma handle_sds_report_ok: "app_ok st \<Longrightarrow> app_ok (handle_sds_report source uid raw st)"
  using app_okD [of st]
  by (auto simp: handle_sds_report_def Let_def app_ok_def intro!: inner_ok_push inner_ok_drop_sds split: option.split)

section \<open>Registrations\<close>

lemma set_effective_fields' [simp]:
  "clients (set_effective issi new i) = clients i" "calls (set_effective issi new i) = calls i"
  "sds_routes (set_effective issi new i) = sds_routes i" "recent_calls (set_effective issi new i) = recent_calls i"
  "fed (set_effective issi new i) = fed i" "consoles (set_effective issi new i) = consoles i"
  using set_effective_shape [of issi new i] by auto

lemma same_work_set_effective [simp]: "same_work i (set_effective issi new i)"
  by (simp add: same_work_def)

lemma set_effective_routes:
  assumes "routes_ok i" "\<And>s. new = Some s \<Longrightarrow> entry_ok (fed i) s \<and> sb_client_id s |\<in>| fmdom (clients i)"
  shows "routes_ok (set_effective issi new i)"
  using assms set_effective_groups_ok [of i issi new]
  by (auto simp: routes_ok_def table_ok_def links_ok_def subscribers_set_effective)

lemma reroute_routes: assumes "routes_ok i" shows "routes_ok (snd (reroute issi i))"
proof -
  have "entry_ok (fed i) s \<and> sb_client_id s |\<in>| fmdom (clients i)" if "best_entry issi i = Some s" for s
  proof -
    have "local_part issi i = Some s \<or> (\<exists>link a. offered (fmlookup (fs_rib_in (fed i)) issi) link a \<and> s = remote_entry link a)"
      using best_entry_cases [of issi i] that by auto
    then show ?thesis
      using assms entry_ok_remote
      by (fastforce simp: routes_ok_def table_ok_def rib_ok_def links_ok_def local_part_def offer_ok_def remote_entry_def
          fmlookup_dom_iff split: option.splits if_splits dest: fsubsetD)
  qed
  then show ?thesis
    using assms set_effective_routes by (simp add: reroute_eq)
qed

lemma same_work_reroute [simp]: "same_work i (snd (reroute issi i))"
  by (simp add: reroute_eq)

lemma reroute_ok: "inner_ok i \<Longrightarrow> inner_ok (snd (reroute issi i))"
  using inner_ok_same_work [OF _ same_work_reroute] reroute_routes inner_ok_routes by blast

lemma publish_frame [simp]:
  "same_frame i (snd (publish issi old i))" "same_work i (snd (publish issi old i))"
  by (simp_all add: publish_def Let_def)

lemma publish_ok: "inner_ok i \<Longrightarrow> inner_ok (snd (publish issi old i))"
  by (rule inner_ok_same) simp_all

lemma set_effective_ok:
  assumes "inner_ok i" "\<And>s. new = Some s \<Longrightarrow> entry_ok (fed i) s \<and> sb_client_id s |\<in>| fmdom (clients i)"
  shows "inner_ok (set_effective issi new i)"
  using assms inner_ok_same_work [OF assms(1) same_work_set_effective] set_effective_routes
  by (simp add: inner_ok_routes)

lemma withdraw_offer_work [simp]: "same_work i (snd (withdraw_offer issi link i))"
  by (auto simp: withdraw_offer_def same_work_def Let_def split: option.split)

lemma withdraw_offer_links: "links_ok i \<Longrightarrow> links_ok (snd (withdraw_offer issi link i))"
  by (auto simp: withdraw_offer_def links_ok_def Let_def split: option.split)

lemma withdraw_offer_routes: "routes_ok i \<Longrightarrow> routes_ok (snd (withdraw_offer issi link i))"
  using withdraw_offer_table_ok withdraw_offer_links groups_ok_cong [of "snd (withdraw_offer issi link i)" i]
  by (simp add: routes_ok_def)

lemma late_entry_ok:
  assumes "inner_ok i" shows "inner_ok (snd (late_entry client groups i))"
proof (cases "fmlookup (clients i) client")
  case (Some c)
  then have c: "client |\<in>| fmdom (clients i)" by (simp add: fmlookup_dom_iff)
  have "call_ok (fmdom (clients i)) (call\<lparr>ac_peers := finsert client (ac_peers call)\<rparr>)"
    if "joins_late j client groups call" "call_ok (fmdom (clients i)) call" for j call
    using that c by (auto simp: call_ok_def joins_late_def)
  moreover have "inner_ok (i\<lparr>group_tx_raw := t, calls := m\<rparr>) = inner_ok (i\<lparr>calls := m\<rparr>)" for t m
    using inner_ok_same [of "i\<lparr>calls := m\<rparr>" "i\<lparr>group_tx_raw := t, calls := m\<rparr>"]
      inner_ok_same [of "i\<lparr>group_tx_raw := t, calls := m\<rparr>" "i\<lparr>calls := m\<rparr>"]
    by (auto simp: same_frame_def same_work_def)
  ultimately show ?thesis
    using assms Some inner_ok_parts(1) [OF assms]
    by (auto simp: late_entry_def Let_def calls_ok_def intro!: inner_ok_calls split: if_splits)
qed (use assms in \<open>simp add: late_entry_def\<close>)

lemma local_subscriber_ok:
  assumes "inner_ok i" "local_subscriber now source mode groups i = (s, j)"
  shows "inner_ok j" "sb_client_id s = source" "rt_path (sb_route s) = []" "clients j = clients i"
    "fs_links (fed j) = fs_links (fed i)" "fs_self_id (fed j) = fs_self_id (fed i)"
proof -
  have "same_frame i j" "same_work i j"
    using assms(2) by (auto simp: local_subscriber_def tick_def Let_def same_frame_def same_work_def)
  then show "inner_ok j" using assms(1) by (rule inner_ok_same)
qed (use assms(2) in \<open>auto simp: local_subscriber_def tick_def Let_def\<close>)

lemma requested_entry_ok:
  assumes "inner_ok i" "fmlookup (fs_links (fed i)) source = None" "source |\<in>| fmdom (clients i)"
    "requested_entry now source msg i = Some (new, event, j)"
  shows "inner_ok j" "new = Some s \<Longrightarrow> entry_ok (fed j) s \<and> sb_client_id s |\<in>| fmdom (clients j)"
proof -
  have old: "entry_ok (fed i) s" "sb_client_id s |\<in>| fmdom (clients i)"
    if "fmlookup (subscribers i) issi = Some s" for issi s
    using assms(1) that by (auto simp: inner_ok_def table_ok_def links_ok_def)
  have groups: "entry_ok f (s\<lparr>sb_groups := g\<rparr>) = entry_ok f s" for f s g
    by (simp add: entry_ok_def split: option.split)
  have "(new = None \<and> j = i) \<or>
    (\<exists>o' g. fmlookup (subscribers i) (sm_issi msg) = Some o' \<and> new = Some (o'\<lparr>sb_groups := g\<rparr>) \<and> j = i) \<or>
    (\<exists>mode g g' s. local_subscriber now source mode g i = (s, j) \<and> (new = Some s \<or> new = Some (s\<lparr>sb_groups := g'\<rparr>)))"
    using assms(4) unfolding requested_entry_def Let_def
    by (simp split: if_splits option.splits prod.splits) blast+
  then have "inner_ok j \<and> (\<forall>s. new = Some s \<longrightarrow> entry_ok (fed j) s \<and> sb_client_id s |\<in>| fmdom (clients j))"
  proof (elim disjE exE conjE)
    fix mode g g' s assume l: "local_subscriber now source mode g i = (s, j)"
    note l = local_subscriber_ok [OF assms(1) l]
    have "entry_ok (fed j) s" using l assms(2) by (simp add: entry_ok_def)
    then show ?thesis if "new = Some s" using that l assms(3) by simp
    show ?thesis if "new = Some (s\<lparr>sb_groups := g'\<rparr>)"
      using that l assms(3) \<open>entry_ok (fed j) s\<close> by (simp add: groups)
  qed (use assms(1) old groups in auto)
  then show "inner_ok j" "new = Some s \<Longrightarrow> entry_ok (fed j) s \<and> sb_client_id s |\<in>| fmdom (clients j)" by auto
qed

lemma apply_entry_ok:
  assumes "inner_ok i" "\<And>s. new = Some s \<Longrightarrow> entry_ok (fed i) s \<and> sb_client_id s |\<in>| fmdom (clients i)"
  shows "inner_ok (snd (apply_entry source msg old new i))"
proof -
  define i2 where "i2 = (if new = None then snd (reroute (sm_issi msg) (set_effective (sm_issi msg) new i))
    else set_effective (sm_issi msg) new i)"
  have "inner_ok i2"
    using set_effective_ok [OF assms] by (simp add: i2_def reroute_ok)
  then have "inner_ok (snd (publish (sm_issi msg) old i2))" by (rule publish_ok)
  then obtain r i3 where p: "publish (sm_issi msg) old i2 = (r, i3)" "inner_ok i3"
    by (cases "publish (sm_issi msg) old i2") simp
  have "inner_ok (send_list source h (snd (late_entry source joined i3)))" for h joined
    using late_entry_ok [OF p(2)] by simp
  then show ?thesis
    unfolding apply_entry_def Let_def i2_def [symmetric] p by (simp add: case_prod_beta)
qed

lemma handle_subscriber_ok:
  assumes "app_ok st" "source |\<in>| fmdom (clients (st_inner st))"
  shows "app_ok (handle_subscriber ck source msg st)"
proof (cases "fmlookup (fs_links (fed (st_inner st))) source")
  case None
  show ?thesis
  proof (cases "requested_entry (ck_ms ck) source msg (st_inner st)")
    case (Some p)
    obtain new event i1 where p: "p = (new, event, i1)" by (cases p)
    note i1 = requested_entry_ok [OF app_okD [OF assms(1)] None assms(2) Some [unfolded p]]
    obtain r i2 where r: "apply_entry source msg (fmlookup (subscribers (st_inner st)) (sm_issi msg)) new i1 = (r, i2)"
      by (cases "apply_entry source msg (fmlookup (subscribers (st_inner st)) (sm_issi msg)) new i1")
    have "inner_ok (snd (apply_entry source msg (fmlookup (subscribers (st_inner st)) (sm_issi msg)) new i1))"
      by (rule apply_entry_ok) (use i1 in auto)
    then have "inner_ok i2" by (simp add: r)
    then show ?thesis
      using None Some p r assms by (cases event) (simp_all add: handle_subscriber_def Let_def)
  qed (use None assms in \<open>simp add: handle_subscriber_def\<close>)
qed (use assms in \<open>simp add: handle_subscriber_def\<close>)

section \<open>Federation messages\<close>

lemma add_offer_routes:
  "routes_ok i \<Longrightarrow> offer_ok (fed i) source a \<Longrightarrow> routes_ok (add_offer reg source issi a i)"
  using add_offer_table_ok [of i source a reg issi] groups_ok_cong [of "add_offer reg source issi a i" i]
  by (simp add: routes_ok_def links_ok_def) (simp add: add_offer_def)

lemma add_offer_work [simp]: "same_work i (add_offer reg source issi a i)"
  by (simp add: add_offer_def same_work_def)

lemma settle_routes:
  assumes "routes_ok i" shows "routes_ok (fst (settle issi old i)) \<and> same_work i (fst (settle issi old i))"
proof -
  obtain b i2 where r: "reroute issi i = (b, i2)" by (cases "reroute issi i")
  obtain d i3 where p: "publish issi old i2 = (d, i3)" by (cases "publish issi old i2")
  have "routes_ok i2" "same_work i i2"
    using reroute_routes [OF assms, of issi] same_work_reroute [of i issi] by (simp_all add: r)
  moreover have "routes_ok i3" "same_work i2 i3"
    using routes_ok_same [OF publish_frame(1) \<open>routes_ok i2\<close>, of issi old] publish_frame(2) [of i2 issi old]
    by (simp_all add: p)
  ultimately show ?thesis
    using same_work_trans by (auto simp: settle_def r p)
qed

lemma handle_message_inner_ok:
  assumes "inner_ok i" "fmlookup (fs_links (fed i)) source = Some nbr"
    "\<And>p. message_path m = Some p \<Longrightarrow> good_path nbr p"
  shows "inner_ok (fst (handle_message now source nbr m i))"
proof -
  have i: "routes_ok i" using assms(1) by (simp add: inner_ok_routes)
  have accepted: "inner_ok (accept_em now source a i)" "inner_ok (accept_ms source b i)" "inner_ok (accept_bts now source c i)"
    "inner_ok (handle_hello now source nbr v i)" for a b c v
    by (rule inner_ok_same [OF _ _ assms(1)],
        auto simp: accept_em_def accept_ms_def accept_bts_def relay_em_def relay_ms_def relay_bts_def relay_to_def
          handle_hello_def same_frame_def same_work_def Let_def)+
  show ?thesis
  proof (cases m)
    case (FedRoute issi a)
    define i1 where "i1 = (if ad_reg a > saturating_add now MAX_FUTURE_MS \<or> fs_self_id (fed i) \<in> set (ad_path a)
        then snd (withdraw_offer issi source i) else add_offer (ad_reg a) source issi a i)"
    have "routes_ok i1" "same_work i i1"
      using i assms FedRoute withdraw_offer_routes add_offer_routes
      by (auto simp: i1_def offer_ok_def message_path_def)
    moreover have "handle_message now source nbr m i = settle issi (fmlookup (subscribers i) issi) i1"
      by (simp add: FedRoute handle_message_def handle_route_def settle_def i1_def add_offer_def Let_def)
    ultimately show ?thesis
      using settle_routes [of i1 issi "fmlookup (subscribers i) issi"] inner_ok_same_work [OF assms(1)] same_work_trans
      by metis
  next
    case (FedWithdraw issi)
    obtain had i1 where w: "withdraw_offer issi source i = (had, i1)" by (cases "withdraw_offer issi source i")
    have "routes_ok i1" "same_work i i1"
      using withdraw_offer_routes [OF i, of issi source] withdraw_offer_work [of i issi source] by (simp_all add: w)
    moreover have "handle_message now source nbr m i =
        (if had then settle issi (fmlookup (subscribers i) issi) i1 else (i1, None))"
      by (simp add: FedWithdraw handle_message_def handle_withdraw_def settle_def w)
    ultimately show ?thesis
      using settle_routes [of i1 issi "fmlookup (subscribers i) issi"] inner_ok_same_work [OF assms(1)] same_work_trans
      by (metis fst_conv)
  next
    case (FedPrune uid src)
    have "call_ok conns (call\<lparr>ac_peers := ac_peers call |-| {|source|}\<rparr>)"
      if "call_ok conns call" "ac_kind call = GroupCall" for conns call
      using that by (auto simp: call_ok_def)
    then show ?thesis
      using assms(1) inner_ok_parts(1) [OF assms(1)]
      by (auto simp: FedPrune handle_message_def handle_prune_def calls_ok_def intro!: inner_ok_calls split: if_splits)
  qed (use assms(1) accepted in \<open>simp_all add: handle_message_def\<close>)
qed

lemma fed_handle_ok:
  assumes "inner_ok i"
  shows "\<exists>j r. fed_handle now source raw i = Some (j, r) \<and> inner_ok j"
proof (cases "fmlookup (fs_links (fed i)) source")
  case None
  with assms show ?thesis by (simp add: fed_handle_def)
next
  case (Some nbr)
  obtain r where r: "fed_parse raw nbr = Some r"
    using fed_parse_total [of raw nbr] by (cases "fed_parse raw nbr") auto
  show ?thesis
  proof (cases r)
    case (Inl why)
    with Some r assms show ?thesis by (simp add: fed_handle_def)
  next
    case (Inr m)
    have "\<And>p. message_path m = Some p \<Longrightarrow> good_path nbr p"
      using parsed_path_good [of raw nbr m] r Inr by simp
    with Some r Inr handle_message_inner_ok [OF assms Some, of m now] show ?thesis
      by (cases "handle_message now source nbr m i") (simp add: fed_handle_def)
  qed
qed

end
