(* ===== verification/Sessions.thy ===== *)
theory Sessions
  imports Router
begin

text \<open>
  The life of a connection: a new one is entered and, a peer link, queued everything this server
  knows (\<open>attach_client\<close> in \<open>src/src/federation.rs\<close>); a session begins that way and notes a
  dispatch console (\<open>client_session\<close> in \<open>src/src/server.rs\<close>).  A session then hands every
  binary message to \<open>handle_packet\<close> and ends with \<open>cleanup_client\<close>.
\<close>

definition attach_client :: "client_id \<Rightarrow> client \<Rightarrow> u64 option \<Rightarrow> inner \<Rightarrow> inner" where
  "attach_client c cl neighbour i =
     (let i1 = i\<lparr>clients := fmupd c cl (clients i)\<rparr>;
          i2 = (case neighbour of
                  None \<Rightarrow> i1
                | Some n \<Rightarrow> send_to c build_bts_hello
                    (i1\<lparr>fed := (fed i1)\<lparr>fs_links := fmupd c n (fs_links (fed i1))\<rparr>\<rparr>))
      in if cl_mode cl = Peer then send_list c (sync_messages c i2) i2 else i2)"

text \<open>The record a WebSocket session starts with: \<open>seed_version\<close> is what the handshake announced.\<close>

definition session_client ::
  "client_mode \<Rightarrow> conn_version option \<Rightarrow> socket_addr \<Rightarrow> u64 \<Rightarrow> rstring option \<Rightarrow> client" where
  "session_client mode seed_version remote_addr now_ms username =
     \<lparr>cl_tx = [], cl_mode = mode, cl_version = (case seed_version of Some v \<Rightarrow> v | None \<Rightarrow> V0),
      cl_version_announced = (seed_version \<noteq> None), cl_remote_addr = Some remote_addr,
      cl_connected_at_ms = now_ms, cl_username = username\<rparr>"

definition open_session ::
  "client_id \<Rightarrow> client_mode \<Rightarrow> conn_version option \<Rightarrow> socket_addr \<Rightarrow> u64 \<Rightarrow> rstring option \<Rightarrow> u64 option \<Rightarrow>
   bool \<Rightarrow> app \<Rightarrow> app" where
  "open_session c mode seed_version remote_addr now_ms username fed_neighbour console st =
     on_inner (\<lambda>i.
       let i1 = attach_client c (session_client mode seed_version remote_addr now_ms username) fed_neighbour i
       in if console then i1\<lparr>consoles := finsert c (consoles i1)\<rparr> else i1) st"

end
