(* ===== verification/Router_Reach.thy ===== *)
theory Router_Reach
  imports Router_Step Sessions
begin

text \<open>
  The server as a state machine: everything the modelled part reacts to is a step, and the states it
  reaches from start-up keep the invariant of \<open>Router_Inv\<close>.
\<close>

section \<open>Packets\<close>

lemma console_commands_ok [simp]:
  "app_ok st \<Longrightarrow> app_ok (push_to_consoles js st)"
  "app_ok st \<Longrightarrow> app_ok (handle_command js saved source cmd st)"
proof -
  show push: "app_ok (push_to_consoles js st)" if "app_ok st" for st
    using that by (simp add: push_to_consoles_def app_okD)
  have set: "app_ok (snd (set_blocked issi b st)) = app_ok st" for issi b st
    by (simp add: set_blocked_def app_ok_def)
  have app: "app_ok (snd (apply_blacklist js saved issi b st))" if "app_ok st" for issi b st
    using that by (simp add: apply_blacklist_def Let_def push set)
  have reply: "app_ok (on_inner (send_to source (blacklist_error js why)) st)" if "app_ok st" for why st
    using that by (simp add: app_okD)
  show "app_ok (handle_command js saved source cmd st)" if "app_ok st"
  proof (cases "may_edit source st \<and> cmd \<noteq> NotJson")
    case True
    then obtain n action where cmd: "cmd = Command n action" by (cases cmd) auto
    define b where "b = (if action = Some (of_ascii ''block'') then Some True
      else if action = Some (of_ascii ''unblock'') then Some False else None)"
    define issi :: u32 where "issi = (case n of Some k \<Rightarrow> if k < 2 ^ 32 then of_nat k else 0 | None \<Rightarrow> 0)"
    show ?thesis
    proof (cases b)
      case (Some blocked)
      obtain r st' where r: "apply_blacklist js saved issi blocked st = (r, st')"
        by (cases "apply_blacklist js saved issi blocked st")
      have "app_ok st'" using app [OF that, of issi blocked] r by simp
      then show ?thesis
        using True reply unfolding handle_command_def Let_def cmd
        by (simp add: r Some flip: b_def issi_def split: sum.split apply_error.split)
    qed (use True that reply in \<open>simp add: handle_command_def Let_def cmd flip: b_def\<close>)
  qed (use that reply in \<open>auto simp: handle_command_def Let_def\<close>)
qed

lemma purge_ok [simp]: assumes "app_ok st" shows "app_ok (purge_ephemeral ck st)"
proof -
  have "inner_ok (purge_tables cfg ck i)" if "inner_ok i" for cfg i
  proof (rule inner_okI [OF _ that])
    show "same_frame i (purge_tables cfg ck i)" "calls_ok (purge_tables cfg ck i)"
      using inner_ok_parts(1) [OF that]
      by (auto simp: purge_tables_def purge_bts_def same_frame_def Let_def calls_ok_def)
    show "sds_ok (purge_tables cfg ck i)" "recent_ok (purge_tables cfg ck i)"
      using inner_ok_parts(2,3) [OF that]
      by (auto simp: purge_tables_def purge_bts_def Let_def sds_ok_def recent_ok_def
          split: if_splits option.splits) blast
  qed
  then show ?thesis using assms by (simp add: purge_ephemeral_def app_okD)
qed

lemma purge_clients [simp]: "clients (st_inner (purge_ephemeral ck st)) = clients (st_inner st)"
  by (simp add: purge_ephemeral_def purge_tables_def purge_bts_def Let_def)

lemma promote_ok:
  "inner_ok i \<Longrightarrow> inner_ok (snd (promote_client_version c v i))"
  "fmdom (clients (snd (promote_client_version c v i))) = fmdom (clients i)"
proof -
  have "same_frame i (snd (promote_client_version c v i))" "same_work i (snd (promote_client_version c v i))"
    by (auto simp: promote_client_version_def same_frame_def same_work_def fmlookup_dom_iff split: option.split)
  then show "inner_ok i \<Longrightarrow> inner_ok (snd (promote_client_version c v i))"
    "fmdom (clients (snd (promote_client_version c v i))) = fmdom (clients i)"
    by (auto intro: inner_ok_same simp: same_work_def)
qed

declare not_None_eq [simp del]

lemma handlers_total [total_simps]:
  "handle_sds_header ev source uid payload raw st = None \<longleftrightarrow> False"
  "store_offline_sds ev source uid s d raw st = None \<longleftrightarrow> False"
  "handle_sds_transfer ev source uid raw st = None \<longleftrightarrow> False"
  "handle_private_setup sip ck source uid payload raw st = None \<longleftrightarrow> False"
proof -
  show "handle_sds_header ev source uid payload raw st = None \<longleftrightarrow> False"
    by (simp add: handle_sds_header_def Let_def bind_eq_None_conv total_simps split: call_payload.split)
  show store: "store_offline_sds ev source uid s d raw st = None \<longleftrightarrow> False" for s d st
    by (simp add: store_offline_sds_def Let_def bind_eq_None_conv parse_brew_def total_simps
        split: sum.split brew_message.split prod.split)
  show "handle_sds_transfer ev source uid raw st = None \<longleftrightarrow> False"
    by (simp add: handle_sds_transfer_def Let_def bind_eq_None_conv store total_simps
        split: sds_verdict.split option.split)
  show "handle_private_setup sip ck source uid payload raw st = None \<longleftrightarrow> False"
    by (simp add: handle_private_setup_def setup_parties_def bind_eq_None_conv raw_peer_pair_total
        split: call_payload.split option.split)
qed

declare not_None_eq [simp]

lemma handlers_ok:
  assumes "app_ok st" "source |\<in>| fmdom (clients (st_inner st))"
  shows "\<exists>st'. handle_sds_header ev source uid payload raw st = Some st' \<and> app_ok st'"
    "\<exists>st'. handle_sds_transfer ev source uid raw st = Some st' \<and> app_ok st'"
    "\<exists>st'. handle_private_setup sip ck source uid payload raw st = Some st' \<and> app_ok st'"
  using handlers_total(1) [of ev source uid payload raw st] handle_sds_header_ok [OF assms]
    handlers_total(3) [of ev source uid raw st] handle_sds_transfer_ok [OF assms(1)]
    handlers_total(4) [of sip ck source uid payload raw st] handle_private_setup_ok [OF assms]
  by blast+

lemma dispatch_ok:
  assumes "app_ok st" "source |\<in>| fmdom (clients (st_inner st))"
  shows "\<exists>st'. dispatch pe source raw m st = Some st' \<and> app_ok st'"
proof (cases m)
  case (CallControlMsg cc)
  then show ?thesis
    using assms
    by (simp add: dispatch_def dispatch_call_def Let_def handlers_ok handle_group_tx_ok route_private_control_ok end_call_ok)
next
  case (FrameMsg f)
  then show ?thesis
    using assms by (simp add: dispatch_def dispatch_frame_def Let_def handlers_ok frames_ok handle_sds_report_ok)
next
  case (ServiceMsg sv)
  then show ?thesis
    using assms(1) by (simp add: dispatch_def dispatch_service_def split: option.split)
qed (use assms handle_subscriber_ok in \<open>simp_all add: dispatch_def\<close>)

lemma handle_packet_ok:
  assumes "app_ok st" "source |\<in>| fmdom (clients (st_inner st))"
  shows "\<exists>st'. handle_packet pe source raw st = Some st' \<and> app_ok st'"
proof -
  define s1 where "s1 = purge_ephemeral (ev_clock (pe_env pe)) st"
  have s1: "app_ok s1" "source |\<in>| fmdom (clients (st_inner s1))"
    using assms by (simp_all add: s1_def)
  show ?thesis
  proof (cases "get_at raw 0 = Some CLASS_FEDERATION")
    case True
    obtain j r where "fed_handle (ck_ms (ev_clock (pe_env pe))) source raw (st_inner s1) = Some (j, r)" "inner_ok j"
      using fed_handle_ok [OF app_okD [OF s1(1)]] by blast
    with True show ?thesis
      by (simp add: handle_packet_def handle_federation_def Let_def flip: s1_def split: option.split)
  next
    case False
    obtain r where r: "parse_with_version raw (client_version source (st_inner s1)) = Some r"
      using parse_with_version_total [of raw "client_version source (st_inner s1)"] by blast
    show ?thesis
    proof (cases r)
      case (Inl e)
      with False r s1 show ?thesis by (simp add: handle_packet_def Let_def flip: s1_def)
    next
      case (Inr p)
      obtain m v where p: "p = (m, v)" by (cases p)
      define s2 where "s2 = (if as_u8 (client_version source (st_inner s1)) < as_u8 v
        then on_inner (\<lambda>i. snd (promote_client_version source v i)) s1 else s1)"
      have "app_ok s2" "source |\<in>| fmdom (clients (st_inner s2))"
        using s1 promote_ok by (auto simp: s2_def app_okD)
      from dispatch_ok [OF this, of pe raw m] False r Inr p show ?thesis
        by (simp add: handle_packet_def Let_def s2_def flip: s1_def split: if_splits)
    qed
  qed
qed

section \<open>A lost connection\<close>

lemma forget_entry_frame [simp]:
  "clients (forget_entry c p i) = clients i" "group_clients (forget_entry c p i) = group_clients i"
  "calls (forget_entry c p i) = calls i" "sds_routes (forget_entry c p i) = sds_routes i"
  "recent_calls (forget_entry c p i) = recent_calls i" "consoles (forget_entry c p i) = consoles i"
  "fs_links (fed (forget_entry c p i)) = fs_links (fed i)" "fs_self_id (fed (forget_entry c p i)) = fs_self_id (fed i)"
  "group_floor (forget_entry c p i) = group_floor i"
  by (auto simp: forget_entry_def withdraw_offer_def Let_def split: prod.split option.split)

lemma forget_entry_subscribers:
  "fmlookup (subscribers (forget_entry c (issi, old) i)) k =
     (if k = issi \<and> (\<exists>o'. old = Some o' \<and> sb_client_id o' = c) then None else fmlookup (subscribers i) k)"
  by (auto simp: forget_entry_def Let_def split: option.split)

lemma forget_entry_offers:
  "offered (fmlookup (fs_rib_in (fed (forget_entry c (issi, old) i))) k) l a \<longleftrightarrow>
     offered (fmlookup (fs_rib_in (fed i)) k) l a \<and> \<not> (k = issi \<and> l = c)"
  by (auto simp: forget_entry_def withdraw_offer_def Let_def offered_def split: option.split if_splits)
    (auto dest!: fmdomI fsubsetD)

lemma fold_forget:
  fixes ps :: "(u32 \<times> subscriber option) list" and i :: inner and c :: client_id
  defines "j \<equiv> fold (forget_entry c) ps i"
  shows "clients j = clients i" "group_clients j = group_clients i" "calls j = calls i" "sds_routes j = sds_routes i"
    "recent_calls j = recent_calls i" "consoles j = consoles i" "fs_links (fed j) = fs_links (fed i)"
    "fs_self_id (fed j) = fs_self_id (fed i)" "group_floor j = group_floor i"
    "fmlookup (subscribers j) k =
       (if \<exists>o'. (k, Some o') \<in> set ps \<and> sb_client_id o' = c then None else fmlookup (subscribers i) k)"
    "offered (fmlookup (fs_rib_in (fed j)) k) l a \<longleftrightarrow>
       offered (fmlookup (fs_rib_in (fed i)) k) l a \<and> \<not> (k \<in> fst ` set ps \<and> l = c)"
  unfolding j_def
  by (induction ps arbitrary: i) (auto simp: forget_entry_subscribers forget_entry_offers)

text \<open>The tables once the connection's own entries, offers and memberships are gone: what it had
  leaves, everything else stays.\<close>

definition forgotten :: "client_id \<Rightarrow> inner \<Rightarrow> inner" where
  "forgotten c i =
     (let i1 = drop_connection c i
      in drop_memberships c (fold (forget_entry c)
           (map (\<lambda>issi. (issi, fmlookup (subscribers i1) issi))
              (affected_issis c (fmlookup (fs_links (fed i)) c \<noteq> None) i1)) i1))"

lemma forgotten_frame:
  "clients (forgotten c i) = fmdrop c (clients i)" "calls (forgotten c i) = calls i"
  "sds_routes (forgotten c i) = sds_routes i" "recent_calls (forgotten c i) = recent_calls i"
  "consoles (forgotten c i) = consoles i |-| {|c|}" "fs_links (fed (forgotten c i)) = fmdrop c (fs_links (fed i))"
  "fs_self_id (fed (forgotten c i)) = fs_self_id (fed i)" "group_floor (forgotten c i) = group_floor i"
  "group_clients (forgotten c i) = fm_retain (\<lambda>_ m. m \<noteq> {||}) (fmmap (\<lambda>m. m |-| {|c|}) (group_clients i))"
  by (simp_all add: forgotten_def Let_def drop_memberships_def fold_forget drop_connection_def)

lemma forgotten_subscribers:
  "fmlookup (subscribers (forgotten c i)) k = Some s \<longleftrightarrow> fmlookup (subscribers i) k = Some s \<and> sb_client_id s \<noteq> c"
proof -
  have "(\<exists>o'. (k, Some o') \<in> set (map (\<lambda>issi. (issi, fmlookup (subscribers (drop_connection c i)) issi))
      (affected_issis c b (drop_connection c i))) \<and> sb_client_id o' = c) \<longleftrightarrow>
    (\<exists>o'. fmlookup (subscribers i) k = Some o' \<and> sb_client_id o' = c)" for b
    by (auto simp: affected_issis_def drop_connection_def image_iff) metis
  then show ?thesis
    by (auto simp: forgotten_def Let_def drop_memberships_def fold_forget(10)) (simp_all add: drop_connection_def)
qed

lemma forgotten_offers:
  assumes "table_ok i"
  shows "offered (fmlookup (fs_rib_in (fed (forgotten c i))) k) l a \<longleftrightarrow>
    offered (fmlookup (fs_rib_in (fed i)) k) l a \<and> l \<noteq> c"
proof -
  have "k \<in> set (affected_issis c (fmlookup (fs_links (fed i)) c \<noteq> None) (drop_connection c i))"
    if "offered (fmlookup (fs_rib_in (fed i)) k) c a"
  proof -
    have "fmlookup (fs_links (fed i)) c \<noteq> None"
    proof -
      have "offer_ok (fed i) c a" using assms that by (auto simp: table_ok_def rib_ok_def)
      then show ?thesis by (auto simp: offer_ok_def)
    qed
    then show ?thesis
      using that by (auto simp: affected_issis_def drop_connection_def offered_def)
  qed
  then show ?thesis
    by (auto simp: forgotten_def Let_def drop_memberships_def fold_forget(11) image_image)
      (auto simp: drop_connection_def)
qed

lemma forgotten_routes_ok:
  assumes "routes_ok i" shows "routes_ok (forgotten c i)"
proof -
  let ?j = "forgotten c i"
  have i: "table_ok i" "groups_ok i" "links_ok i" using assms by (simp_all add: routes_ok_def)
  have "offer_ok (fed ?j) l a" if "offered (fmlookup (fs_rib_in (fed ?j)) k) l a" for k l a
    using that i(1) by (auto simp: forgotten_offers [OF i(1)] table_ok_def rib_ok_def offer_ok_def forgotten_frame)
  moreover have "entry_ok (fed ?j) s" if "fmlookup (subscribers ?j) k = Some s" for k s
  proof -
    have "entry_ok (fed i) s" "sb_client_id s \<noteq> c"
      using that i(1) by (auto simp: forgotten_subscribers table_ok_def)
    then show ?thesis by (simp add: entry_ok_def forgotten_frame split: option.splits)
  qed
  ultimately have "table_ok ?j" by (simp add: table_ok_def rib_ok_def)
  moreover have "groups_ok ?j"
  proof -
    have "member ?j g d \<longleftrightarrow> member i g d \<and> d \<noteq> c" for g d
      by (auto simp: member_def forgotten_frame split: option.splits if_splits)
    moreover have "uses_group ?j g d \<longleftrightarrow> uses_group i g d \<and> d \<noteq> c" for g d
      by (auto simp: uses_group_def forgotten_subscribers)
    moreover have "no_empty_group ?j"
      by (auto simp: no_empty_group_def forgotten_frame split: option.splits if_splits)
    ultimately show ?thesis using i(2) by (simp add: groups_ok_def)
  qed
  moreover have "links_ok ?j"
    using i(3) by (auto simp: links_ok_def forgotten_subscribers forgotten_frame dest: fsubsetD)
  ultimately show ?thesis by (simp add: routes_ok_def)
qed

lemma reroute_and_publish_routes:
  assumes "routes_ok i"
  shows "routes_ok (reroute_and_publish p i) \<and> same_work i (reroute_and_publish p i)"
proof -
  have r: "routes_ok (snd (reroute (fst p) i))" using assms by (rule reroute_routes)
  show ?thesis
    unfolding reroute_and_publish_def
    using routes_ok_same [OF publish_frame(1) r] same_work_trans [OF same_work_reroute publish_frame(2)] by auto
qed

lemma fold_reroute_routes:
  "routes_ok i \<Longrightarrow> routes_ok (fold reroute_and_publish ps i) \<and> same_work i (fold reroute_and_publish ps i)"
proof (induction ps arbitrary: i)
  case (Cons p ps)
  have "routes_ok (reroute_and_publish p i)" "same_work i (reroute_and_publish p i)"
    using reroute_and_publish_routes [OF Cons.prems] by auto
  with Cons.IH show ?case using same_work_trans by fastforce
qed simp

lemma cleanup_routes_ok:
  assumes "routes_ok i"
  shows "routes_ok (cleanup_routes c i)" "same_work (forgotten c i) (cleanup_routes c i)"
proof -
  have "cleanup_routes c i = fold reroute_and_publish
      (map (\<lambda>issi. (issi, fmlookup (subscribers (drop_connection c i)) issi))
        (affected_issis c (fmlookup (fs_links (fed i)) c \<noteq> None) (drop_connection c i))) (forgotten c i)"
    by (simp add: cleanup_routes_def forgotten_def Let_def)
  then show "routes_ok (cleanup_routes c i)" "same_work (forgotten c i) (cleanup_routes c i)"
    using fold_reroute_routes [OF forgotten_routes_ok [OF assms]] by simp_all
qed

text \<open>What is left of a call: unchanged when the connection has no part in it, without it when it
  only listened to a group call, and else nothing.\<close>

definition remains :: "client_id \<Rightarrow> active_call \<Rightarrow> active_call option" where
  "remains c call =
     (if ac_owner call \<noteq> c \<and> c |\<notin>| ac_peers call then Some call
      else if ac_kind call = GroupCall \<and> ac_owner call \<noteq> c
      then Some (call\<lparr>ac_peers := ac_peers call |-| {|c|}\<rparr>) else None)"

lemma remains_again [simp]: "remains c call = Some call' \<Longrightarrow> remains c call' = Some call'"
  by (auto simp: remains_def split: if_splits)

lemma end_involved_calls:
  "fmlookup (calls (snd (end_involved c uid s))) k =
     (if k = uid then
        (case fmlookup (calls (snd s)) uid of
           None \<Rightarrow> None
         | Some call \<Rightarrow> if ac_kind call = GroupCall \<and> ac_owner call \<noteq> c
             then Some (call\<lparr>ac_peers := ac_peers call |-| {|c|}\<rparr>) else None)
      else fmlookup (calls (snd s)) k)"
  by (auto simp: end_involved_def Let_def split: prod.split option.split)

lemma end_involved_frame:
  "same_frame (snd s) (snd (end_involved c uid s))" "sds_routes (snd (end_involved c uid s)) = sds_routes (snd s)"
  "recent_calls (snd (end_involved c uid s)) = recent_calls (snd s)"
  by (auto simp: end_involved_def Let_def split: prod.split option.split)

lemma fold_end_involved_frame: "same_frame (snd s) (snd (fold (end_involved c) us s))"
proof (induction us arbitrary: s)
  case (Cons u us)
  show ?case using same_frame_trans [OF end_involved_frame(1) Cons.IH] by simp
qed simp

lemma fold_end_involved_tables:
  "sds_routes (snd (fold (end_involved c) us s)) = sds_routes (snd s)"
  "recent_calls (snd (fold (end_involved c) us s)) = recent_calls (snd s)"
  by (induction us arbitrary: s) (simp_all add: end_involved_frame)

lemma fold_end_involved_calls:
  "distinct us \<Longrightarrow> fmlookup (calls (snd (fold (end_involved c) us s))) k =
     (if k \<in> set us then
        (case fmlookup (calls (snd s)) k of
           None \<Rightarrow> None
         | Some call \<Rightarrow> if ac_kind call = GroupCall \<and> ac_owner call \<noteq> c
             then Some (call\<lparr>ac_peers := ac_peers call |-| {|c|}\<rparr>) else None)
      else fmlookup (calls (snd s)) k)"
  by (induction us arbitrary: s) (auto simp: end_involved_calls)

definition involved :: "client_id \<Rightarrow> inner \<Rightarrow> uuid list" where
  "involved c i = map fst (filter (\<lambda>(_, call). ac_owner call = c \<or> c |\<in>| ac_peers call) (fm_items (calls i)))"

lemma involved_props:
  "distinct (involved c i)"
  "uid \<in> set (involved c i) \<longleftrightarrow> (\<exists>call. fmlookup (calls i) uid = Some call \<and> (ac_owner call = c \<or> c |\<in>| ac_peers call))"
proof -
  show "distinct (involved c i)"
    unfolding involved_def using distinct_fst_fm_items [of "calls i"]
    by (rule distinct_map_filter)
  show "uid \<in> set (involved c i) \<longleftrightarrow> (\<exists>call. fmlookup (calls i) uid = Some call \<and> (ac_owner call = c \<or> c |\<in>| ac_peers call))"
    by (force simp: involved_def image_iff)
qed

lemma cleanup_calls_calls:
  "fmlookup (calls (snd (cleanup_calls c i))) uid = Option.bind (fmlookup (calls i) uid) (remains c)"
proof -
  have "fmlookup (calls (snd (cleanup_calls c i))) uid = fmlookup (calls (snd (fold (end_involved c) (involved c i) ([], i)))) uid"
    by (simp add: cleanup_calls_def involved_def Let_def split: prod.split)
  then show ?thesis
    by (auto simp: fold_end_involved_calls involved_props remains_def split: option.split)
qed

lemma cleanup_calls_frame:
  "same_frame i (snd (cleanup_calls c i))"
  "sds_routes (snd (cleanup_calls c i)) = fm_retain (\<lambda>_ r. sr_source_client r \<noteq> c \<and> c |\<notin>| sr_targets r) (sds_routes i)"
  "recent_calls (snd (cleanup_calls c i)) = fm_retain (\<lambda>_ (link, _). link \<noteq> c) (recent_calls i)"
proof -
  obtain removed i1 where f: "fold (end_involved c) (involved c i) ([], i) = (removed, i1)"
    by (cases "fold (end_involved c) (involved c i) ([], i)")
  have eq: "snd (cleanup_calls c i) =
      i1\<lparr>sds_routes := fm_retain (\<lambda>_ r. sr_source_client r \<noteq> c \<and> c |\<notin>| sr_targets r) (sds_routes i1),
         recent_calls := fm_retain (\<lambda>_ (link, _). link \<noteq> c) (recent_calls i1)\<rparr>"
    using f by (simp add: cleanup_calls_def involved_def Let_def)
  have "same_frame i i1" "sds_routes i1 = sds_routes i" "recent_calls i1 = recent_calls i"
    using fold_end_involved_frame [where s = "([], i)" and c = c and us = "involved c i"]
      fold_end_involved_tables [where s = "([], i)" and c = c and us = "involved c i"] by (simp_all add: f)
  then show "same_frame i (snd (cleanup_calls c i))"
    "sds_routes (snd (cleanup_calls c i)) = fm_retain (\<lambda>_ r. sr_source_client r \<noteq> c \<and> c |\<notin>| sr_targets r) (sds_routes i)"
    "recent_calls (snd (cleanup_calls c i)) = fm_retain (\<lambda>_ (link, _). link \<noteq> c) (recent_calls i)"
    unfolding eq by (simp_all add: same_frame_def)
qed

lemma cleanup_client_inner:
  "st_inner (cleanup_client ck c st) = snd (cleanup_calls c (cleanup_routes c (st_inner st)))"
proof -
  have "st_inner (fold (\<lambda>uid s. log_effect (BridgeTeardown uid) (on_monitor (call_ended (ck_ms ck) uid) s)) us st') = st_inner st'"
    for us st' by (induction us arbitrary: st') simp_all
  then show ?thesis by (simp add: cleanup_client_def split: prod.split)
qed

lemma cleanup_ok:
  assumes "app_ok st" "c \<noteq> SMS_CENTER_CLIENT"
  shows "app_ok (cleanup_client ck c st)" "c |\<notin>| fmdom (clients (st_inner (cleanup_client ck c st)))"
proof -
  let ?i = "st_inner st" and ?j = "cleanup_routes c (st_inner st)" and ?k = "st_inner (cleanup_client ck c st)"
  have i: "routes_ok ?i" "calls_ok ?i" "sds_ok ?i" "recent_ok ?i"
    using app_okD [OF assms(1)] by (simp_all add: inner_ok_routes)
  note j = cleanup_routes_ok [OF i(1), of c]
  have dom: "fmdom (clients ?k) = fmdom (clients ?i) |-| {|c|}"
    using same_frame_conns [OF cleanup_calls_frame(1) [of ?j c]] j(2)
    by (simp add: cleanup_client_inner same_work_def forgotten_frame)
  then show "c |\<notin>| fmdom (clients ?k)" by simp
  have tables: "calls ?j = calls ?i" "sds_routes ?j = sds_routes ?i" "recent_calls ?j = recent_calls ?i"
    using j(2) by (simp_all add: same_work_def forgotten_frame)
  have "routes_ok ?k"
    using routes_ok_same [OF cleanup_calls_frame(1) j(1)] by (simp add: cleanup_client_inner)
  moreover have "calls_ok ?k"
  proof -
    have "call_ok (conns |-| {|c|}) call'" if "call_ok conns call" "remains c call = Some call'" for conns call call'
      using that by (auto simp: remains_def call_ok_def split: if_splits)
    then show ?thesis
      using i(2) unfolding calls_ok_def dom
      by (auto simp: cleanup_client_inner cleanup_calls_calls tables bind_eq_Some_conv) metis
  qed
  moreover have "sds_ok ?k"
    using i(3) assms(2) unfolding sds_ok_def dom
    by (auto simp: cleanup_client_inner cleanup_calls_frame tables sds_route_ok_def split: option.splits if_splits dest: fsubsetD)
  moreover have "recent_ok ?k"
    using i(4) unfolding recent_ok_def dom
    by (auto simp: cleanup_client_inner cleanup_calls_frame tables split: option.splits if_splits)
  ultimately show "app_ok (cleanup_client ck c st)" by (simp add: app_ok_def inner_ok_routes)
qed

section \<open>A new connection\<close>

lemma call_ok_mono: "call_ok conns call \<Longrightarrow> conns |\<subseteq>| conns' \<Longrightarrow> call_ok conns' call"
  by (auto simp: call_ok_def)

lemma sds_route_ok_mono: "sds_route_ok conns r \<Longrightarrow> conns |\<subseteq>| conns' \<Longrightarrow> sds_route_ok conns' r"
  by (auto simp: sds_route_ok_def)

lemma add_link_ok:
  assumes "inner_ok i" "c |\<notin>| fmdom (clients i)"
    "j = i\<lparr>clients := fmupd c cl (clients i), fed := (fed i)\<lparr>fs_links := ls\<rparr>\<rparr>"
    "ls = fs_links (fed i) \<or> ls = fmupd c n (fs_links (fed i))"
  shows "inner_ok j"
proof -
  have old: "fmlookup ls l = fmlookup (fs_links (fed i)) l" if "l \<noteq> c" for l
    using assms(4) that by auto
  have none: "fmlookup (fs_links (fed i)) c = None"
    using assms(1,2) by (auto simp: inner_ok_def links_ok_def fmlookup_dom_iff dest!: fsubsetD)
  have "offer_ok (fed j) l a" if "offered (fmlookup (fs_rib_in (fed j)) k) l a" for k l a
  proof -
    have "offer_ok (fed i) l a" using that assms(1,3) by (auto simp: inner_ok_def table_ok_def rib_ok_def)
    moreover then have "l \<noteq> c" using none by (auto simp: offer_ok_def)
    ultimately show ?thesis using old assms(3) by (simp add: offer_ok_def)
  qed
  moreover have "entry_ok (fed j) s" if "fmlookup (subscribers j) k = Some s" for k s
  proof -
    have "entry_ok (fed i) s" "sb_client_id s \<noteq> c"
      using that assms(1-3) by (auto simp: inner_ok_def table_ok_def links_ok_def)
    then show ?thesis using old assms(3) by (simp add: entry_ok_def split: option.splits)
  qed
  ultimately have "table_ok j" by (simp add: table_ok_def rib_ok_def)
  moreover have "groups_ok j" "links_ok j"
    using assms groups_ok_cong [of j i] by (auto simp: inner_ok_def links_ok_def dest: fsubsetD)
  moreover have "calls_ok j" "sds_ok j"
    using assms(1) by (auto simp: assms(3) inner_ok_def calls_ok_def sds_ok_def elim!: call_ok_mono sds_route_ok_mono)
  moreover have "recent_ok j"
    using inner_ok_parts(3) [OF assms(1)] unfolding assms(3) recent_ok_def by auto
  ultimately show ?thesis by (simp add: inner_ok_def)
qed

lemma attach_client_ok:
  assumes "inner_ok i" "c |\<notin>| fmdom (clients i)"
  shows "inner_ok (attach_client c cl n i)" "fmdom (clients (attach_client c cl n i)) = finsert c (fmdom (clients i))"
proof -
  let ?i1 = "i\<lparr>clients := fmupd c cl (clients i)\<rparr>"
  have "inner_ok ?i1"
    by (rule add_link_ok [OF assms, where cl = cl and ls = "fs_links (fed i)"]) simp_all
  moreover have "inner_ok (?i1\<lparr>fed := (fed ?i1)\<lparr>fs_links := fmupd c m (fs_links (fed ?i1))\<rparr>\<rparr>)" for m
    by (rule add_link_ok [OF assms, where cl = cl and ls = "fmupd c m (fs_links (fed i))" and n = m]) simp_all
  ultimately show "inner_ok (attach_client c cl n i)"
    by (simp add: attach_client_def Let_def split: option.split)
  show "fmdom (clients (attach_client c cl n i)) = finsert c (fmdom (clients i))"
    by (simp add: attach_client_def Let_def split: option.split)
qed

lemma open_session_ok:
  assumes "app_ok st" "c |\<notin>| fmdom (clients (st_inner st))"
  shows "app_ok (open_session c mode v addr now user n console st)"
proof -
  note a = attach_client_ok [OF app_okD [OF assms(1)] assms(2), of "session_client mode v addr now user" n]
  have "inner_ok (i\<lparr>consoles := finsert d (consoles i)\<rparr>)" if "inner_ok i" "d |\<in>| fmdom (clients i)" for i d
  proof -
    have "same_work i (i\<lparr>consoles := finsert d (consoles i)\<rparr>)" by (simp add: same_work_def)
    moreover have "table_ok (i\<lparr>consoles := finsert d (consoles i)\<rparr>)" "groups_ok (i\<lparr>consoles := finsert d (consoles i)\<rparr>)"
      using that same_tables_ok [of "i\<lparr>consoles := finsert d (consoles i)\<rparr>" i] by (simp_all add: inner_ok_def)
    ultimately show ?thesis
      using that by (intro inner_ok_same_work [OF that(1)]) (auto simp: routes_ok_def inner_ok_def links_ok_def)
  qed
  then show ?thesis using a by (simp add: open_session_def Let_def)
qed

section \<open>The reachable states\<close>

text \<open>Everything that changes the modelled state: a session opened under a fresh id, a packet from
  a connected client, a lost connection, the timers, and what other tasks report -- telemetry's
  alarms, this server's own Basestation positions and alarms.\<close>

inductive server_step :: "app \<Rightarrow> app \<Rightarrow> bool" where
  opened: "c |\<notin>| fmdom (clients (st_inner st)) \<Longrightarrow> c \<noteq> SMS_CENTER_CLIENT \<Longrightarrow>
    server_step st (open_session c mode v addr now user n console st)"
| received: "source |\<in>| fmdom (clients (st_inner st)) \<Longrightarrow> handle_packet pe source raw st = Some st' \<Longrightarrow>
    server_step st st'"
| lost: "c \<noteq> SMS_CENTER_CLIENT \<Longrightarrow> server_step st (cleanup_client ck c st)"
| swept: "server_step st (call_duration_sweep ck st)"
| sms_ticked: "server_step st (sms_tick ck fresh st)"
| delivered: "deliver_pending force turns issi st = Some st' \<Longrightarrow> server_step st st'"
| telemetry: "server_step st (st\<lparr>st_stations := alarms\<rparr>)"
| alarm_raised: "server_step st (emergency_raised issi st)"
| consoles_told: "server_step st (push_to_consoles js st)"
| own_alarm: "server_step st (on_inner (advertise_emergency now issi dest bts active) st)"
| own_station: "server_step st (on_inner (advertise_bts now key name lat lon online) st)"

definition start :: "config \<Rightarrow> monitor \<Rightarrow> sms_center \<Rightarrow> u64 \<Rightarrow> app" where
  "start cfg history sms self_id = \<lparr>st_config = cfg, st_inner = empty_inner self_id, st_monitor = history,
     st_stations = fmempty, st_sms = sms, st_blocked = fset_of_list (cf_blacklist_issis cfg), st_log = []\<rparr>"

lemma app_ok_start: "app_ok (start cfg history sms self_id)"
  by (simp add: start_def app_ok_def inner_ok_def table_ok_def rib_ok_def offered_def empty_inner_def empty_fed_def
      groups_ok_def member_def uses_group_def no_empty_group_def links_ok_def calls_ok_def sds_ok_def recent_ok_def)

lemma advertise_own_ok:
  assumes "inner_ok i"
  shows "inner_ok (advertise_emergency now issi dest bts active i)" "inner_ok (advertise_bts now key name lat lon online i)"
  by (rule inner_ok_same [OF _ _ assms],
      auto simp: advertise_emergency_def advertise_bts_def relay_em_def relay_bts_def relay_to_def tick_def
        same_frame_def same_work_def Let_def split: prod.split option.split)+

lemma server_step_ok: "server_step st st' \<Longrightarrow> app_ok st \<Longrightarrow> app_ok st'"
proof (induction rule: server_step.induct)
  case (received source st pe raw st')
  then show ?case using handle_packet_ok [of st source pe raw] by auto
next
  case (telemetry st alarms)
  then show ?case by (simp add: app_ok_def)
qed (simp_all add: open_session_ok cleanup_ok call_duration_sweep_ok sms_tick_ok deliver_pending_ok
    emergency_raised_ok advertise_own_ok app_okD)

lemma reachable_app_ok: "server_step\<^sup>*\<^sup>* st st' \<Longrightarrow> app_ok st \<Longrightarrow> app_ok st'"
  by (induction rule: rtranclp_induct) (auto dest: server_step_ok)

end
