(* ===== verification/Calls_Props.thy ===== *)
theory Calls_Props
  imports Router_Reach Sms_Queue
begin

text \<open>
  What the router promises about calls, packets and lost connections, over every reachable state.
\<close>

section \<open>Every reachable state\<close>


text \<open>C2. The server never panics on a packet: whatever bytes a connected client sends in a
  reachable state, the handler runs to its end.\<close>

theorem handle_packet_total:
  assumes "server_step\<^sup>*\<^sup>* (start cfg history sms self_id) st" "source |\<in>| fmdom (clients (st_inner st))"
  shows "\<exists>st'. handle_packet pe source raw st = Some st'"
  using handle_packet_ok [OF reachable_app_ok [OF assms(1) app_ok_start] assms(2)] by blast

definition quiet_config :: config where
  "quiet_config = \<lparr>cf_allow_multiple_calls_per_group = False, cf_higher_priority_number_wins = True,
     cf_preempt_cause = 3, cf_route_without_affiliations = False,
     cf_fallback_broadcast_when_no_affiliations = False, cf_max_call_duration_seconds = 60,
     cf_call_inactivity_timeout_seconds = 0, cf_session_ttl_seconds = 60, cf_blacklist_issis = [666],
     cf_console_users = []\<rparr>"

definition quiet_sms :: sms_center where
  "quiet_sms = sample_center"

text \<open>A server with two Basestations; one of them sends one byte.\<close>

definition two_stations :: app where
  "two_stations = open_session 2 Basestation (Some V1) [] 0 None None False
     (open_session 1 Basestation (Some V1) [] 0 None None False (start quiet_config empty_monitor quiet_sms 7))"

lemma two_stations_reachable: "server_step\<^sup>*\<^sup>* (start quiet_config empty_monitor quiet_sms 7) two_stations"
proof -
  have "server_step (start quiet_config empty_monitor quiet_sms 7)
      (open_session 1 Basestation (Some V1) [] 0 None None False (start quiet_config empty_monitor quiet_sms 7))"
    by (rule server_step.opened) (simp_all add: start_def empty_inner_def)
  moreover have "server_step (open_session 1 Basestation (Some V1) [] 0 None None False (start quiet_config empty_monitor quiet_sms 7))
      two_stations"
    unfolding two_stations_def
    by (rule server_step.opened) (simp_all add: open_session_def attach_client_def start_def empty_inner_def session_client_def)
  ultimately show ?thesis by simp
qed

lemma two_stations_clients: "fmdom (clients (st_inner two_stations)) = {|1, 2|}"
  by (auto simp: two_stations_def open_session_def attach_client_def start_def empty_inner_def session_client_def)


theorem handle_packet_total_witness: "\<forall>pe. \<exists>st'. handle_packet pe 1 [0xF1] two_stations = Some st'"
  by (intro allI handle_packet_total [OF two_stations_reachable]) (simp add: two_stations_clients)

section \<open>Voice frames\<close>

text \<open>C36. A voice frame goes to every other participant of its call exactly once, and to nobody
  else: in a group call only the talker's connection may send, in a private call only the two
  parties; the frame is never echoed to its sender, and a frame of anybody else, or of no running
  call, changes nothing at all.\<close>

theorem voice_frame_delivery:
  "case fmlookup (calls (st_inner st)) uid of
     None \<Rightarrow> route_call_frame ck source uid raw st = st
   | Some call \<Rightarrow>
       if (if ac_kind call = GroupCall then source = ac_owner call
           else source = ac_owner call \<or> source |\<in>| ac_peers call)
       then \<forall>d. queue (st_inner (route_call_frame ck source uid raw st)) d = queue (st_inner st) d @
              (if connected (st_inner st) d \<and> d \<noteq> source \<and>
                  (d |\<in>| ac_peers call \<or> ac_kind call = PrivateCall \<and> d = ac_owner call)
               then [raw] else [])
       else route_call_frame ck source uid raw st = st"
  by (auto simp: route_call_frame_def call_frame_recipients_def may_send_frame_def recipients_of_def
      touch_call_def split: option.split)

section \<open>The end of a call\<close>


definition group_call :: active_call where
  "group_call = \<lparr>ac_kind = GroupCall, ac_owner = 1, ac_source_issi = 4013, ac_destination = 91, ac_priority = 0,
     ac_peers = {|2|}, ac_started_at = 0, ac_last_activity_ms = 0\<rparr>"

definition in_call :: app where
  "in_call = two_stations\<lparr>st_inner := (st_inner two_stations)\<lparr>calls := fmupd 77 group_call fmempty\<rparr>\<rparr>"


section \<open>Duplicates\<close>

text \<open>A transmission that reaches the server again over another peer link -- a ring, a mesh, a
  redundant link -- changes nothing: while its call runs, and for five seconds after it was accepted
  or ended, the copy neither pre-empts nor takes over a call and no subscriber hears it twice; the
  only answer is the request to a loop-safe peer to stop sending it this way.\<close>

theorem duplicate_group_tx_ignored:
  assumes "is_peer (st_inner st) link"
    "(\<exists>call. fmlookup (calls (st_inner st)) uid = Some call \<and> ac_source_issi call = gt_source gt \<and> ac_owner call \<noteq> link) \<or>
     (\<exists>first at. fmlookup (recent_calls (st_inner st)) (uid, gt_source gt) = Some (first, at) \<and> first \<noteq> link \<and>
        ck_now ck < at + 5000)"
  shows "\<exists>answer. handle_group_tx ck link uid (GroupTransmission gt) raw st = on_inner (send_list link answer) st \<and>
    (answer = [] \<or> answer = [build_prune uid (gt_source gt)] \<and> fmlookup (fs_links (fed (st_inner st))) link \<noteq> None)"
proof -
  have unsent: "on_inner (send_list link []) st = st"
  proof -
    have "fmmap_keys (\<lambda>d cl. cl\<lparr>cl_tx := cl_tx cl @ (if d = link then [] else [])\<rparr>) m = m"
      for m :: "(client_id, client) fmap"
      by (rule fmap_ext) (auto simp: option.map_ident)
    then show ?thesis by (simp add: on_inner_def send_list_def push_each_def)
  qed
  have one: "send_to link p = send_list link [p]" for p
    by (rule ext) (simp add: send_to_def send_all_def send_list_def)
  have "is_duplicate (st_inner st) uid (gt_source gt) link (ck_now ck)"
    using assms(2) by (auto simp: is_duplicate_def Let_def)
  then have "handle_group_tx ck link uid (GroupTransmission gt) raw st = st \<or>
      handle_group_tx ck link uid (GroupTransmission gt) raw st = on_inner (send_list link [build_prune uid (gt_source gt)]) st \<and>
      fmlookup (fs_links (fed (st_inner st))) link \<noteq> None"
    using assms(1) by (auto simp: handle_group_tx_def Let_def one)
  then show ?thesis
  proof
    assume same: "handle_group_tx ck link uid (GroupTransmission gt) raw st = st"
    have "handle_group_tx ck link uid (GroupTransmission gt) raw st = on_inner (send_list link []) st"
      unfolding same by (rule unsent [symmetric])
    then show ?thesis by blast
  qed auto
qed

definition from_peer_7 :: app where
  "from_peer_7 = in_call\<lparr>st_inner := (st_inner in_call)\<lparr>clients := fmupd 7 (a_client Peer) fmempty,
     fed := (fed (st_inner in_call))\<lparr>fs_links := fmupd 7 9 fmempty\<rparr>\<rparr>\<rparr>"

definition over_91 :: group_transmission where
  "over_91 = \<lparr>gt_source = 4013, gt_destination = 91, gt_priority = 0, gt_access = 0, gt_service = 0, gt_mnemonic = None\<rparr>"

theorem duplicate_group_tx_ignored_witness:
  "\<exists>answer. handle_group_tx \<lparr>ck_now = 5, ck_ms = 5\<rparr> 7 77 (GroupTransmission over_91) [0xF1, 2] from_peer_7 =
     on_inner (send_list 7 answer) from_peer_7 \<and>
    (answer = [] \<or> answer = [build_prune 77 (gt_source over_91)] \<and> fmlookup (fs_links (fed (st_inner from_peer_7))) 7 \<noteq> None)"
  by (rule duplicate_group_tx_ignored)
    (simp_all add: from_peer_7_def in_call_def group_call_def over_91_def is_peer_def a_client_def)

section \<open>The blacklist\<close>

text \<open>A blacklisted ISSI cannot talk: its group transmission leaves the server untouched unless
  it is an emergency -- priority 15 on the wire, or an alarm of that ISSI active on some station.\<close>

theorem blacklisted_talker_silent:
  assumes "gt_source gt |\<in>| st_blocked st" "gt_priority gt < 15"
    "\<And>station alarms. fmlookup (st_stations st) station = Some alarms \<Longrightarrow> gt_source gt |\<notin>| alarms"
  shows "handle_group_tx ck source uid (GroupTransmission gt) raw st = st"
  using assms by (auto simp: handle_group_tx_def is_blocked_def is_emergency_call_def telemetry_is_emergency_def fm_any_iff Let_def not_le)

theorem blacklisted_talker_silent_witness:
  "handle_group_tx \<lparr>ck_now = 5, ck_ms = 5\<rparr> 1 78 (GroupTransmission (over_91\<lparr>gt_source := 666\<rparr>)) [0xF1, 2] two_stations = two_stations"
  by (rule blacklisted_talker_silent)
    (simp_all add: two_stations_def open_session_def start_def quiet_config_def over_91_def)

text \<open>C38. A blacklisted ISSI cannot text either: when the sender or the addressee of a short data
  message is blacklisted and the payload is not a position report, nobody is sent anything -- not
  the header, which is held back, nor the payload -- and nothing is stored for later.\<close>

theorem blacklisted_sds_silent:
  assumes "s |\<in>| st_blocked st \<or> d |\<in>| st_blocked st" "\<not> is_lip_payload payload"
    "handle_sds_header ev source uid (ShortTransfer s d) header st = Some st1" "st1 \<noteq> st"
    "handle_sds_transfer ev' source uid payload st1 = Some st2"
  shows "clients (st_inner st2) = clients (st_inner st) \<and> st_sms st2 = st_sms st \<and>
    fmlookup (sds_routes (st_inner st2)) uid = None"
proof -
  define noted where "noted = on_inner (note_call uid s source (now_of ev)) st"
  obtain q where q: "extract_sds_position (ev_text_position ev) header = Some q"
    using extract_total [of "ev_text_position ev" header] by blast
  have "is_blocked st s \<or> is_blocked st d" using assms(1) by (simp add: is_blocked_def)
  then have "st1 = st \<or> st1 = route_sds_header ev source uid s d True header noted"
    using assms(3) q by (cases q) (auto simp: handle_sds_header_def Let_def simp flip: noted_def split: if_splits)
  then have "st1 = route_sds_header ev source uid s d True header noted" using assms(4) by simp
  then have st1: "clients (st_inner st1) = clients (st_inner st)" "st_sms st1 = st_sms st"
    "\<exists>r. fmlookup (sds_routes (st_inner st1)) uid = Some r \<and> sr_source_client r = source \<and> sr_lip_only r"
    by (simp_all add: route_sds_header_def Let_def noted_def)
  then obtain r where "fmlookup (sds_routes (st_inner st1)) uid = Some r" "sr_source_client r = source" "sr_lip_only r"
    by blast
  with st1(1,2) assms(2,5) show ?thesis by (auto simp: handle_sds_transfer_def sds_verdict_of_def)
qed

definition plain_env :: env where
  "plain_env = \<lparr>ev_clock = \<lparr>ck_now = 5, ck_ms = 5\<rparr>, ev_sms_id = 100, ev_brew_id = 101,
     ev_sip = (\<lambda>_ _. False), ev_text_position = (\<lambda>_. None)\<rparr>"

theorem blacklisted_sds_silent_witness:
  "\<exists>st1 st2. handle_sds_header plain_env 1 55 (ShortTransfer 666 4014) [0xF1, 4] two_stations = Some st1 \<and>
    handle_sds_transfer plain_env 1 55 [0xF2, 1] st1 = Some st2 \<and>
    clients (st_inner st2) = clients (st_inner two_stations) \<and> st_sms st2 = st_sms two_stations \<and>
    fmlookup (sds_routes (st_inner st2)) 55 = None"
proof -
  have blocked: "(666 :: u32) |\<in>| st_blocked two_stations"
    by (simp add: two_stations_def open_session_def start_def quiet_config_def)
  have fresh: "fmlookup (sds_routes (st_inner two_stations)) 55 = None"
    by (simp add: two_stations_def open_session_def attach_client_def session_client_def start_def empty_inner_def)
  obtain st1 where st1: "handle_sds_header plain_env 1 55 (ShortTransfer 666 4014) [0xF1, 4] two_stations = Some st1"
    "st1 \<noteq> two_stations"
  proof -
    have "extract_sds_position (ev_text_position plain_env) [0xF1, 4] = Some None"
      by (simp add: extract_sds_position_def frame_body_def plain_env_def)
    moreover have "is_peer (st_inner two_stations) 1 = False"
      by (simp add: is_peer_def two_stations_def open_session_def attach_client_def session_client_def start_def empty_inner_def)
    ultimately have "handle_sds_header plain_env 1 55 (ShortTransfer 666 4014) [0xF1, 4] two_stations =
        Some (route_sds_header plain_env 1 55 666 4014 True [0xF1, 4] (on_inner (note_call 55 666 1 5) two_stations))"
      using blocked by (simp add: handle_sds_header_def is_blocked_def plain_env_def Let_def)
    moreover have "fmlookup (sds_routes (st_inner (route_sds_header plain_env 1 55 666 4014 True [0xF1, 4]
        (on_inner (note_call 55 666 1 5) two_stations)))) 55 \<noteq> None"
      by (simp add: route_sds_header_def Let_def)
    ultimately show thesis using that fresh by metis
  qed
  obtain st2 where st2: "handle_sds_transfer plain_env 1 55 [0xF2, 1] st1 = Some st2"
    using handlers_total(3) [of plain_env 1 55 "[0xF2, 1]" st1] by blast
  have "clients (st_inner st2) = clients (st_inner two_stations) \<and> st_sms st2 = st_sms two_stations \<and>
    fmlookup (sds_routes (st_inner st2)) 55 = None"
    by (rule blacklisted_sds_silent [OF _ _ st1 st2]) (simp_all add: blocked is_lip_payload_def get_at_def)
  with st1 st2 show ?thesis by blast
qed

section \<open>A lost connection\<close>



end
