(* ===== verification/Floor.thy ===== *)
theory Floor
  imports Router_Reach
begin

text \<open>
  The group floor: unless the configuration allows several calls per group, a group has at most one
  running call, the one its floor entry names.
\<close>

definition floor_ok :: "inner \<Rightarrow> bool" where
  "floor_ok i \<longleftrightarrow> (\<forall>uid call. fmlookup (calls i) uid = Some call \<longrightarrow> ac_kind call = GroupCall \<longrightarrow>
     fmlookup (group_floor i) (ac_destination call) = Some uid)"

lemma floor_okD:
  "floor_ok i \<Longrightarrow> fmlookup (calls i) uid = Some call \<Longrightarrow> ac_kind call = GroupCall \<Longrightarrow>
   fmlookup (group_floor i) (ac_destination call) = Some uid"
  by (simp add: floor_ok_def)

text \<open>The operations that touch neither the floor nor the kind and group of any call.\<close>

definition same_floor :: "inner \<Rightarrow> inner \<Rightarrow> bool" where
  "same_floor i j \<longleftrightarrow> group_floor j = group_floor i \<and>
     (\<forall>u. map_option (\<lambda>c. (ac_kind c, ac_destination c)) (fmlookup (calls j) u) =
          map_option (\<lambda>c. (ac_kind c, ac_destination c)) (fmlookup (calls i) u))"

lemma same_floor_ok:
  assumes "same_floor i j" "floor_ok i" shows "floor_ok j"
  unfolding floor_ok_def
proof (intro allI impI)
  fix uid call assume c: "fmlookup (calls j) uid = Some call" "ac_kind call = GroupCall"
  have "map_option (\<lambda>c. (ac_kind c, ac_destination c)) (fmlookup (calls i) uid) = Some (GroupCall, ac_destination call)"
  proof -
    have "map_option (\<lambda>c. (ac_kind c, ac_destination c)) (fmlookup (calls j) uid) =
        map_option (\<lambda>c. (ac_kind c, ac_destination c)) (fmlookup (calls i) uid)"
      using assms(1) unfolding same_floor_def by blast
    then show ?thesis using c by simp
  qed
  then obtain call0 where "fmlookup (calls i) uid = Some call0" "ac_kind call0 = GroupCall"
    "ac_destination call0 = ac_destination call" by auto
  then show "fmlookup (group_floor j) (ac_destination call) = Some uid"
    using assms floor_okD [of i uid call0] by (simp add: same_floor_def)
qed

lemma same_floor_eq: "calls j = calls i \<Longrightarrow> group_floor j = group_floor i \<Longrightarrow> same_floor i j"
  by (simp add: same_floor_def)

lemma same_floor_refl [simp]: "same_floor i i"
  by (simp add: same_floor_def)

lemma same_floor_trans: "same_floor i j \<Longrightarrow> same_floor j k \<Longrightarrow> same_floor i k"
  by (simp add: same_floor_def)

lemma same_floor_send [simp]:
  "same_floor i (push_each f j) = same_floor i j" "same_floor i (send_all t p j) = same_floor i j"
  "same_floor i (send_list c ps j) = same_floor i j" "same_floor i (send_to c p j) = same_floor i j"
  "same_floor i (note_call uid src link now j) = same_floor i j"
  by (simp_all add: same_floor_def send_to_def)

section \<open>Calls\<close>

lemma floor_ok_drop: "floor_ok i \<Longrightarrow> floor_ok (drop_floor uid call (i\<lparr>calls := fmdrop uid (calls i)\<rparr>))"
  by (auto simp: floor_ok_def drop_floor_def) (metis option.inject)

lemma floor_ok_send [simp]:
  "floor_ok (push_each f i) = floor_ok i" "floor_ok (send_all t p i) = floor_ok i"
  "floor_ok (send_list c ps i) = floor_ok i" "floor_ok (send_to c p i) = floor_ok i"
  "floor_ok (note_call uid src link now i) = floor_ok i"
  by (simp_all add: floor_ok_def send_to_def)

lemma end_call_floor: "floor_ok (st_inner st) \<Longrightarrow> floor_ok (st_inner (end_call ck source uid raw st))"
  by (simp add: end_call_def Let_def floor_ok_drop split: option.split)

lemma arbitrate_floor_frees:
  assumes "arbitrate_floor cfg uid gt i = Some (j, old)" "\<not> cf_allow_multiple_calls_per_group cfg" "floor_ok i"
  shows "floor_ok j"
    "fmlookup (calls j) c = Some call \<Longrightarrow> ac_kind call = GroupCall \<Longrightarrow> ac_destination call = gt_destination gt \<Longrightarrow> c = uid"
proof -
  show "floor_ok j"
    using assms by (auto simp: arbitrate_floor_def floor_ok_def Let_def split: option.splits if_splits)
  assume c: "fmlookup (calls j) c = Some call" "ac_kind call = GroupCall" "ac_destination call = gt_destination gt"
  have "fmlookup (calls i) c = Some call"
    using assms(1) c(1) by (auto simp: arbitrate_floor_def Let_def split: option.splits if_splits)
  then have "fmlookup (group_floor i) (gt_destination gt) = Some c"
    using floor_okD [OF assms(3), of c call] c(2,3) by simp
  then show "c = uid"
    using assms(1,2) c(1) by (auto simp: arbitrate_floor_def Let_def split: option.splits if_splits)
qed

lemma handle_group_tx_floor:
  assumes "\<not> cf_allow_multiple_calls_per_group (st_config st)" "floor_ok (st_inner st)"
  shows "floor_ok (st_inner (handle_group_tx ck source uid payload raw st))"
proof (cases "\<exists>gt. payload = GroupTransmission gt")
  case True
  then obtain gt where gt: "payload = GroupTransmission gt" by blast
  show ?thesis
  proof (cases "arbitrate_floor (st_config st) uid gt (st_inner st)")
    case (Some p)
    then obtain i1 old where p: "arbitrate_floor (st_config st) uid gt (st_inner st) = Some (i1, old)"
      by (cases p) simp
    have "floor_ok (record_group_call ck source uid gt e targets raw i1)" for e targets
      using arbitrate_floor_frees [OF p assms] unfolding record_group_call_def Let_def
      by (auto simp: floor_ok_def note_call_def)
    then show ?thesis
      using assms by (auto simp: handle_group_tx_def gt Let_def p send_group_tx_def split: option.split)
  qed (use assms in \<open>simp add: handle_group_tx_def gt Let_def\<close>)
qed (use assms in \<open>simp add: handle_group_tx_def split: call_payload.split\<close>)

lemma floor_ok_private:
  "floor_ok i \<Longrightarrow> m = fmupd uid c (calls i) \<Longrightarrow> ac_kind c = PrivateCall \<Longrightarrow> floor_ok (i\<lparr>calls := m\<rparr>)"
  by (simp add: floor_ok_def)

lemma setup_call_floor:
  assumes "floor_ok (st_inner st)"
  shows "floor_ok (st_inner (setup_call sip ck source uid s d n sv pr raw st))"
proof -
  let ?i = "note_call uid s source (ck_now ck) (st_inner st)"
  have "floor_ok (?i\<lparr>calls := fmupd uid c (calls ?i)\<rparr>)" if "ac_kind c = PrivateCall" for c
    by (rule floor_ok_private [OF _ refl that]) (simp add: assms)
  then show ?thesis
    using assms by (simp add: setup_call_def Let_def reject_setup_def split: option.split)
qed

lemma touch_call_floor [simp]: "same_floor i (touch_call now uid i)"
  by (auto simp: touch_call_def same_floor_def touch_def option.map_comp comp_def)

lemma frames_floor:
  "same_floor (st_inner st) (st_inner (route_call_frame ck source uid raw st))"
  "same_floor (st_inner st) (st_inner (route_dtmf_frame ck source uid raw st))"
  by (auto simp: route_call_frame_def route_dtmf_frame_def call_frame_recipients_def split: option.split)

lemma control_floor:
  "floor_ok (st_inner st) \<Longrightarrow> floor_ok (st_inner (route_private_control ck source uid raw st))"
  by (auto simp: route_private_control_def end_call_floor split: option.split intro: same_floor_ok [OF touch_call_floor])

lemma raise_call_floor [simp]: "same_floor i (raise_call issi told uid i)"
  by (auto simp: raise_call_def Let_def same_floor_def split: option.split)

lemma emergency_raised_floor: "same_floor (st_inner st) (st_inner (emergency_raised issi st))"
proof -
  have "same_floor i (fold (raise_call issi told) uids i)" for told uids i
    by (induction uids arbitrary: i) (auto intro: same_floor_trans [OF raise_call_floor])
  then show ?thesis by (simp add: emergency_raised_def Let_def)
qed

section \<open>Everything else\<close>

lemma routes_floor [simp]:
  "group_floor (set_effective issi new i) = group_floor i" "group_floor (snd (reroute issi i)) = group_floor i"
  "group_floor (snd (publish issi old i)) = group_floor i" "group_floor (snd (withdraw_offer issi l i)) = group_floor i"
  using set_effective_shape [of issi new i] set_effective_shape [of issi "best_entry issi i" i]
  by (auto simp: reroute_eq publish_def withdraw_offer_def Let_def split: option.split)

lemma late_entry_floor: "same_floor i (snd (late_entry client groups i))"
  by (auto simp: late_entry_def same_floor_def Let_def option.map_comp comp_def split: option.split
      intro!: option.map_cong)

lemma requested_entry_floor: "requested_entry now source msg i = Some (new, event, j) \<Longrightarrow> same_floor i j"
  unfolding requested_entry_def Let_def local_subscriber_def tick_def
  by (auto simp: same_floor_def split: if_splits option.splits)

lemma apply_entry_floor: "same_floor i (snd (apply_entry source msg old new i))"
proof -
  obtain r i3 where p: "publish (sm_issi msg) old (if new = None then snd (reroute (sm_issi msg) (set_effective (sm_issi msg) new i))
    else set_effective (sm_issi msg) new i) = (r, i3)" by fastforce
  then have i3: "i3 = snd (publish (sm_issi msg) old (if new = None then snd (reroute (sm_issi msg) (set_effective (sm_issi msg) new i))
      else set_effective (sm_issi msg) new i))" by simp
  have "calls i3 = calls i" "group_floor i3 = group_floor i"
    using publish_frame(2) unfolding i3 by (auto simp: same_work_def)
  then have "same_floor i (snd (late_entry source joined i3))" for joined
    using late_entry_floor same_floor_eq same_floor_trans by blast
  then show ?thesis
    unfolding apply_entry_def Let_def p by (simp add: case_prod_beta)
qed

lemma handle_subscriber_floor: "same_floor (st_inner st) (st_inner (handle_subscriber ck source msg st))"
proof (cases "fmlookup (fs_links (fed (st_inner st))) source")
  case None
  show ?thesis
  proof (cases "requested_entry (ck_ms ck) source msg (st_inner st)")
    case (Some p)
    obtain new event i1 where p: "p = (new, event, i1)" by (cases p)
    obtain r i2 where r: "apply_entry source msg (fmlookup (subscribers (st_inner st)) (sm_issi msg)) new i1 = (r, i2)"
      by (cases "apply_entry source msg (fmlookup (subscribers (st_inner st)) (sm_issi msg)) new i1")
    have "same_floor (st_inner st) i1" using requested_entry_floor Some p by simp
    moreover have "same_floor i1 i2"
      using apply_entry_floor [of i1 source msg "fmlookup (subscribers (st_inner st)) (sm_issi msg)" new] r by simp
    moreover have "st_inner (subscriber_registered issi st') = st_inner st'" for issi st'
      by (simp add: subscriber_registered_def Let_def)
    ultimately show ?thesis
      using None Some p r by (cases event) (auto simp: handle_subscriber_def Let_def intro: same_floor_trans)
  qed (use None in \<open>simp add: handle_subscriber_def\<close>)
qed (simp add: handle_subscriber_def)

lemma settle_floor: "same_floor i (fst (settle issi old i))"
proof -
  obtain b i2 where r: "reroute issi i = (b, i2)" by (cases "reroute issi i")
  obtain d i3 where p: "publish issi old i2 = (d, i3)" by (cases "publish issi old i2")
  have "calls i2 = calls i" "group_floor i2 = group_floor i"
    using same_work_reroute [of i issi] routes_floor(2) [of issi i] by (simp_all add: r same_work_def)
  moreover have "calls i3 = calls i2" "group_floor i3 = group_floor i2"
    using publish_frame(2) [of i2 issi old] routes_floor(3) [of issi old i2] by (simp_all add: p same_work_def)
  ultimately show ?thesis by (simp add: settle_def r p same_floor_def)
qed

lemma relay_floor [simp]:
  "group_floor (relay_bts e a i) = group_floor i" "group_floor (relay_em e b i) = group_floor i"
  "group_floor (relay_ms e c i) = group_floor i"
  by (simp_all add: relay_bts_def relay_em_def relay_ms_def relay_to_def Let_def)

lemma handle_message_floor: "same_floor i (fst (handle_message now source nbr m i))"
proof (cases m)
  case (FedRoute issi a)
  define i1 where "i1 = (if ad_reg a > saturating_add now MAX_FUTURE_MS \<or> fs_self_id (fed i) \<in> set (ad_path a)
      then snd (withdraw_offer issi source i) else add_offer (ad_reg a) source issi a i)"
  have "same_floor i i1"
    using withdraw_offer_work [of i issi source] add_offer_work [of i "ad_reg a" source issi a]
    by (intro same_floor_eq) (auto simp: i1_def same_work_def add_offer_def)
  moreover have "handle_message now source nbr m i = settle issi (fmlookup (subscribers i) issi) i1"
    by (simp add: FedRoute handle_message_def handle_route_def settle_def i1_def add_offer_def Let_def)
  ultimately show ?thesis using settle_floor same_floor_trans by metis
next
  case (FedWithdraw issi)
  obtain had i1 where w: "withdraw_offer issi source i = (had, i1)" by (cases "withdraw_offer issi source i")
  have "same_floor i i1"
    using withdraw_offer_work [of i issi source] routes_floor(4) [of issi source i]
    by (intro same_floor_eq) (simp_all add: w same_work_def)
  moreover have "handle_message now source nbr m i =
      (if had then settle issi (fmlookup (subscribers i) issi) i1 else (i1, None))"
    by (simp add: FedWithdraw handle_message_def handle_withdraw_def settle_def w)
  ultimately show ?thesis using settle_floor same_floor_trans by (metis fst_conv)
next
  case (FedPrune uid src)
  then show ?thesis
    by (auto simp: handle_message_def handle_prune_def same_floor_def option.map_comp comp_def intro!: option.map_cong)
qed (auto simp: handle_message_def handle_hello_def accept_em_def accept_ms_def accept_bts_def relay_em_def relay_ms_def
    relay_bts_def relay_to_def Let_def same_floor_def)

section \<open>Packets, timers and lost connections\<close>

lemma positions_floor: "same_floor (st_inner st) (st_inner (record_position ev source issi p st))"
  by (auto simp: record_position_def advertise_if_local_def advertise_ms_def Let_def relay_ms_def relay_to_def
      same_floor_def split: prod.split option.split)

lemma originate_floor: "same_floor (st_inner st) (st_inner (snd (originate ck client uid s d n data st)))"
  by (auto simp: originate_def Let_def same_floor_def)

lemma report_floor: "same_floor (st_inner st) (st_inner (report_to_originator ck uid s d data why via st))"
  by (auto simp: report_to_originator_def originate_floor split: option.split)

lemma store_offline_floor:
  "store_offline_sds ev source uid s d raw st = Some st' \<Longrightarrow> same_floor (st_inner st) (st_inner st')"
proof -
  assume a: "store_offline_sds ev source uid s d raw st = Some st'"
  have r: "same_floor (st_inner st) (st_inner (report_to_originator ck' u' s' d' data' why' via' st2))"
    if "st_inner st2 = st_inner st" for ck' u' s' d' data' why' via' st2
    using report_floor [of st2] that by simp
  obtain r where p: "parse_brew raw = Some r" using a by (auto simp: store_offline_sds_def bind_eq_Some_conv)
  show ?thesis
  proof (cases "\<exists>frame. r = Inr (FrameMsg frame)")
    case True
    then obtain frame where f: "r = Inr (FrameMsg frame)" by blast
    obtain outcome sms where "sms_store (ev_sms_id ev) s d (fm_length_bits frame) (fm_data frame) (ms_of ev) (st_sms st)
        = (outcome, sms)" by (cases "sms_store (ev_sms_id ev) s d (fm_length_bits frame) (fm_data frame) (ms_of ev) (st_sms st)")
    with a p f r show ?thesis
      by (cases outcome) (auto simp: store_offline_sds_def Let_def)
  next
    case False
    with a p show ?thesis by (auto simp: store_offline_sds_def split: sum.splits brew_message.splits)
  qed
qed

lemma sds_header_floor:
  assumes "handle_sds_header ev source uid payload raw st = Some st'"
  shows "same_floor (st_inner st) (st_inner st')"
proof (cases "\<exists>s d. payload = ShortTransfer s d")
  case True
  then obtain s d where p: "payload = ShortTransfer s d" by blast
  define st1 where "st1 = on_inner (note_call uid s source (now_of ev)) st"
  have route: "same_floor (st_inner st2) (st_inner (route_sds_header ev source uid s d b raw st2))" for b st2
    by (auto simp: route_sds_header_def Let_def same_floor_def)
  have st1: "same_floor (st_inner st) (st_inner st1)" by (simp add: st1_def)
  consider "st' = st"
    | b where "st' = route_sds_header ev source uid s d b raw st1"
    | b q where "st' = route_sds_header ev source uid s d b raw (record_position ev source s q st1)"
    using assms unfolding p handle_sds_header_def call_payload.case Let_def st1_def [symmetric]
    by (cases "extract_sds_position (ev_text_position ev) raw") (auto split: if_splits option.splits)
  then show ?thesis
    by cases (use st1 route positions_floor same_floor_trans in \<open>simp, blast+\<close>)
qed (use assms in \<open>auto simp: handle_sds_header_def split: call_payload.splits\<close>)

lemma sds_verdict_floor:
  "sds_verdict_of now source uid raw i = Drop j \<Longrightarrow> same_floor i j"
  "sds_verdict_of now source uid raw i = Deliver s t f h j \<Longrightarrow> same_floor i j"
  by (auto simp: sds_verdict_of_def same_floor_def split: option.splits if_splits)

lemma sds_transfer_floor:
  assumes "handle_sds_transfer ev source uid raw st = Some st'"
  shows "same_floor (st_inner st) (st_inner st')"
proof (cases "sds_verdict_of (now_of ev) source uid raw (st_inner st)")
  case (Drop j)
  with assms sds_verdict_floor(1) [OF Drop] show ?thesis by (auto simp: handle_sds_transfer_def)
next
  case (Deliver s t f h j)
  define st3 where "st3 = on_inner (send_all t raw) (case h of Some (header, d) \<Rightarrow>
      on_monitor (record_sds (ms_of ev) uid s d) (on_inner (send_all t header) (st\<lparr>st_inner := j\<rparr>)) | None \<Rightarrow> st\<lparr>st_inner := j\<rparr>)"
  have st3: "same_floor (st_inner st) (st_inner st3)"
    using sds_verdict_floor(2) [OF Deliver] by (auto simp: st3_def split: option.split)
  have "(case f of Some d \<Rightarrow> store_offline_sds ev source uid s d raw st3 | None \<Rightarrow> Some st3) \<bind>
      (\<lambda>st4. extract_sds_position (ev_text_position ev) raw \<bind>
        (\<lambda>p. Some (case p of Some q \<Rightarrow> record_position ev source s q st4 | None \<Rightarrow> st4))) = Some st'"
    using assms Deliver unfolding handle_sds_transfer_def st3_def by (simp add: Let_def)
  then obtain st4 p where st4: "(case f of Some d \<Rightarrow> store_offline_sds ev source uid s d raw st3 | None \<Rightarrow> Some st3) = Some st4"
    "st' = (case p of Some q \<Rightarrow> record_position ev source s q st4 | None \<Rightarrow> st4)"
    by (elim bind_SomeE) (rule that, assumption, drule option.inject [THEN iffD1], erule sym)
  have "same_floor (st_inner st3) (st_inner st4)"
    using st4(1) store_offline_floor by (auto split: option.splits)
  moreover have "same_floor (st_inner st4) (st_inner st')"
    by (simp add: st4(2) positions_floor split: option.split)
  ultimately show ?thesis using st3 same_floor_trans by blast
qed

lemma sds_report_floor: "same_floor (st_inner st) (st_inner (handle_sds_report source uid raw st))"
  by (auto simp: handle_sds_report_def Let_def same_floor_def send_to_def split: option.split)

lemma service_floor: "same_floor (st_inner st) (st_inner (dispatch_service pe source sv st))"
proof -
  have push: "same_floor (st_inner st') (st_inner (push_to_consoles js st'))" for st' js
    by (simp add: push_to_consoles_def)
  have set: "st_inner (snd (set_blocked issi b st')) = st_inner st'" for issi b st'
    by (simp add: set_blocked_def)
  have app: "same_floor (st_inner st) (st_inner (snd (apply_blacklist js saved issi b st)))" for js saved issi b
    using push [of "log_effect e (snd (set_blocked issi b st))" js for e] by (simp add: apply_blacklist_def Let_def set)
  have command: "same_floor (st_inner st) (st_inner (handle_command js saved source cmd st))" for js saved cmd
  proof (cases "may_edit source st \<and> cmd \<noteq> NotJson")
    case True
    then obtain n action where cmd: "cmd = Command n action" by (cases cmd) auto
    define b where "b = (if action = Some (of_ascii ''block'') then Some True
      else if action = Some (of_ascii ''unblock'') then Some False else None)"
    define issi :: u32 where "issi = (case n of Some k \<Rightarrow> if k < 2 ^ 32 then of_nat k else 0 | None \<Rightarrow> 0)"
    show ?thesis
    proof (cases b)
      case (Some blocked)
      obtain r st' where r: "apply_blacklist js saved issi blocked st = (r, st')"
        by (cases "apply_blacklist js saved issi blocked st")
      have "same_floor (st_inner st) (st_inner st')" using app [of js saved issi blocked] r by simp
      then show ?thesis
        using True unfolding handle_command_def Let_def cmd
        by (simp add: r Some flip: b_def issi_def split: sum.split apply_error.split)
    qed (use True in \<open>simp add: handle_command_def Let_def cmd flip: b_def\<close>)
  qed (auto simp: handle_command_def Let_def)
  then show ?thesis by (simp add: dispatch_service_def split: option.split)
qed

abbreviation single_call :: "app \<Rightarrow> bool" where
  "single_call st \<equiv> \<not> cf_allow_multiple_calls_per_group (st_config st)"

lemma dispatch_floor:
  assumes "single_call st" "floor_ok (st_inner st)" "dispatch pe source raw m st = Some st'"
  shows "floor_ok (st_inner st')"
proof -
  note keep = same_floor_ok [OF _ assms(2)]
  show ?thesis
  proof (cases m)
    case (SubscriberMsg s)
    with assms(3) show ?thesis by (auto simp: dispatch_def intro!: keep handle_subscriber_floor)
  next
    case (CallControlMsg cc)
    have placed: "floor_ok (st_inner st')" if "handle_private_setup sip ck source uid payload raw st = Some st'" for sip ck uid payload
      using that assms(2) by (auto simp: handle_private_setup_def bind_eq_Some_conv intro!: setup_call_floor split: option.splits)
    show ?thesis
      using assms(2,3) CallControlMsg
      by (auto simp: dispatch_def dispatch_call_def Let_def intro: handle_group_tx_floor [OF assms(1,2)]
          keep [OF sds_header_floor] placed control_floor [OF assms(2)] end_call_floor [OF assms(2)] assms(2) split: if_splits)
  next
    case (FrameMsg f)
    show ?thesis
      using assms(2,3) FrameMsg
      by (auto simp: dispatch_def dispatch_frame_def Let_def intro: keep [OF sds_transfer_floor] keep [OF sds_report_floor]
          keep [OF frames_floor(1)] keep [OF frames_floor(2)] assms(2) split: if_splits)
  next
    case (ServiceMsg sv)
    with assms(3) show ?thesis by (auto simp: dispatch_def intro!: keep service_floor)
  next
    case (ErrorMsg e)
    with assms show ?thesis by (simp add: dispatch_def)
  qed
qed

end
