(* ===== verification/Floor_Reach.thy ===== *)
theory Floor_Reach
  imports Floor Calls_Props Builders
begin

text \<open>
  The group floor over whole executions: the configuration never changes while the server runs, and
  so every reachable state keeps the floor invariant.
\<close>

section \<open>The configuration\<close>

lemma sends_config [simp]:
  "st_config (reject_setup source uid st) = st_config st"
  "st_config (end_call ck source uid raw st) = st_config st"
  "st_config (handle_group_tx ck source uid payload raw st) = st_config st"
  "st_config (setup_call sip ck source uid s d n sv pr raw st) = st_config st"
  "st_config (route_private_control ck source uid raw st) = st_config st"
  "st_config (route_call_frame ck source uid raw st) = st_config st"
  "st_config (route_dtmf_frame ck source uid raw st) = st_config st"
  "st_config (emergency_raised issi st) = st_config st"
  by (auto simp: reject_setup_def end_call_def handle_group_tx_def setup_call_def route_private_control_def
      route_call_frame_def route_dtmf_frame_def emergency_raised_def Let_def split: call_payload.split option.split)

lemma sds_config [simp]:
  "st_config (record_position ev source issi p st) = st_config st"
  "st_config (snd (originate ck client uid s d n data st)) = st_config st"
  "st_config (report_to_originator ck uid s d data why via st) = st_config st"
  "st_config (route_sds_header ev source uid s d b raw st) = st_config st"
  "st_config (handle_sds_report source uid raw st) = st_config st"
  "st_config (subscriber_registered issi st) = st_config st"
proof -
  show originate: "st_config (snd (originate ck client uid s d n data st)) = st_config st" for ck client uid s d n data st
    by (simp add: originate_def Let_def)
  show "st_config (report_to_originator ck uid s d data why via st) = st_config st"
    by (simp add: report_to_originator_def originate split: option.split)
qed (simp_all add: record_position_def advertise_if_local_def route_sds_header_def handle_sds_report_def
    subscriber_registered_def Let_def split: prod.split option.split)

text \<open>What a fallible handler leaves, read off its body case by case.\<close>

lemma leaves_bind: "(\<And>x. m = Some x \<Longrightarrow> pred_option P (f x)) \<Longrightarrow> pred_option P (m \<bind> f)"
  by (cases m) simp_all

lemma leavesD: "pred_option P m \<Longrightarrow> m = Some x \<Longrightarrow> P x"
  by simp

lemma handlers_leave_config:
  "pred_option (\<lambda>st'. st_config st' = st_config st) (handle_private_setup sip ck source uid payload raw st)"
  "pred_option (\<lambda>st'. st_config st' = st_config st) (handle_sds_header ev source uid payload raw st)"
  "pred_option (\<lambda>st'. st_config st' = st_config st) (store_offline_sds ev source uid s d raw st)"
  by (auto simp: handle_private_setup_def handle_sds_header_def store_offline_sds_def Let_def intro!: leaves_bind
      split: call_payload.split option.split prod.split sum.split brew_message.split store_outcome.split)

lemmas handlers_config = handlers_leave_config [THEN leavesD]

lemma handle_sds_transfer_config:
  assumes "handle_sds_transfer ev source uid raw st = Some st'" shows "st_config st' = st_config st"
proof -
  have "pred_option (\<lambda>st'. st_config st' = st_config st) (handle_sds_transfer ev source uid raw st)"
    by (auto simp: handle_sds_transfer_def Let_def intro!: leaves_bind dest!: handlers_config(3)
        split: sds_verdict.split option.splits prod.split)
  then show ?thesis using assms by simp
qed

lemma console_config [simp]:
  "st_config (push_to_consoles js st) = st_config st"
  "st_config (snd (apply_blacklist js saved issi b st)) = st_config st"
  by (simp_all add: push_to_consoles_def apply_blacklist_def set_blocked_def Let_def)

lemma handle_command_config [simp]: "st_config (handle_command js saved source cmd st) = st_config st"
proof -
  have app: "st_config st' = st_config st" if "apply_blacklist js saved issi b st = (r, st')" for issi b r st'
    using console_config(2) [of js saved issi b st] that by simp
  show ?thesis
    by (auto simp: handle_command_def Let_def split: command.split prod.split sum.split apply_error.split dest!: app)
qed

lemma dispatch_config: "dispatch pe source raw m st = Some st' \<Longrightarrow> st_config st' = st_config st"
  by (auto simp: dispatch_def dispatch_call_def dispatch_frame_def dispatch_service_def handle_subscriber_def Let_def
      dest: handlers_config handle_sds_transfer_config split: brew_message.splits if_splits option.splits prod.splits)

lemma handle_packet_config:
  assumes "handle_packet pe source raw st = Some st'" shows "st_config st' = st_config st"
proof -
  have disp: "pred_option (\<lambda>st'. st_config st' = st_config st1) (dispatch pe source raw m st2)"
    if "st_config st2 = st_config st1" for m st1 st2
    using dispatch_config [of pe source raw m st2] that by (cases "dispatch pe source raw m st2") auto
  have "pred_option (\<lambda>st'. st_config st' = st_config st) (handle_packet pe source raw st)"
    by (auto simp: handle_packet_def handle_federation_def purge_ephemeral_def Let_def intro!: leaves_bind disp
        split: option.split sum.split prod.split)
  then show ?thesis using assms by simp
qed

lemma cleanup_config [simp]: "st_config (cleanup_client ck c st) = st_config st"
proof -
  have "st_config (fold (\<lambda>uid s. log_effect (BridgeTeardown uid) (on_monitor (call_ended (ck_ms ck) uid) s)) us st') = st_config st'"
    for us st' by (induction us arbitrary: st') simp_all
  then show ?thesis by (simp add: cleanup_client_def split: prod.split)
qed

lemma timers_config [simp]:
  "st_config (call_duration_sweep ck st) = st_config st" "st_config (sms_tick ck fresh st) = st_config st"
proof -
  have "st_config (fold (force_end ck) us st') = st_config st'" for us st'
    by (induction us arbitrary: st') (auto simp: force_end_def Let_def split: option.split)
  then show "st_config (call_duration_sweep ck st) = st_config st" by (simp add: call_duration_sweep_def)
  have report: "st_config (report_all ck why ms st') = st_config st'" for why ms st'
    by (induction ms arbitrary: st') auto
  have log: "st_config (fold (\<lambda>d. log_effect (DeliveryStarted d)) ds st') = st_config st'" for ds st'
    by (induction ds arbitrary: st') auto
  show "st_config (sms_tick ck fresh st) = st_config st"
    by (simp add: sms_tick_def Let_def report log split: prod.split)
qed

lemma deliver_config: "deliver_pending force turns issi st = Some st' \<Longrightarrow> st_config st' = st_config st"
proof (induction force turns issi st rule: deliver_pending.induct)
  case (2 force ck fresh turns issi st)
  have one: "st_config st1 = st_config st" if "deliver_one force ck fresh issi st = (b, st1)" for b st1
  proof -
    have o': "st_config s2 = st_config s1" if "originate ck client fresh s d n data s1 = (b', s2)" for client s d n data s1 b' s2
      using sds_config(2) [of ck client fresh s d n data s1] that by simp
    show ?thesis
      using that by (auto simp: deliver_one_def Let_def split: option.splits prod.splits if_splits dest!: o')
  qed
  with 2 show ?case by (auto split: prod.splits bool.splits)
qed simp

lemma server_step_config: "server_step st st' \<Longrightarrow> st_config st' = st_config st"
  by (induction rule: server_step.induct) (simp_all add: open_session_def handle_packet_config deliver_config)

section \<open>The steps\<close>

lemma handle_packet_floor:
  assumes "single_call st" "floor_ok (st_inner st)" "handle_packet pe source raw st = Some st'"
  shows "floor_ok (st_inner st')"
proof -
  define s1 where "s1 = purge_ephemeral (ev_clock (pe_env pe)) st"
  have s1: "single_call s1" "floor_ok (st_inner s1)"
    using assms by (simp_all add: s1_def purge_ephemeral_def purge_tables_def purge_bts_def Let_def floor_ok_def)
  have promote: "floor_ok (snd (promote_client_version c v i)) = floor_ok i" for c v i
    by (simp add: promote_client_version_def floor_ok_def split: option.split)
  have fed: "pred_option (\<lambda>p. floor_ok (fst p)) (fed_handle now source raw (st_inner s1))" for now
    using same_floor_ok [OF handle_message_floor s1(2)]
    by (auto simp: fed_handle_def s1(2) intro!: leaves_bind split: option.split sum.split)
  have disp: "pred_option (\<lambda>st'. floor_ok (st_inner st')) (dispatch pe source raw m s2)"
    if "s2 = s1 \<or> s2 = on_inner (\<lambda>i. snd (promote_client_version source v i)) s1" for m s2 v
  proof -
    have "single_call s2" "floor_ok (st_inner s2)" using that s1 promote by auto
    then show ?thesis using dispatch_floor [of s2 pe source raw m] by (cases "dispatch pe source raw m s2") auto
  qed
  have registered: "st_inner (subscriber_registered issi st') = st_inner st'" for issi st'
    by (simp add: subscriber_registered_def Let_def)
  have "pred_option (\<lambda>st'. floor_ok (st_inner st')) (handle_packet pe source raw st)"
    unfolding handle_packet_def Let_def s1_def [symmetric] handle_federation_def
    by (auto simp: s1(2) registered intro!: leaves_bind disp dest!: leavesD [OF fed] split: option.split sum.split)
  then show ?thesis using assms(3) by simp
qed

text \<open>A lost connection ends its calls the way \<open>end_call\<close> does.\<close>

lemma end_involved_floor: "floor_ok (snd s) \<Longrightarrow> floor_ok (snd (end_involved c uid s))"
proof (cases s)
  case (Pair removed i)
  assume "floor_ok (snd s)"
  then have "floor_ok (drop_floor uid call (i\<lparr>calls := fmdrop uid (calls i)\<rparr>))" for call
    by (simp add: Pair floor_ok_drop)
  moreover have "floor_ok (i\<lparr>calls := fmupd uid (call\<lparr>ac_peers := p\<rparr>) (calls i)\<rparr>)"
    if "fmlookup (calls i) uid = Some call" for call p
    using \<open>floor_ok (snd s)\<close> that by (simp add: Pair floor_ok_def)
  ultimately show ?thesis
    using \<open>floor_ok (snd s)\<close> by (simp add: end_involved_def Pair Let_def split: option.split)
qed

lemma cleanup_floor:
  assumes "routes_ok (st_inner st)" "floor_ok (st_inner st)" shows "floor_ok (st_inner (cleanup_client ck c st))"
proof -
  let ?j = "cleanup_routes c (st_inner st)"
  have reroutes: "group_floor (fold reroute_and_publish ps i) = group_floor i" for ps i
    by (induction ps arbitrary: i) (simp_all add: reroute_and_publish_def)
  have "group_floor ?j = group_floor (st_inner st)"
    by (simp add: cleanup_routes_def Let_def reroutes flip: forgotten_def [unfolded Let_def])
      (simp add: drop_memberships_def fold_forget drop_connection_def)
  moreover have "calls ?j = calls (st_inner st)"
    using cleanup_routes_ok(2) [OF assms(1), of c] by (simp add: same_work_def forgotten_frame)
  ultimately have j: "floor_ok ?j" using assms(2) by (simp add: floor_ok_def)
  have "floor_ok (snd (fold (end_involved c) us s))" if "floor_ok (snd s)" for us s
    using that by (induction us arbitrary: s) (simp_all add: end_involved_floor)
  from this [of "([], ?j)" "involved c ?j"] j show ?thesis
    by (cases "fold (end_involved c) (involved c ?j) ([], ?j)")
      (simp add: cleanup_client_inner cleanup_calls_def involved_def Let_def floor_ok_def)
qed

lemma timers_floor:
  "floor_ok (st_inner st) \<Longrightarrow> floor_ok (st_inner (call_duration_sweep ck st))"
  "same_floor (st_inner st) (st_inner (sms_tick ck fresh st))"
proof -
  have "floor_ok (st_inner (fold (force_end ck) us st))" if "floor_ok (st_inner st)" for us st
    using that by (induction us arbitrary: st) (auto simp: force_end_def end_call_floor split: prod.split)
  then show "floor_ok (st_inner st) \<Longrightarrow> floor_ok (st_inner (call_duration_sweep ck st))"
    by (simp add: call_duration_sweep_def)
  have report: "same_floor (st_inner st) (st_inner (report_all ck why ms st'))"
    if "same_floor (st_inner st) (st_inner st')" for why ms st'
    using that
  proof (induction ms arbitrary: st')
    case (Cons p ms)
    obtain m fresh where p: "p = (m, fresh)" by (cases p)
    show ?case unfolding p report_all.simps
      by (rule Cons.IH, rule same_floor_trans [OF Cons.prems report_floor])
  qed simp
  have log: "st_inner (fold (\<lambda>d. log_effect (DeliveryStarted d)) ds st') = st_inner st'" for ds st'
    by (induction ds arbitrary: st') auto
  show "same_floor (st_inner st) (st_inner (sms_tick ck fresh st))"
    by (simp add: sms_tick_def Let_def report log split: prod.split)
qed

lemma deliver_floor:
  "deliver_pending force turns issi st = Some st' \<Longrightarrow> same_floor (st_inner st) (st_inner st')"
proof (induction force turns issi st rule: deliver_pending.induct)
  case (2 force ck fresh turns issi st)
  have one: "same_floor (st_inner st) (st_inner (snd (deliver_one force ck fresh issi st)))"
  proof (cases "client_of issi (st_inner st)")
    case (Some client)
    obtain m sms where t: "take_next_due fresh issi force (ck_ms ck) (st_sms st) = (m, sms)"
      by (cases "take_next_due fresh issi force (ck_ms ck) (st_sms st)")
    have o': "same_floor (st_inner st) (st_inner (snd (originate ck client fresh s d n data (st\<lparr>st_sms := sms\<rparr>))))" for s d n data
      using originate_floor [of "st\<lparr>st_sms := sms\<rparr>"] by simp
    show ?thesis
    proof (cases m)
      case (Some q)
      obtain b st2 where "originate ck client fresh (ss_source_issi q) (ss_destination q) (ss_length_bits q) (sms_data q)
          (st\<lparr>st_sms := sms\<rparr>) = (b, st2)"
        by (cases "originate ck client fresh (ss_source_issi q) (ss_destination q) (ss_length_bits q) (sms_data q) (st\<lparr>st_sms := sms\<rparr>)")
      with o' [of "ss_source_issi q" "ss_destination q" "ss_length_bits q" "sms_data q"] show ?thesis
        by (simp add: deliver_one_def \<open>client_of issi (st_inner st) = Some client\<close> t Some)
    qed (simp add: deliver_one_def Some t)
  qed (simp add: deliver_one_def)
  obtain b st1 where d: "deliver_one force ck fresh issi st = (b, st1)"
    by (cases "deliver_one force ck fresh issi st")
  show ?case
  proof (cases b)
    case True
    with 2 d have "same_floor (st_inner st1) (st_inner st')" by simp
    with one d show ?thesis using same_floor_trans [of "st_inner st" "st_inner st1"] by simp
  qed (use 2 one d in simp)
qed simp

lemma open_session_floor: "same_floor (st_inner st) (st_inner (open_session c mode v addr now user n console st))"
  by (simp add: open_session_def attach_client_def Let_def same_floor_def send_to_def split: option.split)

lemma advertise_own_floor:
  "same_floor i (advertise_emergency now issi dest bts active i)" "same_floor i (advertise_bts now key name lat lon online i)"
  by (auto simp: advertise_emergency_def advertise_bts_def relay_em_def relay_bts_def relay_to_def tick_def
      same_floor_def Let_def split: prod.split option.split)

lemma server_step_floor:
  "server_step st st' \<Longrightarrow> app_ok st \<Longrightarrow> single_call st \<Longrightarrow> floor_ok (st_inner st) \<Longrightarrow> floor_ok (st_inner st')"
proof (induction rule: server_step.induct)
  case (lost c st ck)
  then show ?case by (simp add: cleanup_floor app_ok_def inner_ok_routes)
qed (simp_all add: push_to_consoles_def timers_floor(1) handle_packet_floor same_floor_ok [OF open_session_floor]
    same_floor_ok [OF advertise_own_floor(1)] same_floor_ok [OF advertise_own_floor(2)] same_floor_ok [OF timers_floor(2)]
    same_floor_ok [OF deliver_floor] same_floor_ok [OF emergency_raised_floor])

lemma reachable_floor:
  "server_step\<^sup>*\<^sup>* st st' \<Longrightarrow> app_ok st \<Longrightarrow> single_call st \<Longrightarrow> floor_ok (st_inner st) \<Longrightarrow>
     single_call st' \<and> floor_ok (st_inner st')"
proof (induction rule: rtranclp_induct)
  case (step st1 st2)
  then show ?case
    using server_step_floor [OF step.hyps(2)] server_step_config [OF step.hyps(2)]
      reachable_app_ok [OF step.hyps(1) step.prems(1)] by simp
qed simp

section \<open>One call per group\<close>

lemma floor_ok_start: "floor_ok (st_inner (start cfg history sms self_id))"
  by (simp add: start_def floor_ok_def empty_inner_def)


text \<open>A Basestation's group transmission, taken as a packet.\<close>

definition plain_packet :: packet_env where
  "plain_packet = \<lparr>pe_env = plain_env, pe_rssi = (\<lambda>_. None), pe_command = (\<lambda>_. NotJson),
     pe_json = \<lparr>js_list = (\<lambda>_ _. []), js_error = (\<lambda>_. [])\<rparr>, pe_saved = None\<rparr>"

lemma talking:
  "\<exists>st call. handle_packet plain_packet 1 (build_group_tx 77 4013 91 0) two_stations = Some st \<and>
     fmlookup (calls (st_inner st)) 77 = Some call \<and> ac_kind call = GroupCall \<and> ac_destination call = 91"
proof -
  let ?raw = "build_group_tx 77 4013 91 0" and ?s = "purge_ephemeral \<lparr>ck_now = 5, ck_ms = 5\<rparr> two_stations"
  have version: "client_version 1 (st_inner ?s) = V1" "is_peer (st_inner ?s) 1 = False"
    by (simp_all add: client_version_def is_peer_def two_stations_def open_session_def attach_client_def
        session_client_def start_def empty_inner_def)
  have idle: "group_floor (st_inner ?s) = fmempty" "is_blocked ?s 4013 = False"
    by (simp_all add: purge_ephemeral_def purge_tables_def purge_bts_def Let_def two_stations_def open_session_def
        attach_client_def session_client_def start_def empty_inner_def is_blocked_def quiet_config_def)
  have no_fed: "get_at ?raw 0 \<noteq> Some CLASS_FEDERATION" by (simp add: build_group_tx_def get_at_def)
  show ?thesis
    using no_fed idle version
    by (simp add: handle_packet_def plain_packet_def plain_env_def Let_def group_tx_roundtrip dispatch_def dispatch_call_def
        handle_group_tx_def arbitrate_floor_def record_group_call_def send_group_tx_def note_call_def)
qed


end
