(* ===== verification/Store_Log.thy ===== *)
theory Store_Log
  imports State
begin

text \<open>
  The history log (\<open>src/src/store.rs\<close>): a file of length-prefixed records, appended in order and
  read back up to the first incomplete one, and the set of content hashes that keeps a replicated
  record from being appended twice.  The file is its bytes; bincode is a parameter.
\<close>

section \<open>Frames\<close>

definition fnv_step :: "u64 \<Rightarrow> u8 \<Rightarrow> u64" where
  "fnv_step h b = (h XOR ucast b) * 0x00000100000001b3"

definition body_hash :: "bytes \<Rightarrow> u64" where
  "body_hash body = foldl fnv_step 0xcbf29ce484222325 body"

text \<open>The loop of \<open>split_frames\<close> from position \<open>pos\<close>.\<close>

definition frame_end :: "bytes \<Rightarrow> nat \<Rightarrow> nat" where
  "frame_end buf pos = pos + 4 + unat (le_val (take 4 (drop pos buf)) :: u32)"

function frames_from :: "bytes \<Rightarrow> nat \<Rightarrow> bytes list \<times> nat" where
  "frames_from buf pos =
     (if pos + 4 \<le> length buf \<and> frame_end buf pos \<le> length buf
      then let (out, p) = frames_from buf (frame_end buf pos)
           in (take (frame_end buf pos - (pos + 4)) (drop (pos + 4) buf) # out, p)
      else ([], pos))"
  by auto
termination by (relation "measure (\<lambda>(buf, pos). length buf - pos)") (auto simp: frame_end_def)

declare frames_from.simps [simp del]

lemma frames_from_bounds:
  "pos \<le> length buf \<Longrightarrow> pos \<le> snd (frames_from buf pos) \<and> snd (frames_from buf pos) \<le> length buf"
proof (induction buf pos rule: frames_from.induct)
  case (1 buf pos)
  obtain out p where r: "frames_from buf (frame_end buf pos) = (out, p)" by fastforce
  have "pos \<le> frame_end buf pos" by (simp add: frame_end_def)
  with 1 r show ?case by (auto simp: frames_from.simps [of buf pos])
qed

definition split_frames :: "bytes \<Rightarrow> bytes list \<times> nat" where
  "split_frames buf = frames_from buf 0"

text \<open>What one append writes.\<close>

definition frame :: "bytes \<Rightarrow> bytes" where
  "frame body = le_bytes 4 (of_nat (length body) :: u32) @ body"

abbreviation frames :: "bytes list \<Rightarrow> bytes" where "frames bodies \<equiv> concat (map frame bodies)"

abbreviation fits :: "bytes \<Rightarrow> bool" where "fits body \<equiv> length body < 2 ^ 32"

text \<open>The bytes a crash in the middle of an append leaves.\<close>

definition torn :: "bytes \<Rightarrow> bool" where
  "torn t \<longleftrightarrow> length t < 4 \<or> length t < 4 + unat (le_val (take 4 t) :: u32)"

lemma frame_head: "fits body \<Longrightarrow> unat (le_val (take 4 (frame body @ rest)) :: u32) = length body"
  by (simp add: frame_def unat_of_nat)

lemma drop_frame [simp]: "drop 4 (frame body) = body"
  by (simp add: frame_def)

lemma length_frame [simp]: "length (frame body) = 4 + length body"
  by (simp add: frame_def)

lemma frames_from_frame:
  assumes "fits body" "length pre = pos"
  shows "frames_from (pre @ frame body @ rest) pos =
    (let (out, p) = frames_from (pre @ frame body @ rest) (pos + length (frame body)) in (body # out, p))"
proof -
  let ?buf = "pre @ frame body @ rest"
  have "drop pos ?buf = frame body @ rest" using assms(2) by simp
  then have e: "frame_end ?buf pos = pos + 4 + length body"
    using frame_head [OF assms(1), of rest] by (simp add: frame_end_def)
  show ?thesis
    by (subst frames_from.simps) (use assms(2) in \<open>simp add: e add.assoc\<close>)
qed

lemma frames_from_torn:
  assumes "torn t" "length pre = pos" shows "frames_from (pre @ t) pos = ([], pos)"
  using assms by (subst frames_from.simps) (auto simp: torn_def frame_end_def)

lemma frames_from_frames:
  assumes "\<forall>b \<in> set bodies. fits b" "torn t" "length pre = pos"
  shows "frames_from (pre @ frames bodies @ t) pos = (bodies, pos + length (frames bodies))"
  using assms
proof (induction bodies arbitrary: pre pos)
  case (Cons b bs)
  have "frames_from ((pre @ frame b) @ frames bs @ t) (pos + length (frame b)) =
      (bs, pos + length (frame b) + length (frames bs))"
    by (rule Cons.IH) (use Cons.prems in auto)
  moreover have "fits b" using Cons.prems by simp
  ultimately show ?case
    using frames_from_frame [of b pre pos "frames bs @ t"] Cons.prems(3) by simp
qed (simp add: frames_from_torn)

lemma torn_Nil [simp]: "torn []"
  by (simp add: torn_def)

lemma split_frames_frames:
  assumes "\<forall>b \<in> set bodies. fits b" "torn t"
  shows "split_frames (frames bodies @ t) = (bodies, length (frames bodies))"
  using frames_from_frames [OF assms, of "[]" 0] by (simp add: split_frames_def)

section \<open>The store\<close>

record store =
  so_file :: bytes
  so_known :: "u64 fset"

definition store_open :: "bytes \<Rightarrow> store" where
  "store_open file = \<lparr>so_file = file, so_known = fset_of_list (map body_hash (fst (split_frames file)))\<rparr>"

text \<open>\<open>fault = Some k\<close>: the write fails after \<open>k\<close> bytes.  The result is whether it went well.\<close>

definition append_body :: "nat option \<Rightarrow> bytes \<Rightarrow> store \<Rightarrow> bool \<times> store" where
  "append_body fault body s =
     (case fault of
        Some k \<Rightarrow> (False, s\<lparr>so_file := so_file s @ take k (frame body)\<rparr>)
      | None \<Rightarrow> (True, s\<lparr>so_file := so_file s @ frame body, so_known := finsert (body_hash body) (so_known s)\<rparr>))"

definition append_record :: "('r \<Rightarrow> bytes option) \<Rightarrow> nat option \<Rightarrow> 'r \<Rightarrow> store \<Rightarrow> bool \<times> store" where
  "append_record enc fault r s =
     (case enc r of None \<Rightarrow> (False, s) | Some body \<Rightarrow> append_body fault body s)"

text \<open>\<open>None\<close> is an error; \<open>Some None\<close> a record that is already there.\<close>

definition append_replicated ::
  "(bytes \<Rightarrow> 'r option) \<Rightarrow> nat option \<Rightarrow> bytes \<Rightarrow> store \<Rightarrow> 'r option option \<times> store" where
  "append_replicated dec fault body s =
     (if body_hash body |\<in>| so_known s then (Some None, s)
      else (case dec body of
              None \<Rightarrow> (None, s)
            | Some r \<Rightarrow> (case append_body fault body s of
                           (True, s') \<Rightarrow> (Some (Some r), s') | (False, s') \<Rightarrow> (None, s'))))"

definition read_frames :: "nat \<Rightarrow> nat \<Rightarrow> bytes \<Rightarrow> nat \<times> bytes \<times> nat" where
  "read_frames offset max_len file =
     (let start = (if length file < offset then 0 else offset);
          buf = take max_len (drop start file);
          (bodies, used) = split_frames buf;
          need = 4 + unat (le_val (take 4 buf) :: u32)
      in if bodies = [] \<and> 4 \<le> length buf \<and> start + need \<le> length file
         then (start, take need (drop start file), start + need)
         else (start, take used buf, start + used))"

fun decode_all :: "(bytes \<Rightarrow> 'r option) \<Rightarrow> bytes list \<Rightarrow> 'r list" where
  "decode_all dec [] = []"
| "decode_all dec (b # bs) = (case dec b of Some r \<Rightarrow> r # decode_all dec bs | None \<Rightarrow> [])"

definition store_replay :: "(bytes \<Rightarrow> 'r option) \<Rightarrow> bytes option \<Rightarrow> 'r list" where
  "store_replay dec file = (case file of None \<Rightarrow> [] | Some f \<Rightarrow> decode_all dec (fst (split_frames f)))"

text \<open>A store in order: its file is exactly its records, and the hashes of all of them are known.\<close>

definition holds :: "bytes list \<Rightarrow> store \<Rightarrow> bool" where
  "holds bodies s \<longleftrightarrow> so_file s = frames bodies \<and> (\<forall>b \<in> set bodies. fits b) \<and>
     so_known s = fset_of_list (map body_hash bodies)"

lemma holds_open: "\<forall>b \<in> set bodies. fits b \<Longrightarrow> holds bodies (store_open (frames bodies))"
  using split_frames_frames [of bodies "[]"] by (simp add: holds_def store_open_def)

lemma holds_append: "holds bodies s \<Longrightarrow> fits b \<Longrightarrow> holds (bodies @ [b]) (snd (append_body None b s))"
  by (auto simp: holds_def append_body_def)

lemma holds_replay:
  "holds bodies s \<Longrightarrow> store_replay dec (Some (so_file s)) = decode_all dec bodies"
  using split_frames_frames [of bodies "[]"] by (simp add: holds_def store_replay_def)

lemma torn_append: "torn (t @ x) \<Longrightarrow> 4 \<le> length t \<Longrightarrow> torn t"
  by (auto simp: torn_def)

text \<open>Opening a log does not cut a torn tail off: a record appended after it is swallowed by the torn
  one's length, and lost.\<close>

lemma append_after_crash_lost:
  assumes "\<forall>b \<in> set bodies. fits b" "fits lost" "4 \<le> k" "k + 4 + length b < 4 + length lost"
  shows "fst (split_frames (so_file (snd (append_body None b (store_open (frames bodies @ take k (frame lost))))))) = bodies"
proof -
  have "take 4 (take k (frame lost) @ frame b) = take 4 (frame lost)"
    using assms(3) by (simp add: min_absorb1 take_Cons' min_def)
  then have "torn (take k (frame lost) @ frame b)"
    using assms(4) frame_head [OF assms(2), of "[]"] by (simp add: torn_def min_def)
  from split_frames_frames [OF assms(1) this] show ?thesis
    by (simp add: append_body_def store_open_def)
qed

lemma torn_take: "fits b \<Longrightarrow> k < length (frame b) \<Longrightarrow> torn (take k (frame b))"
  using frame_head [of b "[]"] by (cases "4 \<le> k") (simp_all add: torn_def min_def)

section \<open>Reading from an offset\<close>

text \<open>A prefix of whole frames is whole frames and a torn one.\<close>

lemma take_frames:
  assumes "\<forall>b \<in> set bodies. fits b"
  shows "\<exists>n t. n \<le> length bodies \<and> take k (frames bodies) = frames (take n bodies) @ t \<and> torn t \<and>
    (n < length bodies \<or> t = [])"
  using assms
proof (induction bodies arbitrary: k)
  case (Cons b bs)
  show ?case
  proof (cases "k < length (frame b)")
    case True
    then have "torn (take k (frame b))" using torn_take Cons.prems by simp
    then show ?thesis using True by (intro exI [of _ 0] exI [of _ "take k (frame b)"]) simp
  next
    case False
    obtain n t where n: "n \<le> length bs" "take (k - length (frame b)) (frames bs) = frames (take n bs) @ t" "torn t"
      "n < length bs \<or> t = []"
      using Cons.IH [of "k - length (frame b)"] Cons.prems by auto
    then show ?thesis
      using False by (intro exI [of _ "Suc n"] exI [of _ t]) auto
  qed
qed simp

lemma read_frames_boundary:
  assumes "\<forall>b \<in> set (xs @ ys). fits b" "4 \<le> max_len" "ys \<noteq> []"
  shows "\<exists>n. 0 < n \<and> n \<le> length ys \<and>
    read_frames (length (frames xs)) max_len (frames (xs @ ys)) =
      (length (frames xs), frames (take n ys), length (frames (xs @ take n ys)))"
proof -
  let ?off = "length (frames xs)" and ?buf = "take max_len (frames ys)"
  obtain n t where n: "n \<le> length ys" "?buf = frames (take n ys) @ t" "torn t" "n < length ys \<or> t = []"
    using take_frames [of ys max_len] assms(1) by auto
  have split: "split_frames ?buf = (take n ys, length (frames (take n ys)))"
    unfolding n(2) by (rule split_frames_frames) (use assms(1) n(3) in \<open>auto dest: in_set_takeD\<close>)
  have drop: "drop ?off (frames (xs @ ys)) = frames ys" by simp
  show ?thesis
  proof (cases "n = 0")
    case False
    moreover have "take (length (frames (take n ys))) ?buf = frames (take n ys)" by (simp add: n(2))
    ultimately show ?thesis
      using n(1) split assms(3)
      by (intro exI [of _ n]) (simp add: read_frames_def Let_def drop del: take_take)
  next
    case True
    obtain y ys' where ys: "ys = y # ys'" using assms(3) by (cases ys) auto
    have "4 \<le> length ?buf" using assms(2) by (simp add: ys)
    moreover have "take 4 ?buf = take 4 (frame y @ frames ys')"
      using assms(2) by (simp add: ys min_absorb1)
    then have "unat (le_val (take 4 ?buf) :: u32) = length y"
      using frame_head [of y "frames ys'"] assms(1) ys by simp
    ultimately have "read_frames ?off max_len (frames (xs @ ys)) = (?off, frame y, ?off + length (frame y))"
      using split True by (simp add: read_frames_def Let_def drop) (simp add: ys)
    then show ?thesis by (intro exI [of _ 1]) (simp add: ys)
  qed
qed

lemma read_frames_end: "read_frames (length file) max_len file = (length file, [], length file)"
  by (simp add: read_frames_def Let_def split_frames_def frames_from.simps)

section \<open>Crash safety\<close>

text \<open>C9. The log survives a crash: after any records were appended, and one more append was cut off
  by a crash or a failing disk at any byte, replaying the file yields exactly the records appended
  completely, in order.\<close>

theorem crash_safe:
  assumes "\<forall>b \<in> set bodies. fits b" "fits lost" "k < length (frame lost)"
  shows "let s = fold (\<lambda>b s. snd (append_body None b s)) bodies (store_open []) in
    store_replay dec (Some (so_file (snd (append_body (Some k) lost s)))) = decode_all dec bodies"
proof -
  have "holds (bs @ bodies) (fold (\<lambda>b s. snd (append_body None b s)) bodies s)" if "holds bs s" for bs s
    using that assms(1)
  proof (induction bodies arbitrary: bs s)
    case (Cons b bodies)
    have "holds (bs @ [b]) (snd (append_body None b s))" using holds_append Cons.prems by simp
    from Cons.IH [OF this] Cons.prems show ?case by simp
  qed simp
  from this [OF holds_open [of "[]"]]
  have "holds bodies (fold (\<lambda>b s. snd (append_body None b s)) bodies (store_open []))" by simp
  then show ?thesis
    using split_frames_frames [OF assms(1) torn_take [OF assms(2,3)]]
    by (simp add: holds_def append_body_def store_replay_def Let_def)
qed

text \<open>A third record cut off after its prefix and one byte.\<close>

theorem crash_safe_witness:
  "let s = fold (\<lambda>b s. snd (append_body None b s)) [[7, 8], []] (store_open []) in
    store_replay Some (Some (so_file (snd (append_body (Some 5) [9, 9] s)))) = [[7, 8], []]"
  using crash_safe [of "[[7, 8], []]" "[9, 9]" 5 Some] by (simp add: Let_def)

end
