(* ===== verification/Election.thy ===== *)
theory Election
  imports State
begin

text \<open>
  The election between the two nodes of a high-availability pair (\<open>src/src/ha.rs\<close>): the pure
  state machine \<open>Election\<close>, driven by \<open>tick\<close> with the time, the last valid heartbeat of the
  peer (or none) and the gateway check, and by the operator's two switches.
\<close>

abbreviation (input) HANDOVER_TIMEOUT_MS :: u64 where "HANDOVER_TIMEOUT_MS \<equiv> 5000"

datatype role = Init | Standby | Active | Fault

record peer_view =
  pv_node :: rstring
  pv_role :: role
  pv_weight :: u32
  pv_persist :: bool
  pv_hold :: bool
  pv_handover_to :: "rstring option"
  pv_handover_manual :: bool
  pv_takeover_request :: bool
  pv_synced :: bool

record handover =
  ho_to :: rstring
  ho_manual :: bool
  ho_until_ms :: u64

record election =
  el_node :: rstring
  el_weight :: u32
  el_persist :: bool
  el_role :: role
  el_hold :: bool
  el_handover :: "handover option"
  el_takeover_until_ms :: "u64 option"
  el_init_until_ms :: u64

definition new_election :: "rstring \<Rightarrow> u32 \<Rightarrow> bool \<Rightarrow> u64 \<Rightarrow> u64 \<Rightarrow> election" where
  "new_election node weight persist now_ms listen_ms =
     \<lparr>el_node = node, el_weight = weight, el_persist = persist, el_role = Init, el_hold = False,
      el_handover = None, el_takeover_until_ms = None, el_init_until_ms = now_ms + listen_ms\<rparr>"

text \<open>Both compare Rust tuples: lexicographically.\<close>

definition preferred :: "u32 \<times> rstring \<Rightarrow> u32 \<times> rstring \<Rightarrow> bool" where
  "preferred a b \<longleftrightarrow> b < a"

definition outranks :: "bool \<times> u32 \<times> rstring \<Rightarrow> bool \<times> u32 \<times> rstring \<Rightarrow> bool" where
  "outranks a b \<longleftrightarrow> b < a"

definition handover_target :: "election \<Rightarrow> (rstring \<times> bool) option" where
  "handover_target e = map_option (\<lambda>h. (ho_to h, ho_manual h)) (el_handover e)"

definition takeover_requested :: "u64 \<Rightarrow> election \<Rightarrow> bool" where
  "takeover_requested now_ms e \<longleftrightarrow> (case el_takeover_until_ms e of None \<Rightarrow> False | Some t \<Rightarrow> now_ms < t)"

definition set_role :: "role \<Rightarrow> election \<Rightarrow> election" where
  "set_role r e =
     (let e1 = (if r \<noteq> Active then e\<lparr>el_hold := False\<rparr> else e);
          e2 = (if r \<noteq> Standby then e1\<lparr>el_takeover_until_ms := None\<rparr> else e1)
      in e2\<lparr>el_role := r\<rparr>)"

definition start_handover :: "rstring \<Rightarrow> bool \<Rightarrow> u64 \<Rightarrow> election \<Rightarrow> election" where
  "start_handover to manual now_ms e =
     set_role Standby
       (e\<lparr>el_handover := Some \<lparr>ho_to = to, ho_manual = manual, ho_until_ms = now_ms + HANDOVER_TIMEOUT_MS\<rparr>\<rparr>)"

section \<open>The operator's switches\<close>

definition request_handover ::
  "peer_view option \<Rightarrow> u64 \<Rightarrow> bool \<Rightarrow> election \<Rightarrow> (string + unit) \<times> election" where
  "request_handover peer now_ms manual e =
     (if el_role e \<noteq> Active then (Inl ''this node is not Active'', e)
      else (case peer of
              Some p \<Rightarrow> if pv_role p = Standby \<or> pv_role p = Init
                        then (Inr (), start_handover (pv_node p) manual now_ms e)
                        else (Inl ''no healthy Standby peer to hand over to'', e)
            | None \<Rightarrow> (Inl ''no healthy Standby peer to hand over to'', e)))"

definition request_standby :: "peer_view option \<Rightarrow> u64 \<Rightarrow> election \<Rightarrow> (string + unit) \<times> election" where
  "request_standby peer now_ms e = request_handover peer now_ms True e"

definition request_active :: "peer_view option \<Rightarrow> u64 \<Rightarrow> election \<Rightarrow> (string + unit) \<times> election" where
  "request_active peer now_ms e =
     (case el_role e of
        Active \<Rightarrow> (Inl ''this node is already Active'', e)
      | Fault \<Rightarrow> (Inl ''this node is in Fault (gateway unreachable)'', e)
      | Init \<Rightarrow> (Inl ''this node is still starting up'', e)
      | Standby \<Rightarrow>
          if peer = None then (Inl ''peer is not reachable'', e)
          else (Inr (), e\<lparr>el_takeover_until_ms := Some (now_ms + HANDOVER_TIMEOUT_MS)\<rparr>))"

section \<open>One tick\<close>

text \<open>\<open>tick\<close> in the order of the code: expired requests, the gateway, the listening phase, a dead
  peer, a handover of our own, one of the peer's, a peer in Fault, and then by role.  Its
  \<open>unreachable!\<close> is the panic \<open>None\<close>.\<close>

definition my_rank :: "election \<Rightarrow> u32 \<times> rstring" where
  "my_rank e = (el_weight e, el_node e)"

definition their_rank :: "peer_view \<Rightarrow> u32 \<times> rstring" where
  "their_rank p = (pv_weight p, pv_node p)"

definition tick_active :: "u64 \<Rightarrow> peer_view \<Rightarrow> election \<Rightarrow> election" where
  "tick_active now_ms p e =
     (if pv_role p = Active then
        (if outranks (pv_persist p \<or> pv_hold p, their_rank p) (el_persist e \<or> el_hold e, my_rank e)
         then set_role Standby e else e)
      else if pv_takeover_request p then start_handover (pv_node p) True now_ms e
      else if \<not> el_persist e \<and> \<not> el_hold e \<and> pv_synced p \<and> preferred (their_rank p) (my_rank e)
      then start_handover (pv_node p) False now_ms e
      else e)"

definition tick_passive :: "u64 \<Rightarrow> peer_view \<Rightarrow> election \<Rightarrow> election" where
  "tick_passive now_ms p e =
     (if pv_role p \<noteq> Active then
        let takeover = takeover_requested now_ms e in
        if takeover \<or> preferred (my_rank e) (their_rank p)
        then (set_role Active e)\<lparr>el_hold := takeover\<rparr>
        else set_role Standby e
      else set_role Standby e)"

definition tick_peer :: "u64 \<Rightarrow> peer_view \<Rightarrow> election \<Rightarrow> election panics" where
  "tick_peer now_ms p e =
     (if pv_handover_to p = Some (el_node e)
      then Some ((set_role Active e)\<lparr>el_hold := pv_handover_manual p\<rparr>)
      else if pv_role p = Fault then Some (if el_role e \<noteq> Active then set_role Active e else e)
      else (case el_role e of
              Active \<Rightarrow> Some (tick_active now_ms p e)
            | Standby \<Rightarrow> Some (tick_passive now_ms p e)
            | Init \<Rightarrow> Some (tick_passive now_ms p e)
            | Fault \<Rightarrow> None))"

definition own_handover :: "u64 \<Rightarrow> peer_view \<Rightarrow> election \<Rightarrow> bool" where
  "own_handover now_ms p e \<longleftrightarrow>
     (case el_handover e of None \<Rightarrow> False | Some h \<Rightarrow> \<not> (pv_role p = Active \<or> ho_until_ms h \<le> now_ms))"

definition drop_expired :: "u64 \<Rightarrow> election \<Rightarrow> election" where
  "drop_expired now_ms e =
     (if (case el_takeover_until_ms e of None \<Rightarrow> False | Some t \<Rightarrow> t \<le> now_ms)
      then e\<lparr>el_takeover_until_ms := None\<rparr> else e)"

definition leave_fault :: "u64 \<Rightarrow> election \<Rightarrow> election" where
  "leave_fault now_ms e =
     (if el_role e = Fault then (set_role Init e)\<lparr>el_init_until_ms := now_ms\<rparr> else e)"

definition election_tick :: "u64 \<Rightarrow> peer_view option \<Rightarrow> bool \<Rightarrow> election \<Rightarrow> election panics" where
  "election_tick now_ms peer gateway_ok e0 =
     (let e1 = drop_expired now_ms e0 in
      if \<not> gateway_ok then Some (set_role Fault (e1\<lparr>el_handover := None\<rparr>))
      else
        let e = leave_fault now_ms e1 in
        if el_role e = Init \<and> now_ms < el_init_until_ms e \<and> peer = None then Some e
        else (case peer of
                None \<Rightarrow> Some (set_role Active (e\<lparr>el_handover := None\<rparr>))
              | Some p \<Rightarrow>
                  if own_handover now_ms p e then Some (set_role Standby e)
                  else tick_peer now_ms p (e\<lparr>el_handover := None\<rparr>)))"

section \<open>The state machine is total\<close>

lemma set_role_simps [simp]:
  "el_role (set_role r e) = r" "el_node (set_role r e) = el_node e" "el_weight (set_role r e) = el_weight e"
  "el_persist (set_role r e) = el_persist e" "el_handover (set_role r e) = el_handover e"
  "el_hold (set_role r e) = (r = Active \<and> el_hold e)" "my_rank (set_role r e) = my_rank e"
  "el_takeover_until_ms (set_role r e) = (if r = Standby then el_takeover_until_ms e else None)"
  by (simp_all add: set_role_def my_rank_def Let_def)

lemma start_handover_simps [simp]:
  "el_role (start_handover to m now e) = Standby" "el_node (start_handover to m now e) = el_node e"
  "el_weight (start_handover to m now e) = el_weight e" "el_persist (start_handover to m now e) = el_persist e"
  "el_hold (start_handover to m now e) = False"
  "el_handover (start_handover to m now e) = Some \<lparr>ho_to = to, ho_manual = m, ho_until_ms = now + HANDOVER_TIMEOUT_MS\<rparr>"
  "el_takeover_until_ms (start_handover to m now e) = el_takeover_until_ms e"
  by (simp_all add: start_handover_def)

lemma prelude_simps [simp]:
  "el_node (drop_expired now e) = el_node e" "el_role (drop_expired now e) = el_role e"
  "el_handover (drop_expired now e) = el_handover e" "el_weight (drop_expired now e) = el_weight e"
  "el_persist (drop_expired now e) = el_persist e" "el_hold (drop_expired now e) = el_hold e"
  "el_node (leave_fault now e) = el_node e" "el_role (leave_fault now e) = (if el_role e = Fault then Init else el_role e)"
  "el_handover (leave_fault now e) = el_handover e" "el_weight (leave_fault now e) = el_weight e"
  "el_persist (leave_fault now e) = el_persist e"
  by (simp_all add: drop_expired_def leave_fault_def)

lemma election_tick_total: "\<exists>e'. election_tick now peer gw e = Some e'"
proof -
  have "tick_peer now p e \<noteq> None" if "el_role e \<noteq> Fault" for p e
    using that by (simp add: tick_peer_def split: role.split)
  then show ?thesis
    by (simp add: election_tick_def Let_def split: option.split)
qed

end
