(* ===== verification/Ha_Pair.thy ===== *)
theory Ha_Pair
  imports Election
begin

text \<open>
  Two nodes running the election against each other: what one hears is the heartbeat the other
  would send now.
\<close>

section \<open>Hearing each other\<close>

text \<open>What a heartbeat tells the peer (\<open>Heartbeat\<close> as \<open>run\<close> fills it in, read back by
  \<open>PeerView::from\<close>); \<open>synced\<close> is the sender's replication state.\<close>

definition view_of :: "u64 \<Rightarrow> bool \<Rightarrow> election \<Rightarrow> peer_view" where
  "view_of now_ms synced e =
     \<lparr>pv_node = el_node e, pv_role = el_role e, pv_weight = el_weight e, pv_persist = el_persist e,
      pv_hold = el_hold e, pv_handover_to = map_option fst (handover_target e),
      pv_handover_manual = (case handover_target e of Some (_, m) \<Rightarrow> m | None \<Rightarrow> False),
      pv_takeover_request = takeover_requested now_ms e, pv_synced = synced\<rparr>"

lemma view_of_simps [simp]:
  "pv_node (view_of t s e) = el_node e" "pv_role (view_of t s e) = el_role e" "pv_weight (view_of t s e) = el_weight e"
  "pv_persist (view_of t s e) = el_persist e" "pv_hold (view_of t s e) = el_hold e" "pv_synced (view_of t s e) = s"
  "pv_handover_to (view_of t s e) = map_option ho_to (el_handover e)"
  "pv_takeover_request (view_of t s e) = takeover_requested t e" "their_rank (view_of t s e) = my_rank e"
  by (simp_all add: view_of_def handover_target_def their_rank_def my_rank_def option.map_comp comp_def)

text \<open>Everything a node does while it hears the other: a tick at any time with any gateway state, the
  operator's commands, and a restart of the process.\<close>

inductive node_step :: "election \<Rightarrow> election \<Rightarrow> election \<Rightarrow> bool" for b where
  ticked: "election_tick now (Some (view_of t synced b)) gw a = Some a' \<Longrightarrow> node_step b a a'"
| asked_active: "node_step b a (snd (request_active peer now a))"
| asked_handover: "node_step b a (snd (request_handover peer now manual a))"
| persist_set: "node_step b a (a\<lparr>el_persist := p, el_hold := False\<rparr>)"
| restarted: "node_step b a (new_election (el_node a) (el_weight a) p now listen)"

inductive pair_step :: "election \<times> election \<Rightarrow> election \<times> election \<Rightarrow> bool" where
  left: "node_step b a a' \<Longrightarrow> pair_step (a, b) (a', b)"
| right: "node_step a b b' \<Longrightarrow> pair_step (a, b) (a, b')"

definition node_ok :: "election \<Rightarrow> bool" where
  "node_ok e \<longleftrightarrow> (el_handover e \<noteq> None \<longrightarrow> el_role e = Standby)"

text \<open>One tick: who it can make Active.\<close>

lemma tick_cases:
  assumes "election_tick now (Some p) gw a = Some a'"
  obtains "\<not> gw" "el_role a' = Fault" "el_handover a' = None"
    | "gw" "own_handover now p a" "el_role a' = Standby"
    | e where "gw" "\<not> own_handover now p a" "e = (leave_fault now (drop_expired now a))\<lparr>el_handover := None\<rparr>"
        "tick_peer now p e = Some a'"
proof (cases gw)
  case True
  let ?e = "leave_fault now (drop_expired now a)"
  have own: "own_handover now p ?e = own_handover now p a" by (simp add: own_handover_def)
  show thesis
    using assms True that(2) that(3) [OF True _ refl]
    by (cases "own_handover now p a") (auto simp: election_tick_def Let_def own)
qed (use assms that in \<open>auto simp: election_tick_def Let_def\<close>)

lemma tick_peer_node:
  assumes "tick_peer now p e = Some a'" "el_handover e = None"
  shows "el_node a' = el_node e" "node_ok a'" "el_weight a' = el_weight e"
  using assms by (auto simp: tick_peer_def tick_active_def tick_passive_def node_ok_def Let_def split: if_splits role.splits)

lemma tick_node:
  assumes "election_tick now (Some p) gw a = Some a'"
  shows "el_node a' = el_node a" "node_ok a'"
  using assms
  by (auto elim!: tick_cases dest: tick_peer_node
      simp: election_tick_def Let_def node_ok_def split: if_splits)

lemma tick_never_joins_active:
  assumes "election_tick now (Some (view_of t s b)) gw a = Some a'" "node_ok b" "el_role b = Active"
    "el_role a \<noteq> Active"
  shows "el_role a' \<noteq> Active"
  using assms
  by (cases rule: tick_cases)
    (auto simp: tick_peer_def tick_passive_def node_ok_def split: if_splits role.splits)

lemma node_step_ok:
  assumes "node_step b a a'" "node_ok a" "node_ok b"
  shows "el_node a' = el_node a \<and> node_ok a' \<and> (el_role b = Active \<longrightarrow> el_role a' = Active \<longrightarrow> el_role a = Active)"
  using assms
proof (cases rule: node_step.cases)
  case (ticked now t synced gw)
  then show ?thesis using tick_node tick_never_joins_active assms(3) by metis
next
  case (asked_active peer now)
  with assms(2) show ?thesis by (auto simp: request_active_def node_ok_def split: role.split)
next
  case (asked_handover peer now manual)
  with assms(2) show ?thesis by (auto simp: request_handover_def node_ok_def split: option.split)
qed (auto simp: node_ok_def new_election_def)

definition pair_ok :: "election \<times> election \<Rightarrow> bool" where
  "pair_ok s \<longleftrightarrow> node_ok (fst s) \<and> node_ok (snd s) \<and> \<not> (el_role (fst s) = Active \<and> el_role (snd s) = Active)"

lemma pair_step_ok: "pair_step s s' \<Longrightarrow> pair_ok s \<Longrightarrow> pair_ok s'"
  by (induction rule: pair_step.induct) (auto simp: pair_ok_def dest!: node_step_ok)

lemma reachable_pair_ok: "pair_step\<^sup>*\<^sup>* s s' \<Longrightarrow> pair_ok s \<Longrightarrow> pair_ok s'"
  by (induction rule: rtranclp_induct) (auto dest: pair_step_ok)



section \<open>A healed partition\<close>

lemma tick_both_active:
  assumes "election_tick now (Some (view_of t s b)) True a = Some a'" "el_role a = Active" "el_role b = Active"
    "node_ok a" "node_ok b"
  shows "el_role a' = (if outranks (el_persist b \<or> el_hold b, my_rank b) (el_persist a \<or> el_hold a, my_rank a)
    then Standby else Active)"
proof -
  have h: "el_handover a = None" "el_handover b = None"
    using assms(2-5) by (auto simp: node_ok_def)
  have e: "(leave_fault now (drop_expired now a))\<lparr>el_handover := None\<rparr> = drop_expired now a"
    using h(1) assms(2) by (simp add: leave_fault_def drop_expired_def)
  have "tick_peer now (view_of t s b) (drop_expired now a) = Some a'"
    using assms(1) by (cases rule: tick_cases) (auto simp: own_handover_def h e)
  then show ?thesis
    using assms(2,3) h
    by (auto simp: tick_peer_def tick_active_def my_rank_def split: if_splits)
qed

text \<open>C7. A split brain ends with the first heartbeats: when both nodes are Active and each hears the
  other, exactly one steps down -- even when the heartbeats cross -- and it is the one that ranks
  lower by entitlement to stay (persist or manual hold), weight and name.\<close>

theorem split_brain_heals:
  assumes "el_role a = Active" "el_role b = Active" "node_ok a" "node_ok b" "el_node a \<noteq> el_node b"
    "election_tick now1 (Some (view_of t1 s1 b)) True a = Some a'"
    "election_tick now2 (Some (view_of t2 s2 a)) True b = Some b'"
  shows "if outranks (el_persist b \<or> el_hold b, my_rank b) (el_persist a \<or> el_hold a, my_rank a)
    then el_role a' = Standby \<and> el_role b' = Active else el_role a' = Active \<and> el_role b' = Standby"
proof -
  have "my_rank a \<noteq> my_rank b" using assms(5) by (simp add: my_rank_def)
  then show ?thesis
    using tick_both_active [OF assms(6,1-4)] tick_both_active [OF assms(7,2,1,4,3)]
    by (auto simp: outranks_def)
qed

text \<open>Two nodes after a partition; the lighter one was told to stay Active.\<close>

definition heavy :: election where
  "heavy = (new_election [65] 200 False 0 10)\<lparr>el_role := Active\<rparr>"

definition light :: election where
  "light = (new_election [66] 100 True 0 10)\<lparr>el_role := Active\<rparr>"

theorem split_brain_heals_witness:
  "\<exists>a' b'. election_tick 20 (Some (view_of 20 True light)) True heavy = Some a' \<and>
     election_tick 21 (Some (view_of 21 False heavy)) True light = Some b' \<and>
     el_role a' = Standby \<and> el_role b' = Active"
proof -
  obtain a' b' where t: "election_tick 20 (Some (view_of 20 True light)) True heavy = Some a'"
    "election_tick 21 (Some (view_of 21 False heavy)) True light = Some b'"
    using election_tick_total by blast
  have "if outranks (el_persist light \<or> el_hold light, my_rank light) (el_persist heavy \<or> el_hold heavy, my_rank heavy)
    then el_role a' = Standby \<and> el_role b' = Active else el_role a' = Active \<and> el_role b' = Standby"
    by (rule split_brain_heals [OF _ _ _ _ _ t]) (simp_all add: heavy_def light_def node_ok_def new_election_def)
  moreover have "outranks (el_persist light \<or> el_hold light, my_rank light) (el_persist heavy \<or> el_hold heavy, my_rank heavy)"
    by (simp add: outranks_def heavy_def light_def new_election_def)
  ultimately show ?thesis using t by auto
qed

section \<open>Somebody takes over\<close>

text \<open>A round: each node in turn ticks with a working gateway, hearing the other as it is.\<close>

definition hears :: "u64 \<Rightarrow> u64 \<Rightarrow> bool \<Rightarrow> election \<Rightarrow> election \<Rightarrow> election \<Rightarrow> bool" where
  "hears now t synced b a a' \<longleftrightarrow> election_tick now (Some (view_of t synced b)) True a = Some a'"

definition free_at :: "u64 \<Rightarrow> election \<Rightarrow> bool" where
  "free_at now e \<longleftrightarrow> (\<forall>h. el_handover e = Some h \<longrightarrow> ho_until_ms h \<le> now)"

lemma hears_free:
  assumes "hears now t s b a a'" "free_at now a \<or> el_role b = Active"
  shows "tick_peer now (view_of t s b) ((leave_fault now (drop_expired now a))\<lparr>el_handover := None\<rparr>) = Some a'"
proof -
  have "\<not> own_handover now (view_of t s b) a"
    using assms(2) by (auto simp: own_handover_def free_at_def split: option.split)
  with assms(1) show ?thesis
    unfolding hears_def by (auto elim: tick_cases)
qed

lemma hears_active:
  assumes "hears now t s b a a'" "el_role b = Active" "node_ok b" "el_role a \<noteq> Active"
  shows "el_role a' = Standby" "el_handover a' = None"
proof -
  have "el_handover b = None" using assms(2,3) by (auto simp: node_ok_def)
  then show "el_role a' = Standby" "el_handover a' = None"
    using hears_free [OF assms(1) disjI2 [OF assms(2)]] assms(2,4)
    by (auto simp: tick_peer_def tick_passive_def split: role.splits if_splits)
qed

lemma hears_handover:
  assumes "hears now t s b a a'" "free_at now a" "map_option ho_to (el_handover b) = Some (el_node a)"
  shows "el_role a' = Active" "el_handover a' = None"
  using hears_free [OF assms(1) disjI1 [OF assms(2)]] assms(3) by (auto simp: tick_peer_def)

text \<open>An Active node that hears a passive one stays or hands over to it.\<close>

lemma active_hears_passive:
  assumes "hears now t s b a a'" "el_role a = Active" "node_ok a" "node_ok b" "el_role b \<noteq> Active"
    "map_option ho_to (el_handover b) \<noteq> Some (el_node a)"
  shows "el_role a' = Active \<and> el_handover a' = None \<or>
    el_role a' = Standby \<and> map_option ho_to (el_handover a') = Some (el_node b) \<and> el_role b \<noteq> Fault"
proof -
  have "el_handover a = None" using assms(2,3) by (auto simp: node_ok_def)
  then have "free_at now a" by (simp add: free_at_def)
  from hears_free [OF assms(1) disjI1 [OF this]] assms(2,5,6) show ?thesis
    by (auto simp: tick_peer_def tick_active_def split: if_splits)
qed

text \<open>Of two passive nodes the one that speaks second takes over unless the first did.\<close>

lemma passive_hears_passive:
  assumes "hears now t s b a a'" "el_role a \<noteq> Active" "el_role b \<noteq> Active" "free_at now a"
  shows "el_handover a' = None \<and> (el_role a' = Active \<or> el_role a' = Standby \<and> \<not> preferred (my_rank a) (my_rank b))"
  using hears_free [OF assms(1) disjI1 [OF assms(4)]] assms(2,3)
  by (auto simp: tick_peer_def tick_passive_def my_rank_def Let_def split: role.splits if_splits)

lemma hears_ok: "hears now t s b a a' \<Longrightarrow> node_ok a' \<and> el_node a' = el_node a"
  using tick_node by (auto simp: hears_def)

lemma hears_rank:
  assumes "hears now t s b a a'" shows "my_rank a' = my_rank a"
proof -
  have "el_weight a' = el_weight a"
    using assms unfolding hears_def
    by (auto elim!: tick_cases dest: tick_peer_node simp: election_tick_def Let_def split: if_splits)
  then show ?thesis using hears_ok [OF assms] by (simp add: my_rank_def)
qed

lemma preferred_other: "my_rank a \<noteq> my_rank b \<Longrightarrow> \<not> preferred (my_rank a) (my_rank b) \<Longrightarrow> preferred (my_rank b) (my_rank a)"
  by (auto simp: preferred_def)

lemma first_round:
  assumes "hears now1 t1 s1 b a a1" "hears now2 t2 s2 a1 b b1" "node_ok a" "node_ok b" "el_node a \<noteq> el_node b"
    "\<not> (el_role a = Active \<and> el_role b = Active)" "free_at now1 a" "free_at now2 b"
  shows "el_role a1 = Active \<and> el_role b1 = Standby \<or> el_role a1 = Standby \<and> el_role b1 = Active \<or>
    el_role a1 = Standby \<and> el_handover a1 = None \<and> el_role b1 = Standby \<and>
      map_option ho_to (el_handover b1) = Some (el_node a1)"
proof -
  have a1: "node_ok a1" "el_node a1 = el_node a" "my_rank a1 = my_rank a"
    using hears_ok [OF assms(1)] hears_rank [OF assms(1)] by simp_all
  have ranks: "my_rank a1 \<noteq> my_rank b" using assms(5) a1 by (simp add: my_rank_def)
  show ?thesis
  proof (cases "el_role b = Active")
    case True
    then have a: "el_role a1 = Standby" "el_handover a1 = None"
      using hears_active [OF assms(1) _ assms(4)] assms(6) by auto
    then show ?thesis
      using active_hears_passive [OF assms(2) True assms(4) a1(1)] by auto
  next
    case b: False
    show ?thesis
    proof (cases "el_role a1 = Active")
      case True
      then show ?thesis using hears_active [OF assms(2) _ a1(1) b] by auto
    next
      case False
      show ?thesis
      proof (cases "el_role a = Active")
        case True
        have "map_option ho_to (el_handover b) \<noteq> Some (el_node a)"
          using False hears_handover [OF assms(1,7)] by auto
        then have "el_role a1 = Standby" "map_option ho_to (el_handover a1) = Some (el_node b)"
          using active_hears_passive [OF assms(1) True assms(3,4) b] False by auto
        then show ?thesis using hears_handover [OF assms(2,8)] by auto
      next
        case a: False
        have st: "el_role a1 = Standby" "el_handover a1 = None" "preferred (my_rank b) (my_rank a1)"
          using passive_hears_passive [OF assms(1) a b assms(7)] preferred_other [OF ranks] False a1(3) by auto
        then show ?thesis
          using passive_hears_passive [OF assms(2) b _ assms(8)] preferred_other [OF ranks [symmetric]]
          by (auto simp: preferred_def)
      qed
    qed
  qed
qed



end
