(* ===== verification/Ha_Node.thy ===== *)
theory Ha_Node
  imports Ha_Pair
begin

text \<open>
  One node of the high-availability pair (\<open>src/src/ha.rs\<close>): the signed heartbeat, the replay
  guard, and one turn of the loop of \<open>run\<close> -- an event, a tick of the election, the move of the
  virtual IP, the heartbeat, the log of role changes and the decision to restart.  JSON and HMAC are
  parameters, as are the outcomes of \<open>ip addr add\<close> and \<open>ip addr del\<close>.
\<close>

section \<open>Heartbeats\<close>

record heartbeat =
  hb_node :: rstring
  hb_boot_id :: u64
  hb_seq :: u64
  hb_ts_ms :: u64
  hb_role :: role
  hb_weight :: u32
  hb_persist :: bool
  hb_hold :: bool
  hb_handover_to :: "rstring option"
  hb_handover_manual :: bool
  hb_takeover_request :: bool
  hb_config_hash :: u64
  hb_synced :: bool
  hb_config_sections :: "(rstring, u32) fmap option"

definition peer_of :: "heartbeat \<Rightarrow> peer_view" where
  "peer_of h =
     \<lparr>pv_node = hb_node h, pv_role = hb_role h, pv_weight = hb_weight h, pv_persist = hb_persist h,
      pv_hold = hb_hold h, pv_handover_to = hb_handover_to h, pv_handover_manual = hb_handover_manual h,
      pv_takeover_request = hb_takeover_request h, pv_synced = hb_synced h\<rparr>"

abbreviation (input) TAG_LEN :: nat where "TAG_LEN \<equiv> 32"
abbreviation (input) MAX_CLOCK_SKEW_MS :: u64 where "MAX_CLOCK_SKEW_MS \<equiv> 30000"

text \<open>\<open>sign body\<close>: the HMAC-SHA256 tag under the shared secret; a tag verifies when it is that.\<close>

definition hb_encode :: "(bytes \<Rightarrow> bytes) \<Rightarrow> (heartbeat \<Rightarrow> bytes) \<Rightarrow> heartbeat \<Rightarrow> bytes" where
  "hb_encode sign json hb = json hb @ sign (json hb)"

definition hb_decode :: "(bytes \<Rightarrow> bytes) \<Rightarrow> (bytes \<Rightarrow> heartbeat option) \<Rightarrow> bytes \<Rightarrow> heartbeat option" where
  "hb_decode sign unjson buf =
     (if length buf \<le> TAG_LEN then None
      else let body = take (length buf - TAG_LEN) buf; tag = drop (length buf - TAG_LEN) buf
           in if tag = sign body then unjson body else None)"

lemma hb_decode_encode:
  assumes "\<And>b. length (sign b) = TAG_LEN" "json hb \<noteq> []" "unjson (json hb) = Some hb"
  shows "hb_decode sign unjson (hb_encode sign json hb) = Some hb"
  using assms by (simp add: hb_decode_def hb_encode_def Let_def)

lemma hb_decode_signed:
  assumes "hb_decode sign unjson buf = Some hb"
  shows "\<exists>body. buf = body @ sign body \<and> unjson body = Some hb"
proof -
  let ?n = "length buf - TAG_LEN"
  have "drop ?n buf = sign (take ?n buf)" "unjson (take ?n buf) = Some hb"
    using assms by (auto simp: hb_decode_def Let_def split: if_splits)
  then show ?thesis by (intro exI [of _ "take ?n buf"]) (metis append_take_drop_id)
qed

section \<open>The replay guard\<close>

definition abs_diff :: "u64 \<Rightarrow> u64 \<Rightarrow> u64" where
  "abs_diff a b = (if a \<le> b then b - a else a - b)"

type_synonym guard = "(u64 \<times> u64) option"

definition accept :: "guard \<Rightarrow> heartbeat \<Rightarrow> u64 \<Rightarrow> bool \<times> guard" where
  "accept seen hb now_ms =
     (if MAX_CLOCK_SKEW_MS < abs_diff now_ms (hb_ts_ms hb) then (False, seen)
      else (case seen of
              Some (boot, sq) \<Rightarrow>
                if boot = hb_boot_id hb \<and> hb_seq hb \<le> sq then (False, seen)
                else (True, Some (hb_boot_id hb, hb_seq hb))
            | None \<Rightarrow> (True, Some (hb_boot_id hb, hb_seq hb))))"

fun accept_all :: "guard \<Rightarrow> (heartbeat \<times> u64) list \<Rightarrow> heartbeat list" where
  "accept_all seen [] = []"
| "accept_all seen ((hb, now) # hbs) =
     (case accept seen hb now of (ok, seen') \<Rightarrow> (if ok then [hb] else []) @ accept_all seen' hbs)"

lemma accept_all_since:
  assumes "\<And>hb. hb \<in> set (map fst hbs) \<Longrightarrow> hb_boot_id hb = boot"
  shows "sorted_wrt (<) (map hb_seq (accept_all (Some (boot, sq)) hbs)) \<and>
    (\<forall>hb \<in> set (accept_all (Some (boot, sq)) hbs). sq < hb_seq hb)"
  using assms
proof (induction hbs arbitrary: sq)
  case (Cons p hbs)
  obtain hb now where p: "p = (hb, now)" by (cases p)
  have "hb_boot_id hb = boot" using Cons.prems p by simp
  moreover have "hb_boot_id h = boot" if "h \<in> set (map fst hbs)" for h using Cons.prems that by simp
  ultimately have "accept_all (Some (boot, sq)) (p # hbs) = accept_all (Some (boot, sq)) hbs \<or>
      sq < hb_seq hb \<and> accept_all (Some (boot, sq)) (p # hbs) = hb # accept_all (Some (boot, hb_seq hb)) hbs"
    by (simp add: p accept_def not_le)
  then show ?case
    using Cons.IH [of sq] Cons.IH [of "hb_seq hb"] Cons.prems
    by (auto intro: order.strict_trans [of _ "hb_seq hb"])
qed simp

text \<open>Within one life of the sender the accepted heartbeats have strictly increasing numbers, so none
  is accepted twice.\<close>

lemma no_replay:
  assumes "\<And>hb. hb \<in> set (map fst hbs) \<Longrightarrow> hb_boot_id hb = boot"
  shows "distinct (accept_all None hbs)"
proof -
  have inc: "sorted_wrt (<) (map hb_seq (accept_all None hbs))"
    using assms
  proof (induction hbs)
    case (Cons p hbs)
    obtain hb now where p: "p = (hb, now)" by (cases p)
    have "hb_boot_id hb = boot" using Cons.prems p by simp
    moreover have "hb_boot_id h = boot" if "h \<in> set (map fst hbs)" for h using Cons.prems that by simp
    ultimately show ?case
      using Cons.IH accept_all_since [of hbs boot "hb_seq hb"] by (simp add: p accept_def)
  qed simp
  then show ?thesis
    by (metis distinct_map strict_sorted_iff)
qed

section \<open>The node\<close>

record ha_config =
  hc_node_name :: rstring
  hc_weight :: u32
  hc_persist :: bool
  hc_dead_after_ms :: u64
  hc_boot_id :: u64
  hc_config_hash :: u64
  hc_config_sections :: "(rstring, u32) fmap"

record transition =
  tr_ts_ms :: u64
  tr_from :: role
  tr_to :: role
  tr_reason :: rstring

record ha_node =
  hn_election :: election
  hn_guard :: guard
  hn_last_peer :: "(heartbeat \<times> u64) option"
  hn_seq :: u64
  hn_vip_held :: bool
  hn_vip_fault_until_ms :: u64
  hn_was_active :: bool
  hn_apply_pending :: bool
  hn_persist_override :: "bool option"
  hn_transitions :: "transition list"
  hn_peer_sections :: "(rstring, u32) fmap option"

definition alive_peer :: "(heartbeat \<times> u64) option \<Rightarrow> u64 \<Rightarrow> u64 \<Rightarrow> peer_view option" where
  "alive_peer seen now_ms dead_after_ms =
     (case seen of
        None \<Rightarrow> None
      | Some (hb, at) \<Rightarrow> if saturating_sub now_ms at < dead_after_ms then Some (peer_of hb) else None)"

text \<open>The start of \<open>run\<close>, with the saved state \<open>override\<close> and \<open>log\<close>.\<close>

definition new_node :: "ha_config \<Rightarrow> bool option \<Rightarrow> transition list \<Rightarrow> u64 \<Rightarrow> ha_node" where
  "new_node cfg override log now_ms =
     \<lparr>hn_election = new_election (hc_node_name cfg) (hc_weight cfg)
        (case override of Some p \<Rightarrow> p | None \<Rightarrow> hc_persist cfg) now_ms (hc_dead_after_ms cfg),
      hn_guard = None, hn_last_peer = None, hn_seq = 0, hn_vip_held = False, hn_vip_fault_until_ms = 0,
      hn_was_active = False, hn_apply_pending = False, hn_persist_override = override,
      hn_transitions = log, hn_peer_sections = None\<rparr>"

section \<open>Events\<close>

datatype ha_command = MakeActive | MakeStandby | Apply bool | SetPersist "bool option"

text \<open>What \<open>select!\<close> delivers: a datagram is described by whether it came from the peer's address
  and by what \<open>decode\<close> made of it.\<close>

datatype ha_event =
    TickDue
  | Datagram bool "heartbeat option"
  | ReceiveFailed
  | Commanded ha_command
  | Terminated

text \<open>The readings of the clock during a turn, in order, the gateway check, the outcomes of moving
  the VIP and of saving the state file, and \<open>ha_repl::synced\<close>.\<close>

record ha_env =
  he_event_ms :: u64
  he_seen_ms :: u64
  he_now_ms :: u64
  he_gateway_ok :: bool
  he_up_ok :: bool
  he_down_ok :: bool
  he_save :: "string + unit"
  he_synced :: bool

type_synonym reply = "string + string"

datatype event_result =
    Skipped ha_node
  | Proceed bool rstring "reply option" ha_node
  | RestartAfter reply ha_node
  | ExitAfter ha_node

definition receive_heartbeat :: "ha_config \<Rightarrow> ha_env \<Rightarrow> heartbeat \<Rightarrow> ha_node \<Rightarrow> event_result" where
  "receive_heartbeat cfg env hb n =
     (if hb_node hb = hc_node_name cfg then Skipped n
      else (case accept (hn_guard n) hb (he_event_ms env) of
              (False, _) \<Rightarrow> Skipped n
            | (True, g) \<Rightarrow>
                let sections = (if hb_config_hash hb = hc_config_hash cfg then None
                      else case hb_config_sections hb of Some s \<Rightarrow> Some s | None \<Rightarrow> hn_peer_sections n)
                in Proceed True [] None
                     (n\<lparr>hn_guard := g, hn_peer_sections := sections, hn_last_peer := Some (hb, he_seen_ms env)\<rparr>)))"

definition unit_reply :: "string + unit \<Rightarrow> reply" where
  "unit_reply r = (case r of Inl e \<Rightarrow> Inl e | Inr _ \<Rightarrow> Inr '''')"

definition switch_result :: "string \<Rightarrow> (string + unit) \<times> election \<Rightarrow> ha_node \<Rightarrow> event_result" where
  "switch_result why r n =
     Proceed False (case fst r of Inr _ \<Rightarrow> of_ascii why | Inl _ \<Rightarrow> []) (Some (unit_reply (fst r)))
       (n\<lparr>hn_election := snd r\<rparr>)"

definition run_command :: "ha_config \<Rightarrow> ha_env \<Rightarrow> ha_command \<Rightarrow> ha_node \<Rightarrow> event_result" where
  "run_command cfg env cmd n =
     (let now = he_event_ms env; peer = alive_peer (hn_last_peer n) now (hc_dead_after_ms cfg); e = hn_election n in
      case cmd of
        MakeActive \<Rightarrow> switch_result ''manual: make active'' (request_active peer now e) n
      | MakeStandby \<Rightarrow> switch_result ''manual: make standby'' (request_standby peer now e) n
      | Apply force \<Rightarrow>
          if el_role e = Active then
            (case request_handover peer now False e of
               (Inr _, e') \<Rightarrow> Proceed False (of_ascii ''manual: apply config (handover)'')
                  (Some (Inr ''handing over to the peer, then restarting''))
                  (n\<lparr>hn_election := e', hn_apply_pending := True\<rparr>)
             | (Inl why, _) \<Rightarrow>
                 if \<not> force
                 then Proceed False [] (Some (Inl (why @ ''; confirm to restart anyway (service drops)''))) n
                 else RestartAfter (Inr ''restarting without a peer to take over'') n)
          else RestartAfter (Inr ''restarting'') n
      | SetPersist value \<Rightarrow>
          Proceed False [] (Some (unit_reply (he_save env)))
            (n\<lparr>hn_persist_override := value,
               hn_election := e\<lparr>el_persist := (case value of Some p \<Rightarrow> p | None \<Rightarrow> hc_persist cfg), el_hold := False\<rparr>\<rparr>))"

definition handle_event :: "ha_config \<Rightarrow> ha_env \<Rightarrow> ha_event \<Rightarrow> ha_node \<Rightarrow> event_result" where
  "handle_event cfg env ev n =
     (case ev of
        TickDue \<Rightarrow> Proceed False [] None n
      | Datagram from_peer_ip decoded \<Rightarrow>
          (if \<not> from_peer_ip then Skipped n
           else case decoded of None \<Rightarrow> Skipped n | Some hb \<Rightarrow> receive_heartbeat cfg env hb n)
      | ReceiveFailed \<Rightarrow> Skipped n
      | Commanded cmd \<Rightarrow> run_command cfg env cmd n
      | Terminated \<Rightarrow> ExitAfter n)"

section \<open>One turn of the loop\<close>

text \<open>The VIP follows the new role before the role is announced; a failed add is a fault.\<close>

definition move_vip :: "ha_env \<Rightarrow> peer_view option \<Rightarrow> rstring \<Rightarrow> ha_node \<Rightarrow> (rstring \<times> ha_node) panics" where
  "move_vip env peer reason n =
     (let want = (el_role (hn_election n) = Active) in
      if want = hn_vip_held n then Some (reason, n)
      else if want then
        (if he_up_ok env then Some (reason, n\<lparr>hn_vip_held := True\<rparr>)
         else do {
           e \<leftarrow> election_tick (he_now_ms env) peer False (hn_election n);
           Some (of_ascii ''VIP add failed'',
                 n\<lparr>hn_election := e, hn_vip_fault_until_ms := he_now_ms env + HANDOVER_TIMEOUT_MS\<rparr>)
         })
      else Some (reason, if he_down_ok env then n\<lparr>hn_vip_held := False\<rparr> else n))"

definition change_reason :: "ha_config \<Rightarrow> peer_view option \<Rightarrow> election \<Rightarrow> rstring" where
  "change_reason cfg peer e =
     (case (peer, el_role e) of
        (_, Fault) \<Rightarrow> of_ascii ''gateway unreachable''
      | (None, Active) \<Rightarrow> of_ascii ''peer not responding''
      | (Some p, Active) \<Rightarrow>
          if pv_handover_to p = Some (hc_node_name cfg) then of_ascii ''handover from '' @ pv_node p
          else of_ascii ''election''
      | (Some _, Standby) \<Rightarrow>
          if handover_target e \<noteq> None then of_ascii ''handing over to peer'' else of_ascii ''election''
      | _ \<Rightarrow> of_ascii ''election'')"

definition next_heartbeat :: "ha_config \<Rightarrow> ha_env \<Rightarrow> ha_node \<Rightarrow> heartbeat" where
  "next_heartbeat cfg env n =
     (let e = hn_election n; sq = hn_seq n + 1 in
      \<lparr>hb_node = hc_node_name cfg, hb_boot_id = hc_boot_id cfg, hb_seq = sq, hb_ts_ms = he_now_ms env,
       hb_role = el_role e, hb_weight = hc_weight cfg, hb_persist = el_persist e, hb_hold = el_hold e,
       hb_handover_to = map_option fst (handover_target e),
       hb_handover_manual = (case handover_target e of Some (_, m) \<Rightarrow> m | None \<Rightarrow> False),
       hb_takeover_request = takeover_requested (he_now_ms env) e, hb_config_hash = hc_config_hash cfg,
       hb_synced = he_synced env,
       hb_config_sections = (if sq mod 4 = 0 \<and> (case hn_last_peer n of Some (lp, _) \<Rightarrow> hb_config_hash lp \<noteq> hc_config_hash cfg
             | None \<Rightarrow> False) then Some (hc_config_sections cfg) else None)\<rparr>)"

datatype turn =
    Running ha_node "heartbeat option" "reply option"
  | Restarted bool "heartbeat option" "reply option"
  | Exited bool

definition release_vip :: "ha_env \<Rightarrow> bool \<Rightarrow> bool" where
  "release_vip env held \<longleftrightarrow> held \<and> \<not> he_down_ok env"

abbreviation (input) TRANSITION_LOG_LEN :: nat where "TRANSITION_LOG_LEN \<equiv> 50"

definition finish_turn ::
  "ha_config \<Rightarrow> ha_env \<Rightarrow> bool \<Rightarrow> reply option \<Rightarrow> role \<Rightarrow> peer_view option \<Rightarrow> rstring \<Rightarrow> ha_node \<Rightarrow> turn" where
  "finish_turn cfg env from_peer reply before peer reason n =
     (let after = el_role (hn_election n);
          why = (if before \<noteq> after \<and> reason = [] then change_reason cfg peer (hn_election n) else reason);
          hb = next_heartbeat cfg env n;
          quiet = (from_peer \<and> before = after);
          n1 = (if quiet then n else n\<lparr>hn_seq := hb_seq hb\<rparr>);
          n2 = (if before \<noteq> after
                then n1\<lparr>hn_transitions := take TRANSITION_LOG_LEN
                       (\<lparr>tr_ts_ms = he_now_ms env, tr_from = before, tr_to = after, tr_reason = why\<rparr> # hn_transitions n1)\<rparr>
                else n1);
          n3 = n2\<lparr>hn_was_active := hn_was_active n2 \<or> (after = Active \<and> hn_vip_held n2)\<rparr>;
          sent = (if quiet then None else Some hb)
      in if handover_target (hn_election n3) = None \<and> (hn_apply_pending n3 \<or> (hn_was_active n3 \<and> after \<noteq> Active))
         then Restarted (release_vip env (hn_vip_held n3)) sent reply
         else Running n3 sent reply)"

definition ha_turn :: "ha_config \<Rightarrow> ha_env \<Rightarrow> ha_event \<Rightarrow> ha_node \<Rightarrow> turn panics" where
  "ha_turn cfg env ev n =
     (case handle_event cfg env ev n of
        Skipped n1 \<Rightarrow> Some (Running n1 None None)
      | ExitAfter n1 \<Rightarrow> Some (Exited (release_vip env (hn_vip_held n1)))
      | RestartAfter r n1 \<Rightarrow> Some (Restarted (release_vip env (hn_vip_held n1)) None (Some r))
      | Proceed from_peer reason reply n1 \<Rightarrow> do {
          let now = he_now_ms env;
          let peer = alive_peer (hn_last_peer n1) now (hc_dead_after_ms cfg);
          e \<leftarrow> election_tick now peer (he_gateway_ok env \<and> hn_vip_fault_until_ms n1 \<le> now) (hn_election n1);
          (reason2, n2) \<leftarrow> move_vip env peer reason (n1\<lparr>hn_election := e\<rparr>);
          Some (finish_turn cfg env from_peer reply (el_role (hn_election n1)) peer reason2 n2)
        })"

section \<open>What a turn does\<close>

lemma move_vip_total: "\<exists>r n'. move_vip env peer reason n = Some (r, n')"
  using election_tick_total [of "he_now_ms env" peer False "hn_election n"] by (auto simp: move_vip_def Let_def)

lemma ha_turn_total: "\<exists>t. ha_turn cfg env ev n = Some t"
proof (cases "handle_event cfg env ev n")
  case (Proceed from_peer reason reply n1)
  let ?now = "he_now_ms env" and ?peer = "alive_peer (hn_last_peer n1) (he_now_ms env) (hc_dead_after_ms cfg)"
  obtain e where e: "election_tick ?now ?peer (he_gateway_ok env \<and> hn_vip_fault_until_ms n1 \<le> ?now) (hn_election n1) = Some e"
    using election_tick_total by blast
  obtain r n2 where "move_vip env ?peer reason (n1\<lparr>hn_election := e\<rparr>) = Some (r, n2)" using move_vip_total by blast
  with Proceed e show ?thesis by (simp add: ha_turn_def)
qed (simp_all add: ha_turn_def)

text \<open>A fault is where a tick without a gateway leads.\<close>

lemma tick_no_gateway: "election_tick now peer False e = Some e' \<Longrightarrow> el_role e' = Fault"
  by (auto simp: election_tick_def Let_def)

lemma move_vip_role:
  assumes "move_vip env peer reason n = Some (r, n')" "he_down_ok env"
  shows "hn_vip_held n' \<longleftrightarrow> el_role (hn_election n') = Active"
  using assms by (auto simp: move_vip_def Let_def dest: tick_no_gateway split: if_splits bind_splits)

lemma handle_event_vip:
  "handle_event cfg env ev n = Skipped n1 \<Longrightarrow> n1 = n"
  "handle_event cfg env ev n = Proceed True reason reply n1 \<Longrightarrow> hn_election n1 = hn_election n"
  by (auto simp: handle_event_def receive_heartbeat_def run_command_def switch_result_def Let_def
      split: ha_event.splits if_splits option.splits prod.splits bool.splits ha_command.splits sum.splits)

lemma finish_turn_running:
  assumes "finish_turn cfg env from_peer reply before peer reason n = Running n' sent reply'"
  shows "hn_election n' = hn_election n \<and> hn_vip_held n' = hn_vip_held n \<and>
    (case sent of Some hb \<Rightarrow> hb_role hb = el_role (hn_election n) | None \<Rightarrow> from_peer \<and> before = el_role (hn_election n))"
  using assms by (auto simp: finish_turn_def Let_def next_heartbeat_def split: if_splits)

text \<open>A run of one process: the node and the last heartbeat it sent, as long as \<open>ip addr del\<close> works.\<close>

inductive ha_reach :: "ha_config \<Rightarrow> ha_node \<Rightarrow> heartbeat option \<Rightarrow> bool" for cfg where
  started: "ha_reach cfg (new_node cfg override log now) None"
| turned: "ha_reach cfg n told \<Longrightarrow> he_down_ok env \<Longrightarrow> ha_turn cfg env ev n = Some (Running n' sent reply) \<Longrightarrow>
    ha_reach cfg n' (case sent of Some hb \<Rightarrow> Some hb | None \<Rightarrow> told)"


text \<open>A node that hears nobody: after the listening phase it takes the address.\<close>

definition lone_config :: ha_config where
  "lone_config = \<lparr>hc_node_name = [65], hc_weight = 100, hc_persist = False, hc_dead_after_ms = 10, hc_boot_id = 7,
     hc_config_hash = 1, hc_config_sections = fmempty\<rparr>"

definition lone_env :: ha_env where
  "lone_env = \<lparr>he_event_ms = 20, he_seen_ms = 20, he_now_ms = 20, he_gateway_ok = True, he_up_ok = True,
     he_down_ok = True, he_save = Inr (), he_synced = True\<rparr>"


section \<open>A manual switch is not logged\<close>

text \<open>The operator's switch changes the role while the command is handled, before the loop notes the
  role to compare with: no role change is recorded, and the reason of the switch is lost.\<close>

lemma make_standby_not_logged:
  assumes "el_role (hn_election n) = Active" "he_gateway_ok env" "hn_vip_fault_until_ms n \<le> he_now_ms env"
    "alive_peer (hn_last_peer n) (he_event_ms env) (hc_dead_after_ms cfg) = Some p" "pv_role p = Standby"
    "alive_peer (hn_last_peer n) (he_now_ms env) (hc_dead_after_ms cfg) = Some p"
    "he_now_ms env < he_event_ms env + HANDOVER_TIMEOUT_MS"
  shows "\<exists>n' sent. ha_turn cfg env (Commanded MakeStandby) n = Some (Running n' sent (Some (Inr []))) \<and>
    el_role (hn_election n') = Standby \<and> hn_transitions n' = hn_transitions n"
proof -
  let ?e = "start_handover (pv_node p) True (he_event_ms env) (hn_election n)"
  obtain e where e: "election_tick (he_now_ms env) (Some p) True ?e = Some e" using election_tick_total by blast
  have own: "own_handover (he_now_ms env) p ?e"
    using assms(5,7) by (simp add: own_handover_def)
  obtain q where e': "el_role e = Standby" "handover_target e = Some q"
    using e own by (auto simp: election_tick_def Let_def own_handover_def handover_target_def split: if_splits option.splits)
  then show ?thesis
    using assms e
    by (simp add: ha_turn_def handle_event_def run_command_def request_standby_def request_handover_def switch_result_def
        unit_reply_def Let_def move_vip_def finish_turn_def)
qed

end
