(* ===== verification/Ha_Repl.thy ===== *)
theory Ha_Repl
  imports Store_Log Ha_Node
begin

text \<open>
  Replication from the Active to the Standby node (\<open>src/src/ha_repl.rs\<close>): the challenge and
  response that opens a connection, one turn of the Active's loop, and what the Standby does with
  each message.  The HMAC, bincode and the SMS Center's export and import are parameters; file
  offsets are numbers.
\<close>

section \<open>Messages and authentication\<close>

datatype repl_msg =
    ReplHello rstring bytes "nat option" bool
  | Challenge bytes bytes
  | ReplAuth bytes
  | History nat nat bytes
  | SmsQueue bytes
  | CaughtUp
  | ReplPing

definition text_of :: "string \<Rightarrow> bytes" where
  "text_of s = map of_char s"

definition repl_mac :: "(bytes \<Rightarrow> bytes) \<Rightarrow> string \<Rightarrow> bytes \<Rightarrow> bytes \<Rightarrow> bytes" where
  "repl_mac sign label a b = sign (text_of ''brew-ha-repl/'' @ text_of label @ a @ b)"

definition repl_verify :: "(bytes \<Rightarrow> bytes) \<Rightarrow> string \<Rightarrow> bytes \<Rightarrow> bytes \<Rightarrow> bytes \<Rightarrow> bool" where
  "repl_verify sign label a b tag \<longleftrightarrow> tag = sign (text_of ''brew-ha-repl/'' @ text_of label @ a @ b)"

text \<open>The Active's side of the handshake: the answer to the first message, with the nonce drawn for
  it, and whether the second one is accepted; the Standby's answer to the challenge.  \<open>None\<close> ends
  the connection.\<close>

definition serve_hello :: "(bytes \<Rightarrow> bytes) \<Rightarrow> bytes \<Rightarrow> repl_msg \<Rightarrow> repl_msg option" where
  "serve_hello sign n_server msg =
     (case msg of
        ReplHello node n_client from_offset want_sms \<Rightarrow>
          Some (Challenge n_server (repl_mac sign ''server'' n_client n_server))
      | _ \<Rightarrow> None)"

definition serve_auth :: "(bytes \<Rightarrow> bytes) \<Rightarrow> bytes \<Rightarrow> bytes \<Rightarrow> role \<Rightarrow> repl_msg \<Rightarrow> bool" where
  "serve_auth sign n_client n_server my_role msg \<longleftrightarrow>
     (case msg of
        ReplAuth tag \<Rightarrow> repl_verify sign ''client'' n_server n_client tag \<and> my_role = Active
      | _ \<Rightarrow> False)"

definition pull_challenge :: "(bytes \<Rightarrow> bytes) \<Rightarrow> bytes \<Rightarrow> repl_msg \<Rightarrow> repl_msg option" where
  "pull_challenge sign n_client msg =
     (case msg of
        Challenge n_server tag \<Rightarrow>
          if repl_verify sign ''server'' n_client n_server tag
          then Some (ReplAuth (repl_mac sign ''client'' n_server n_client)) else None
      | _ \<Rightarrow> None)"

lemma handshake:
  assumes "serve_hello sign n_server (ReplHello node n_client from_offset want) = Some ch"
  shows "\<exists>answer. pull_challenge sign n_client ch = Some answer \<and> serve_auth sign n_client n_server Active answer"
  using assms
  by (auto simp: serve_hello_def pull_challenge_def serve_auth_def repl_mac_def repl_verify_def)

section \<open>The Active's turn\<close>

abbreviation (input) HISTORY_CHUNK :: nat where "HISTORY_CHUNK \<equiv> 262144"
abbreviation (input) PING_EVERY :: nat where "PING_EVERY \<equiv> 5000"

text \<open>The inner loop: everything from \<open>offset\<close> to the end of the file, and the offset reached.\<close>

definition left_to_send :: "bytes \<times> nat \<Rightarrow> nat" where
  "left_to_send p = (if length (fst p) < snd p then Suc (length (fst p)) else length (fst p) - snd p)"

lemma read_frames_progress:
  assumes "read_frames offset max_len file = (start, fr, stop)" "fr \<noteq> []"
  shows "left_to_send (file, stop) < left_to_send (file, offset)"
proof -
  have "start = (if length file < offset then 0 else offset)" "start \<le> length file"
    "start < stop" "stop \<le> length file"
  proof -
    show start: "start = (if length file < offset then 0 else offset)" "start \<le> length file"
      using assms(1) by (auto simp: read_frames_def Let_def split: prod.splits if_splits)
    let ?buf = "take max_len (drop start file)"
    obtain bodies used where sp: "split_frames ?buf = (bodies, used)" by (cases "split_frames ?buf")
    have "used \<le> length ?buf" using frames_from_bounds [of 0 ?buf] sp by (simp add: split_frames_def)
    then show "start < stop" "stop \<le> length file"
      using assms sp start by (auto simp: read_frames_def Let_def split: if_splits)
  qed
  then show ?thesis by (cases "length file < offset") (auto simp: left_to_send_def)
qed

function send_history :: "bytes \<Rightarrow> nat \<Rightarrow> repl_msg list \<times> nat" where
  "send_history file offset =
     (case read_frames offset HISTORY_CHUNK file of
        (start, fr, stop) \<Rightarrow>
          if fr = [] then ([], stop)
          else let (msgs, final) = send_history file stop in (History start stop fr # msgs, final))"
  by auto
termination
  by (relation "measure left_to_send") (simp, metis read_frames_progress in_measure)

declare send_history.simps [simp del]

record serving =
  se_offset :: "nat option"
  se_sms_rev :: u64
  se_caught_up :: bool
  se_last_send :: instant

definition serving_from :: "nat option \<Rightarrow> instant \<Rightarrow> serving" where
  "serving_from history_from now =
     \<lparr>se_offset = history_from, se_sms_rev = 0, se_caught_up = False, se_last_send = now\<rparr>"

text \<open>One turn: \<open>file\<close> is the log when there is one, \<open>sms\<close> the queue's revision and export when
  it is wanted and enabled; \<open>None\<close> when the node is no longer Active.\<close>

definition serve_turn ::
  "role \<Rightarrow> bytes option \<Rightarrow> (u64 \<times> bytes) option \<Rightarrow> instant \<Rightarrow> serving \<Rightarrow> (repl_msg list \<times> serving) option" where
  "serve_turn my_role file sms now s =
     (if my_role \<noteq> Active then None
      else
        let (history, s1) = (case (file, se_offset s) of
              (Some f, Some offset) \<Rightarrow>
                let (msgs, final) = send_history f offset in (msgs, s\<lparr>se_offset := Some final\<rparr>)
            | _ \<Rightarrow> ([], s));
            (queue, s2) = (case sms of
              Some (revision, export) \<Rightarrow>
                if revision \<noteq> se_sms_rev s1 then ([SmsQueue export], s1\<lparr>se_sms_rev := revision\<rparr>) else ([], s1)
            | None \<Rightarrow> ([], s1));
            (mark, s3) = (if se_caught_up s2 then ([], s2) else ([CaughtUp], s2\<lparr>se_caught_up := True\<rparr>));
            msgs = history @ queue @ mark
        in Some (if msgs \<noteq> [] then (msgs, s3\<lparr>se_last_send := now\<rparr>)
                 else if PING_EVERY \<le> now - se_last_send s3 then ([ReplPing], s3\<lparr>se_last_send := now\<rparr>)
                 else ([], s3)))"

section \<open>The Standby\<close>

record 'r standby =
  rp_store :: "store option"
  rp_cursor :: nat
  rp_received :: u64
  rp_snapshots :: u64
  rp_synced :: bool
  rp_ingested :: "'r list"

text \<open>The records of one \<open>History\<close> message, in order; one that cannot be read is skipped.\<close>

definition ingest_body :: "(bytes \<Rightarrow> 'r option) \<Rightarrow> bytes \<Rightarrow> 'r list \<times> store \<Rightarrow> 'r list \<times> store" where
  "ingest_body dec body p =
     (case append_replicated dec None body (snd p) of
        (Some (Some r), s) \<Rightarrow> (fst p @ [r], s)
      | (_, s) \<Rightarrow> (fst p, s))"

text \<open>\<open>import\<close>: whether the SMS Center took a queue.  \<open>None\<close> ends the connection.\<close>

definition pull_msg :: "(bytes \<Rightarrow> 'r option) \<Rightarrow> (bytes \<Rightarrow> bool) \<Rightarrow> repl_msg \<Rightarrow> 'r standby \<Rightarrow> 'r standby option" where
  "pull_msg dec imports msg s =
     (case msg of
        History start stop fr \<Rightarrow>
          Some (case rp_store s of
                  None \<Rightarrow> s
                | Some st \<Rightarrow>
                    let (new, st') = fold (ingest_body dec) (fst (split_frames fr)) ([], st)
                    in s\<lparr>rp_store := Some st', rp_ingested := rp_ingested s @ new,
                         rp_received := rp_received s + of_nat (length new), rp_cursor := stop\<rparr>)
      | SmsQueue json \<Rightarrow> Some (if imports json then s\<lparr>rp_snapshots := rp_snapshots s + 1\<rparr> else s)
      | CaughtUp \<Rightarrow> Some (s\<lparr>rp_synced := True\<rparr>)
      | ReplPing \<Rightarrow> Some s
      | _ \<Rightarrow> None)"

fun pull_all :: "(bytes \<Rightarrow> 'r option) \<Rightarrow> (bytes \<Rightarrow> bool) \<Rightarrow> repl_msg list \<Rightarrow> 'r standby \<Rightarrow> 'r standby option" where
  "pull_all dec imports [] s = Some s"
| "pull_all dec imports (m # ms) s = do { s' \<leftarrow> pull_msg dec imports m s; pull_all dec imports ms s' }"

section \<open>Nothing lost, nothing twice\<close>

text \<open>What replication means: the records of the Active that the Standby does not have are added to its
  own, in order, each once.\<close>

fun absorb :: "bytes list \<Rightarrow> bytes list \<Rightarrow> bytes list" where
  "absorb have [] = have"
| "absorb have (b # bs) = absorb (if b \<in> set have then have else have @ [b]) bs"

lemma absorb_append: "absorb hs (xs @ ys) = absorb (absorb hs xs) ys"
  by (induction xs arbitrary: hs) auto

lemma set_absorb: "set (absorb hs xs) = set hs \<union> set xs"
  by (induction xs arbitrary: hs) auto

lemma absorb_known: "set xs \<subseteq> set hs \<Longrightarrow> absorb hs xs = hs"
  by (induction xs) auto

lemma absorb_new: "\<exists>new. absorb hs xs = hs @ new \<and> distinct new \<and> set new \<inter> set hs = {}"
proof (induction xs arbitrary: hs)
  case (Cons b bs)
  show ?case
  proof (cases "b \<in> set hs")
    case False
    obtain new where "absorb (hs @ [b]) bs = (hs @ [b]) @ new" "distinct new" "set new \<inter> set (hs @ [b]) = {}"
      using Cons.IH by blast
    with False show ?thesis by (intro exI [of _ "b # new"]) auto
  qed (use Cons.IH in auto)
qed simp

lemma ingest_body_absorbs:
  assumes "holds hs st" "fits b" "inj_on body_hash (insert b (set hs))" "dec b = Some r"
  shows "holds (absorb hs [b]) (snd (ingest_body dec b (out, st)))"
proof -
  have "body_hash b |\<in>| so_known st \<longleftrightarrow> b \<in> set hs"
    using assms(1,3) by (auto simp: holds_def fset_of_list_elem inj_on_def)
  then show ?thesis
    using assms(1,2,4) holds_append [OF assms(1,2)]
    by (auto simp: ingest_body_def append_replicated_def append_body_def)
qed

lemma ingest_frames_absorbs:
  assumes "holds hs st" "\<forall>b \<in> set xs. fits b \<and> dec b \<noteq> None" "inj_on body_hash (set xs \<union> set hs)"
  shows "holds (absorb hs xs) (snd (fold (ingest_body dec) xs (out, st)))"
  using assms
proof (induction xs arbitrary: hs st out)
  case (Cons b xs)
  obtain r where r: "dec b = Some r" using Cons.prems(2) by auto
  obtain out' st' where i: "ingest_body dec b (out, st) = (out', st')" by fastforce
  have "holds (absorb hs [b]) st'"
  proof -
    have "inj_on body_hash (insert b (set hs))" using Cons.prems(3) by (auto elim: inj_on_subset)
    from ingest_body_absorbs [OF Cons.prems(1) _ this, of dec r out] r i Cons.prems(2) show ?thesis by simp
  qed
  moreover have "inj_on body_hash (set xs \<union> set (absorb hs [b]))"
    using Cons.prems(3) by (auto elim: inj_on_subset)
  ultimately show ?case
    using Cons.IH [of "absorb hs [b]" st' out'] Cons.prems(2) i by (simp split: if_splits)
qed simp

lemma serve_turn_runs: "\<exists>p. serve_turn Active f sms now s = Some p"
  by (simp add: serve_turn_def Let_def split: prod.split)

lemma split_whole: "\<forall>b \<in> set bodies. fits b \<Longrightarrow> split_frames (frames bodies) = (bodies, length (frames bodies))"
  using split_frames_frames [of bodies "[]"] by simp

lemma pull_history:
  assumes "\<forall>b \<in> set (xs @ ys). fits b \<and> dec b \<noteq> None" "holds hs st" "inj_on body_hash (set ys \<union> set hs)"
    "rp_store s = Some st" "rp_cursor s = length (frames xs)"
  shows "snd (send_history (frames (xs @ ys)) (length (frames xs))) = length (frames (xs @ ys)) \<and>
    (\<exists>s' st'. pull_all dec imports (fst (send_history (frames (xs @ ys)) (length (frames xs)))) s = Some s' \<and>
      rp_store s' = Some st' \<and> holds (absorb hs ys) st' \<and> rp_cursor s' = length (frames (xs @ ys)))"
  using assms
proof (induction "length ys" arbitrary: xs ys hs st s rule: less_induct)
  case less
  show ?case
  proof (cases "ys = []")
    case True
    have "read_frames (length (frames xs)) HISTORY_CHUNK (frames xs) = (length (frames xs), [], length (frames xs))"
      by (rule read_frames_end)
    with True less.prems show ?thesis by (simp add: send_history.simps [of "frames xs"])
  next
    case False
    let ?file = "frames (xs @ ys)"
    obtain n where n: "0 < n" "n \<le> length ys"
      and r: "read_frames (length (frames xs)) HISTORY_CHUNK ?file =
        (length (frames xs), frames (take n ys), length (frames (xs @ take n ys)))"
      using read_frames_boundary [of xs ys HISTORY_CHUNK] less.prems(1) False by auto
    let ?xs = "xs @ take n ys" and ?ys = "drop n ys"
    have "0 < length (frames (take n ys))" using n False by (cases ys; cases n) auto
    then have "frames (take n ys) \<noteq> []" by (metis length_0_conv less_not_refl)
    then have send: "send_history ?file (length (frames xs)) =
        (let (msgs, final) = send_history ?file (length (frames ?xs)) in
          (History (length (frames xs)) (length (frames ?xs)) (frames (take n ys)) # msgs, final))"
      by (subst send_history.simps) (simp only: r prod.case if_False)
    obtain new st1 where f: "fold (ingest_body dec) (take n ys) ([], st) = (new, st1)" by fastforce
    have "holds (absorb hs (take n ys)) (snd (fold (ingest_body dec) (take n ys) ([], st)))"
      by (rule ingest_frames_absorbs [OF less.prems(2)])
        (use less.prems(1,3) in \<open>auto dest: in_set_takeD elim!: inj_on_subset\<close>)
    then have st1: "holds (absorb hs (take n ys)) st1" by (simp add: f)
    define s1 where "s1 = s\<lparr>rp_store := Some st1, rp_ingested := rp_ingested s @ new,
      rp_received := rp_received s + of_nat (length new), rp_cursor := length (frames ?xs)\<rparr>"
    have "split_frames (frames (take n ys)) = (take n ys, length (frames (take n ys)))"
      by (rule split_whole) (use less.prems(1) in \<open>auto dest: in_set_takeD\<close>)
    then have pull: "pull_msg dec imports (History (length (frames xs)) (length (frames ?xs)) (frames (take n ys))) s = Some s1"
      using less.prems(4) by (simp add: pull_msg_def s1_def f)
    have sets: "set ys = set (take n ys) \<union> set ?ys" by (metis append_take_drop_id set_append)
    obtain msgs final where m: "send_history ?file (length (frames ?xs)) = (msgs, final)" by fastforce
    have all: "?xs @ ?ys = xs @ ys" by simp
    have "snd (send_history (frames (?xs @ ?ys)) (length (frames ?xs))) = length (frames (?xs @ ?ys)) \<and>
      (\<exists>s' st'. pull_all dec imports (fst (send_history (frames (?xs @ ?ys)) (length (frames ?xs)))) s1 = Some s' \<and>
        rp_store s' = Some st' \<and> holds (absorb (absorb hs (take n ys)) ?ys) st' \<and> rp_cursor s' = length (frames (?xs @ ?ys)))"
      by (rule less.hyps [OF _ _ st1])
        (use n less.prems(1,3) in \<open>auto simp: s1_def set_absorb sets elim!: inj_on_subset\<close>)
    then have "final = length ?file \<and> (\<exists>s' st'. pull_all dec imports msgs s1 = Some s' \<and> rp_store s' = Some st' \<and>
        holds (absorb hs ys) st' \<and> rp_cursor s' = length ?file)"
      unfolding all m fst_conv snd_conv absorb_append [symmetric] append_take_drop_id by simp
    moreover have "send_history ?file (length (frames xs)) =
        (History (length (frames xs)) (length (frames ?xs)) (frames (take n ys)) # msgs, final)"
      unfolding send m by simp
    ultimately show ?thesis by (simp only: fst_conv snd_conv pull_all.simps pull bind.bind_lunit)
  qed
qed


text \<open>A Standby that copied the first of three records and wrote one of its own while it was Active.\<close>

definition standby_store :: store where
  "standby_store = \<lparr>so_file = frames [[1], [9]], so_known = fset_of_list (map body_hash [[1], [9]])\<rparr>"

definition behind :: "bytes standby" where
  "behind = \<lparr>rp_store = Some standby_store, rp_cursor = length (frames [[1]]), rp_received = 0, rp_snapshots = 0,
     rp_synced = False, rp_ingested = []\<rparr>"


end
