(* ===== verification/Emergency_List.thy ===== *)
theory Emergency_List
  imports Calls_Props
begin

text \<open>
  The list of active emergencies (\<open>src/src/emergency.rs\<close>): alarms of this server's Basestations,
  alarms relayed by other servers and priority-15 calls, merged; its pushes to the dispatch
  consoles, and the alarms advertised to peer servers.  The JSON text is a parameter.
\<close>

datatype emergency_kind = AlarmKind | CallKind

record emergency =
  em_issi :: u32
  em_destination :: "u32 option"
  em_bts :: "rstring option"
  em_kind :: emergency_kind
  em_blacklisted :: bool

text \<open>The order of \<open>"alarm"\<close> and \<open>"call"\<close>.\<close>

definition kind_rank :: "emergency_kind \<Rightarrow> nat" where
  "kind_rank k = (case k of AlarmKind \<Rightarrow> 0 | CallKind \<Rightarrow> 1)"

section \<open>The list\<close>

definition own_alarms :: "app \<Rightarrow> emergency list" where
  "own_alarms st =
     concat (map (\<lambda>(station, alarms). map (\<lambda>issi. \<lparr>em_issi = issi, em_destination = None, em_bts = Some station,
         em_kind = AlarmKind, em_blacklisted = is_blocked st issi\<rparr>) (sorted_list_of_fset alarms))
       (fm_items (st_stations st)))"

definition remote_alarms :: "u64 \<Rightarrow> app \<Rightarrow> emergency list" where
  "remote_alarms now st =
     map (\<lambda>((origin, issi), e). \<lparr>em_issi = issi, em_destination = re_dest e,
          em_bts = Some (re_bts e @ of_ascii '' @ '' @ take 8 (format_server_id origin)),
          em_kind = AlarmKind, em_blacklisted = is_blocked st issi\<rparr>)
       (filter (\<lambda>(_, e). \<not> (\<not> re_active e \<or> EM_STALE_MS \<le> saturating_sub now (re_seen_ms e)))
         (fm_items (fs_em_remote (fed (st_inner st)))))"

definition call_emergencies :: "app \<Rightarrow> emergency list" where
  "call_emergencies st =
     map (\<lambda>(_, call). \<lparr>em_issi = ac_source_issi call, em_destination = Some (ac_destination call), em_bts = None,
          em_kind = CallKind, em_blacklisted = is_blocked st (ac_source_issi call)\<rparr>)
       (filter (\<lambda>(_, call). EMERGENCY_PRIORITY \<le> ac_priority call) (fm_items (calls (st_inner st))))"

text \<open>\<open>dedup_by\<close>: of consecutive equals the first stays.\<close>

fun dedup_by :: "('a \<Rightarrow> 'a \<Rightarrow> bool) \<Rightarrow> 'a list \<Rightarrow> 'a list" where
  "dedup_by eq (x # y # xs) = (if eq y x then dedup_by eq (x # xs) else x # dedup_by eq (y # xs))"
| "dedup_by eq xs = xs"

definition same_emergency :: "emergency \<Rightarrow> emergency \<Rightarrow> bool" where
  "same_emergency a b \<longleftrightarrow> em_issi a = em_issi b \<and> em_kind a = em_kind b \<and> em_destination a = em_destination b \<and>
     em_bts a = em_bts b"

definition with_call :: "(u32 \<times> u32 option) list \<Rightarrow> emergency \<Rightarrow> emergency" where
  "with_call cs e =
     (if em_kind e = AlarmKind
      then (case find (\<lambda>(issi, _). issi = em_issi e) cs of
              Some (_, dest) \<Rightarrow> e\<lparr>em_destination := dest\<rparr> | None \<Rightarrow> e)
      else e)"

definition emergency_snapshot :: "u64 \<Rightarrow> app \<Rightarrow> emergency list" where
  "emergency_snapshot now st =
     (let out = own_alarms st @ remote_alarms now st @ call_emergencies st;
          cs = map (\<lambda>e. (em_issi e, em_destination e)) (filter (\<lambda>e. em_kind e = CallKind) out);
          out1 = map (with_call cs) out;
          alarmed = set (map em_issi (filter (\<lambda>e. em_kind e = AlarmKind) out1));
          out2 = filter (\<lambda>e. em_kind e \<noteq> CallKind \<or> em_issi e \<notin> alarmed) out1
      in dedup_by same_emergency (sort_key (\<lambda>e. (em_issi e, kind_rank (em_kind e))) out2))"

section \<open>Pushing it to the consoles\<close>

definition emergency_message :: "((u32 \<times> u32 option) list \<Rightarrow> rstring) \<Rightarrow> emergency list \<Rightarrow> bytes" where
  "emergency_message json es =
     build_service SERVICE_EMERGENCY (json (map (\<lambda>e. (em_issi e, em_destination e)) es))"

text \<open>\<open>PushState\<close>: the list last sent and when.\<close>

record push_state =
  ps_last :: "(u32 \<times> u32 option) list"
  ps_last_sent :: instant

definition push_if_due ::
  "((u32 \<times> u32 option) list \<Rightarrow> rstring) \<Rightarrow> clock \<Rightarrow> push_state \<Rightarrow> app \<Rightarrow> bool \<times> push_state \<times> app" where
  "push_if_due json ck ps st =
     (let es = emergency_snapshot (ck_ms ck) st;
          key = map (\<lambda>e. (em_issi e, em_destination e)) es
      in if key \<noteq> ps_last ps \<or> (key \<noteq> [] \<and> 5000 \<le> ck_now ck - ps_last_sent ps)
         then (True, \<lparr>ps_last = key, ps_last_sent = ck_now ck\<rparr>,
               on_inner (send_all (consoles (st_inner st)) (emergency_message json es)) st)
         else (False, ps, st))"

section \<open>Advertising the own alarms\<close>

type_synonym advert_state = "(u32, instant \<times> u32 option) fmap"

text \<open>The own alarms by ISSI, each with the first station that reports it.\<close>

definition alarm_list :: "app \<Rightarrow> (u32 \<times> rstring) list" where
  "alarm_list st =
     dedup_by (\<lambda>a b. fst a = fst b)
       (sort (concat (map (\<lambda>(station, alarms). map (\<lambda>issi. (issi, station)) (sorted_list_of_fset alarms))
          (fm_items (st_stations st)))))"

definition call_dests :: "app \<Rightarrow> (u32, u32) fmap" where
  "call_dests st =
     fold (\<lambda>(_, call) m. if ac_kind call = GroupCall then fmupd (ac_source_issi call) (ac_destination call) m else m)
       (fm_items (calls (st_inner st))) fmempty"

definition advertise_alarm ::
  "clock \<Rightarrow> (u32, u32) fmap \<Rightarrow> u32 \<times> rstring \<Rightarrow> advert_state \<times> app \<Rightarrow> advert_state \<times> app" where
  "advertise_alarm ck dests own s =
     (case (own, s) of ((issi, bts), (sent, st)) \<Rightarrow>
        let dest = fmlookup dests issi;
            due = (case fmlookup sent issi of None \<Rightarrow> True
                   | Some (at, d) \<Rightarrow> d \<noteq> dest \<or> unat EM_REFRESH_MS \<le> ck_now ck - at)
        in if due then (fmupd issi (ck_now ck, dest) sent,
                        on_inner (advertise_emergency (ck_ms ck) issi dest bts True) st)
           else s)"

definition advertise_clear :: "clock \<Rightarrow> u32 \<Rightarrow> advert_state \<times> app \<Rightarrow> advert_state \<times> app" where
  "advertise_clear ck issi s =
     (case s of (sent, st) \<Rightarrow>
        (fmdrop issi sent, on_inner (advertise_emergency (ck_ms ck) issi None [] False) st))"

definition advertise_if_due :: "clock \<Rightarrow> advert_state \<Rightarrow> app \<Rightarrow> advert_state \<times> app" where
  "advertise_if_due ck sent0 st0 =
     (let alarms = alarm_list st0;
          (sent, st) = fold (advertise_alarm ck (call_dests st0)) alarms (sent0, st0);
          cleared = filter (\<lambda>i. i \<notin> set (map fst alarms)) (sorted_list_of_fset (fmdom sent))
      in fold (advertise_clear ck) cleared (sent, st))"

text \<open>One second of \<open>run\<close>: \<open>tick\<close> counts the seconds.\<close>

definition emergency_second ::
  "((u32 \<times> u32 option) list \<Rightarrow> rstring) \<Rightarrow> json_texts \<Rightarrow> clock \<Rightarrow> push_state \<times> advert_state \<times> u32 \<times> app \<Rightarrow>
   push_state \<times> advert_state \<times> u32 \<times> app" where
  "emergency_second json js ck s =
     (case s of (ps, adv, seconds, st) \<Rightarrow>
        let (adv1, st1) = advertise_if_due ck adv st;
            (_, ps1, st2) = push_if_due json ck ps st1;
            seconds1 = seconds + 1
        in (ps1, adv1, seconds1, if seconds1 mod 5 = 0 then push_to_consoles js st2 else st2))"

section \<open>What the list says\<close>

lemma dedup_by_head: "x \<in> set (dedup_by eq (x # xs))"
  by (induction xs arbitrary: x) auto

lemma dedup_by_covers: "x \<in> set xs \<Longrightarrow> \<exists>y \<in> set (dedup_by eq xs). x = y \<or> eq x y"
proof (induction eq xs rule: dedup_by.induct)
  case (1 eq a b xs)
  show ?case
  proof (cases "eq b a")
    case True
    then show ?thesis using 1 dedup_by_head [of a eq xs] by (cases "x = b") auto
  qed (use 1 in auto)
qed auto

lemma dedup_by_subset: "set (dedup_by eq xs) \<subseteq> set xs"
  by (induction eq xs rule: dedup_by.induct) auto

lemma dedup_by_keeps:
  assumes "\<And>x y. eq x y \<Longrightarrow> P x \<Longrightarrow> P y"
  shows "(\<exists>e \<in> set (dedup_by eq xs). P e) \<longleftrightarrow> (\<exists>e \<in> set xs. P e)"
  using dedup_by_subset [of eq xs] dedup_by_covers [of _ xs eq] assms by blast

definition alarmed :: "u64 \<Rightarrow> app \<Rightarrow> u32 \<Rightarrow> bool" where
  "alarmed now st issi \<longleftrightarrow>
     telemetry_is_emergency st issi \<or>
     (\<exists>origin e. fmlookup (fs_em_remote (fed (st_inner st))) (origin, issi) = Some e \<and> re_active e \<and>
       saturating_sub now (re_seen_ms e) < EM_STALE_MS)"

definition emergency_call :: "app \<Rightarrow> u32 \<Rightarrow> u32 \<Rightarrow> bool" where
  "emergency_call st issi dest \<longleftrightarrow>
     (\<exists>uid call. fmlookup (calls (st_inner st)) uid = Some call \<and> EMERGENCY_PRIORITY \<le> ac_priority call \<and>
       ac_source_issi call = issi \<and> ac_destination call = dest)"

lemma in_own_alarms:
  "(\<exists>e \<in> set (own_alarms st). em_issi e = issi) \<longleftrightarrow> telemetry_is_emergency st issi"
  by (force simp: own_alarms_def telemetry_is_emergency_def fm_any_iff)

lemma in_remote_alarms:
  "(\<exists>e \<in> set (remote_alarms now st). em_issi e = issi) \<longleftrightarrow>
     (\<exists>origin e. fmlookup (fs_em_remote (fed (st_inner st))) (origin, issi) = Some e \<and> re_active e \<and>
       saturating_sub now (re_seen_ms e) < EM_STALE_MS)"
  by (force simp: remote_alarms_def not_le)

lemma in_call_emergencies:
  "e \<in> set (call_emergencies st) \<Longrightarrow> \<exists>dest. em_destination e = Some dest \<and> emergency_call st (em_issi e) dest"
  "emergency_call st issi dest \<Longrightarrow> \<exists>e \<in> set (call_emergencies st). em_issi e = issi \<and> em_destination e = Some dest"
  by (force simp: call_emergencies_def emergency_call_def)+

lemma alarm_kinds:
  "e \<in> set (own_alarms st) \<Longrightarrow> em_kind e = AlarmKind" "e \<in> set (remote_alarms now st) \<Longrightarrow> em_kind e = AlarmKind"
  "e \<in> set (call_emergencies st) \<Longrightarrow> em_kind e = CallKind"
  by (auto simp: own_alarms_def remote_alarms_def call_emergencies_def)

lemma with_call_simps [simp]: "em_issi (with_call cs e) = em_issi e" "em_kind (with_call cs e) = em_kind e"
  by (auto simp: with_call_def split: option.split)

lemma findD: "find P xs = Some x \<Longrightarrow> x \<in> set xs \<and> P x"
  by (auto simp: find_Some_iff)

lemma with_call_dest:
  assumes "em_kind e = AlarmKind"
  shows "(\<exists>d. (em_issi e, d) \<in> set cs) \<Longrightarrow> (em_issi e, em_destination (with_call cs e)) \<in> set cs"
proof -
  assume "\<exists>d. (em_issi e, d) \<in> set cs"
  then have "find (\<lambda>(issi, _). issi = em_issi e) cs \<noteq> None" by (auto simp: find_None_iff)
  then obtain p where p: "find (\<lambda>(issi, _). issi = em_issi e) cs = Some p" by auto
  then obtain d where d: "p = (em_issi e, d)" "(em_issi e, d) \<in> set cs" using findD [OF p] by (cases p) simp
  with p have "find (\<lambda>(issi, _). issi = em_issi e) cs = Some (em_issi e, d)" by simp
  then show ?thesis using assms d(2) by (simp add: with_call_def)
qed


text \<open>Radio 4013 in alarm and calling group 91; radio 4014 calling group 92 with priority 15.\<close>

definition in_alarm :: app where
  "in_alarm = two_stations\<lparr>st_stations := fmupd [66] {|4013|} fmempty,
     st_inner := (st_inner two_stations)\<lparr>calls := fmupd 78 (group_call\<lparr>ac_source_issi := 4014, ac_destination := 92,
       ac_priority := 15\<rparr>) (fmupd 77 (group_call\<lparr>ac_priority := 15\<rparr>) fmempty)\<rparr>\<rparr>"


end
