(* ===== verification/G711.thy ===== *)
theory G711
  imports Prelude
begin

text \<open>
  G.711 companding (\<open>src/src/transcode/g711.rs\<close>): 16-bit samples as mu-law and A-law bytes.  The
  code computes in \<open>i32\<close>, whose range no intermediate value leaves, so they are integers here.
\<close>

type_synonym i16 = "16 word"

abbreviation (input) ULAW_BIAS :: int where "ULAW_BIAS \<equiv> 0x84"
abbreviation (input) ULAW_CLIP :: int where "ULAW_CLIP \<equiv> 32635"

definition ULAW_SEG_END :: "int list" where
  "ULAW_SEG_END = [0xFF, 0x1FF, 0x3FF, 0x7FF, 0xFFF, 0x1FFF, 0x3FFF, 0x7FFF]"

definition ALAW_SEG_END :: "int list" where
  "ALAW_SEG_END = [0x1F, 0x3F, 0x7F, 0xFF, 0x1FF, 0x3FF, 0x7FF, 0xFFF]"

definition search :: "int \<Rightarrow> int list \<Rightarrow> nat" where
  "search v table = (case position (\<lambda>e. v \<le> e) table of Some i \<Rightarrow> i | None \<Rightarrow> length table)"

definition ulaw_encode :: "i16 \<Rightarrow> u8" where
  "ulaw_encode pcm =
     (let s0 = sint pcm;
          sign = (if s0 < 0 then 0x80 else 0 :: u8);
          s1 = (if s0 < 0 then - s0 else s0);
          s2 = (if ULAW_CLIP < s1 then ULAW_CLIP else s1);
          s = s2 + ULAW_BIAS;
          exponent = search s ULAW_SEG_END;
          mantissa = drop_bit (exponent + 3) s AND 0x0F
      in NOT (sign OR push_bit 4 (of_nat exponent) OR word_of_int mantissa))"

definition ulaw_decode :: "u8 \<Rightarrow> i16" where
  "ulaw_decode byte =
     (let b = NOT byte;
          sign = b AND 0x80;
          exponent = unat (drop_bit 4 b AND 0x07);
          mantissa = uint (b AND 0x0F);
          s = push_bit exponent (push_bit 3 mantissa + ULAW_BIAS) - ULAW_BIAS
      in word_of_int (if sign \<noteq> 0 then - s else s))"

definition alaw_encode :: "i16 \<Rightarrow> u8" where
  "alaw_encode pcm =
     (let s0 = drop_bit 3 (sint pcm);
          mask = (if 0 \<le> s0 then 0xD5 else 0x55 :: u8);
          s = (if 0 \<le> s0 then s0 else - s0 - 1);
          seg = search s ALAW_SEG_END
      in if 8 \<le> seg then 0x7F XOR mask
         else (push_bit 4 (of_nat seg) OR
               word_of_int (if seg < 2 then drop_bit 1 s AND 0x0F else drop_bit seg s AND 0x0F)) XOR mask)"

definition alaw_decode :: "u8 \<Rightarrow> i16" where
  "alaw_decode byte =
     (let b = byte XOR 0x55;
          sign = b AND 0x80;
          seg = unat (drop_bit 4 (b AND 0x70));
          mantissa = uint (b AND 0x0F);
          s = (if seg = 0 then push_bit 4 mantissa + 8 else push_bit (seg - 1) (push_bit 4 mantissa + 0x108))
      in word_of_int (if sign = 0 then - s else s))"

section \<open>Segments\<close>

lemma less_8: "e < 8 \<Longrightarrow> e = 0 \<or> e = 1 \<or> e = 2 \<or> e = 3 \<or> e = 4 \<or> e = 5 \<or> e = 6 \<or> e = (7 :: nat)"
  by arith

lemma ulaw_segment:
  assumes "132 \<le> s" "s \<le> 32767"
  shows "search s ULAW_SEG_END < 8" "2 ^ (search s ULAW_SEG_END + 7) \<le> s" "s < 2 ^ (search s ULAW_SEG_END + 8)"
  using assms by (simp_all add: search_def ULAW_SEG_END_def)

lemma ulaw_segment_unique:
  assumes "2 ^ (e + 7) \<le> s" "s < 2 ^ (e + 8)" "e < 8" shows "search s ULAW_SEG_END = e"
proof -
  from less_8 [OF assms(3)] show ?thesis using assms(1,2) by (elim disjE) (simp_all add: search_def ULAW_SEG_END_def)
qed

text \<open>The three fields of a byte.\<close>

lemma byte_fields:
  fixes e :: nat and m :: int and s :: u8
  assumes "e < 8" "0 \<le> m" "m < 16" "s = 0 \<or> s = 0x80" "w = s OR push_bit 4 (of_nat e) OR word_of_int m"
  shows "w AND 0x80 = s" "unat (drop_bit 4 w AND 0x07) = e" "uint (w AND 0x0F) = m" "unat (drop_bit 4 (w AND 0x70)) = e"
proof -
  note e = less_8 [OF assms(1)]
  have m: "m = 0 \<or> m = 1 \<or> m = 2 \<or> m = 3 \<or> m = 4 \<or> m = 5 \<or> m = 6 \<or> m = 7 \<or>
      m = 8 \<or> m = 9 \<or> m = 10 \<or> m = 11 \<or> m = 12 \<or> m = 13 \<or> m = 14 \<or> m = 15" using assms(2,3) by arith
  have "w AND 0x80 = s \<and> unat (drop_bit 4 w AND 0x07) = e \<and> uint (w AND 0x0F) = m \<and> unat (drop_bit 4 (w AND 0x70)) = e"
    using e m assms(4) unfolding assms(5) by (elim disjE) simp_all
  then show "w AND 0x80 = s" "unat (drop_bit 4 w AND 0x07) = e" "uint (w AND 0x0F) = m" "unat (drop_bit 4 (w AND 0x70)) = e"
    by blast+
qed

lemma byte_parts: "w = (w AND 0x80) OR push_bit 4 (drop_bit 4 w AND 0x07) OR (w AND (0x0F :: u8))"
proof (rule bit_word_eqI)
  fix n assume "n < LENGTH(8)"
  then have "n < 8" by simp
  from less_8 [OF this] show "bit w n \<longleftrightarrow> bit ((w AND 0x80) OR push_bit 4 (drop_bit 4 w AND 0x07) OR (w AND 0x0F)) n"
    by (elim disjE) (simp_all add: bit_simps)
qed

lemma byte_decompose:
  fixes w :: u8
  obtains s e m where "w = s OR push_bit 4 (of_nat e) OR word_of_int m" "e < 8" "0 \<le> m" "m < 16" "s = 0 \<or> s = 0x80"
proof -
  define s e m where "s = w AND 0x80" and "e = unat (drop_bit 4 w AND 0x07)" and "m = uint (w AND 0x0F)"
  have e: "e < 8" and m: "0 \<le> m" "m < 16"
  proof -
    have "unat (drop_bit 4 w AND 0x07) \<le> unat (7 :: u8)" "uint (w AND 0x0F) \<le> uint (15 :: u8)"
      by (simp_all only: word_and_le1 flip: word_le_nat_alt word_le_def)
    then show "e < 8" "0 \<le> m" "m < 16" by (simp_all add: e_def m_def)
  qed
  have s: "s = 0 \<or> s = 0x80"
  proof -
    have "bit s n \<longleftrightarrow> bit (if bit w 7 then 0x80 else 0 :: u8) n" if "n < 8" for n
      using less_8 [OF that] by (elim disjE) (simp_all add: s_def bit_simps)
    then have "s = (if bit w 7 then 0x80 else 0)" by (intro bit_word_eqI) simp
    then show ?thesis by auto
  qed
  have w: "w = s OR push_bit 4 (of_nat e) OR word_of_int m"
    using byte_parts [of w] by (simp add: s_def e_def m_def)
  from w e m s show thesis by (rule that)
qed

section \<open>Values\<close>

lemma and_15: "(x :: int) AND 15 = x mod 16"
  using take_bit_eq_mask [of 4 x] by (simp add: take_bit_eq_mod mask_eq_exp_minus_1)

lemma sint_small: "- 32768 \<le> x \<Longrightarrow> x < 32768 \<Longrightarrow> sint (word_of_int x :: i16) = x"
  by (simp add: sint_sbintrunc' signed_take_bit_int_eq_self)

lemma sint_range: "- 32768 \<le> sint (x :: i16)" "sint (x :: i16) < 32768"
  using sint_range_size [of x] by (simp_all add: word_size)

lemma div_bounds:
  fixes k :: int assumes "0 < k" "a * k \<le> s" "s < b * k" shows "a \<le> s div k" "s div k < b"
proof -
  show "a \<le> s div k" using zdiv_mono1 [OF assms(2,1)] assms(1) by simp
  show "s div k < b"
  proof (rule ccontr)
    assume "\<not> s div k < b"
    then have "b * k \<le> s div k * k" using assms(1) by (intro mult_right_mono) simp_all
    moreover have "s div k * k \<le> s" using div_mult_mod_eq [of s k] pos_mod_sign [OF assms(1), of s] by linarith
    ultimately show False using assms(3) by simp
  qed
qed

lemma mod_16: "16 \<le> q \<Longrightarrow> q < 32 \<Longrightarrow> q mod 16 = q - (16 :: int)"
  by presburger

text \<open>The value of a mu-law byte with sign \<open>s\<close>, exponent \<open>e\<close> and mantissa \<open>m\<close>.\<close>

definition ulaw_magnitude :: "nat \<Rightarrow> int \<Rightarrow> int" where
  "ulaw_magnitude e m = (8 * m + 132) * 2 ^ e - 132"

lemma ulaw_magnitude_bounds:
  assumes "e < 8" "0 \<le> m" "m < 16"
  shows "0 \<le> ulaw_magnitude e m" "ulaw_magnitude e m \<le> 32124"
    "2 ^ (e + 7) \<le> ulaw_magnitude e m + 132" "ulaw_magnitude e m + 132 < 2 ^ (e + 8)"
    "(ulaw_magnitude e m + 132) div 2 ^ (e + 3) = m + 16"
proof -
  from less_8 [OF assms(1)] show "0 \<le> ulaw_magnitude e m" "ulaw_magnitude e m \<le> 32124"
    "2 ^ (e + 7) \<le> ulaw_magnitude e m + 132" "ulaw_magnitude e m + 132 < 2 ^ (e + 8)"
    using assms(2,3) by (elim disjE; simp add: ulaw_magnitude_def)+
  have "(8 * m + 132) * 2 ^ e div 2 ^ (e + 3) = (8 * m + 132) div 8"
    by (simp add: power_add mult.commute [of _ "2 ^ e"])
  then show "(ulaw_magnitude e m + 132) div 2 ^ (e + 3) = m + 16"
    by (simp add: ulaw_magnitude_def)
qed

lemma ulaw_decode_value:
  assumes "b = NOT w" "w = s OR push_bit 4 (of_nat e) OR word_of_int m" "e < 8" "0 \<le> m" "m < 16" "s = 0 \<or> s = 0x80"
  shows "sint (ulaw_decode b) = (if s = 0 then ulaw_magnitude e m else - ulaw_magnitude e m)"
proof -
  have "NOT b = w" by (simp add: assms(1))
  moreover have "push_bit e (push_bit 3 m + 132) - 132 = ulaw_magnitude e m"
    by (simp add: ulaw_magnitude_def push_bit_eq_mult algebra_simps)
  ultimately have "ulaw_decode b = word_of_int (if s \<noteq> 0 then - ulaw_magnitude e m else ulaw_magnitude e m)"
    by (simp add: ulaw_decode_def Let_def byte_fields [OF assms(3-6,2)])
  then show ?thesis
    using sint_small [of "ulaw_magnitude e m"] sint_small [of "- ulaw_magnitude e m"] ulaw_magnitude_bounds [OF assms(3-5)]
    by (simp split: if_splits)
qed

lemma ulaw_encode_parts:
  fixes pcm :: i16
  defines "s \<equiv> min \<bar>sint pcm\<bar> ULAW_CLIP + ULAW_BIAS"
  defines "e \<equiv> search s ULAW_SEG_END"
  shows "ulaw_encode pcm = NOT ((if sint pcm < 0 then 0x80 else 0) OR push_bit 4 (of_nat e) OR word_of_int (s div 2 ^ (e + 3) - 16))"
    "e < 8" "2 ^ (e + 7) \<le> s" "16 \<le> s div 2 ^ (e + 3)" "s div 2 ^ (e + 3) < 32"
proof -
  have s: "132 \<le> s" "s \<le> 32767" by (simp_all add: s_def)
  note seg = ulaw_segment [OF s, folded e_def]
  show "e < 8" "2 ^ (e + 7) \<le> s" using seg by simp_all
  have p: "(2 :: int) ^ (e + 7) = 16 * 2 ^ (e + 3)" "(2 :: int) ^ (e + 8) = 32 * 2 ^ (e + 3)"
    by (simp_all add: power_add)
  show q: "16 \<le> s div 2 ^ (e + 3)" "s div 2 ^ (e + 3) < 32"
    using div_bounds [of "2 ^ (e + 3)" 16 s 32] seg(2,3) by (simp_all add: p)
  have "drop_bit (e + 3) s AND 15 = s div 2 ^ (e + 3) - 16"
    using q by (simp add: and_15 drop_bit_eq_div mod_16)
  moreover have "(if ULAW_CLIP < (if sint pcm < 0 then - sint pcm else sint pcm) then ULAW_CLIP
      else if sint pcm < 0 then - sint pcm else sint pcm) + ULAW_BIAS = s"
    by (simp add: s_def min_def abs_if)
  ultimately show "ulaw_encode pcm = NOT ((if sint pcm < 0 then 0x80 else 0) OR push_bit 4 (of_nat e) OR word_of_int (s div 2 ^ (e + 3) - 16))"
    by (simp only: ulaw_encode_def Let_def e_def [symmetric] or.assoc)
qed

lemma ulaw_roundtrip: "ulaw_encode (ulaw_decode b) = (if b = 0x7F then 0xFF else b)"
proof -
  define w where "w = NOT b"
  obtain s e m where w: "w = s OR push_bit 4 (of_nat e) OR word_of_int m" and e: "e < 8" and m: "0 \<le> m" "m < 16"
    and s: "s = 0 \<or> s = 0x80" by (rule byte_decompose)
  have b: "b = NOT w" by (simp add: w_def)
  note v = ulaw_decode_value [OF b w e m s]
  note mag = ulaw_magnitude_bounds [OF e m]
  have "min \<bar>sint (ulaw_decode b)\<bar> ULAW_CLIP + ULAW_BIAS = ulaw_magnitude e m + 132"
    using v mag(1,2) by (simp split: if_splits)
  moreover have "search (ulaw_magnitude e m + 132) ULAW_SEG_END = e"
    by (rule ulaw_segment_unique [OF mag(3,4) e])
  ultimately have enc: "ulaw_encode (ulaw_decode b) =
      NOT ((if sint (ulaw_decode b) < 0 then 0x80 else 0) OR push_bit 4 (of_nat e) OR word_of_int m)"
    using ulaw_encode_parts(1) [of "ulaw_decode b"] mag(5) by simp
  show ?thesis
  proof (cases "s = 0 \<or> ulaw_magnitude e m \<noteq> 0")
    case True
    then have "(if sint (ulaw_decode b) < 0 then 0x80 else 0) = s" using v mag(1) s by auto
    then have "ulaw_encode (ulaw_decode b) = b" using enc w b by simp
    moreover have "b \<noteq> 0x7F"
    proof
      assume "b = 0x7F"
      then have "w = 0x80" by (simp add: w_def)
      then have "s = 0x80" "e = 0" "m = 0" using byte_fields [OF e m s w] by simp_all
      with True show False by (simp add: ulaw_magnitude_def)
    qed
    ultimately show ?thesis by simp
  next
    case False
    from less_8 [OF e] False m(1) have z: "e = 0" "m = 0" by (auto simp: ulaw_magnitude_def)
    have "s = 0x80" using False s by simp
    with z w have "w = 0x80" by simp
    then have "b = 0x7F" using b by simp
    with enc z v show ?thesis by (simp add: ulaw_magnitude_def)
  qed
qed

section \<open>A-law\<close>

definition alaw_magnitude :: "nat \<Rightarrow> int \<Rightarrow> int" where
  "alaw_magnitude e m = (if e = 0 then 16 * m + 8 else (16 * m + 264) * 2 ^ (e - 1))"

text \<open>The sample without its last three bits, made non-negative, and the fields it is coded by.\<close>

definition alaw_level :: "int \<Rightarrow> int" where
  "alaw_level x = (if 0 \<le> x then x div 8 else - (x div 8) - 1)"

definition alaw_step :: "nat \<Rightarrow> int \<Rightarrow> int" where
  "alaw_step e s = (if e < 2 then s div 2 else s div 2 ^ e) mod 16"

lemma alaw_level_bounds: "- 32768 \<le> x \<Longrightarrow> x < 32768 \<Longrightarrow> 0 \<le> alaw_level x \<and> alaw_level x \<le> 4095"
  by (auto simp: alaw_level_def)

lemma alaw_segment:
  assumes "0 \<le> s" "s \<le> 4095"
  shows "search s ALAW_SEG_END < 8" "search s ALAW_SEG_END = 0 \<Longrightarrow> s < 32"
    "search s ALAW_SEG_END \<noteq> 0 \<Longrightarrow> 2 ^ (search s ALAW_SEG_END + 4) \<le> s \<and> s < 2 ^ (search s ALAW_SEG_END + 5)"
  using assms by (auto simp: search_def ALAW_SEG_END_def split: if_splits)

lemma alaw_xor:
  assumes "e < 8" "0 \<le> m" "m < 16"
  shows "(push_bit 4 (of_nat e) OR word_of_int m) XOR (if p then 0xD5 else 0x55) =
    ((if p then 0x80 else 0) OR push_bit 4 (of_nat e) OR word_of_int m) XOR (0x55 :: u8)"
proof -
  have m: "m = 0 \<or> m = 1 \<or> m = 2 \<or> m = 3 \<or> m = 4 \<or> m = 5 \<or> m = 6 \<or> m = 7 \<or>
      m = 8 \<or> m = 9 \<or> m = 10 \<or> m = 11 \<or> m = 12 \<or> m = 13 \<or> m = 14 \<or> m = 15" using assms(2,3) by arith
  from less_8 [OF assms(1)] m show ?thesis by (elim disjE) simp_all
qed

lemma drop_bit_3: "drop_bit 3 (x :: int) = x div 8"
  by (simp add: drop_bit_eq_div)

lemma alaw_encode_parts:
  fixes pcm :: i16
  defines "s \<equiv> alaw_level (sint pcm)"
  defines "e \<equiv> search s ALAW_SEG_END"
  shows "alaw_encode pcm = ((if 0 \<le> sint pcm then 0x80 else 0) OR push_bit 4 (of_nat e) OR word_of_int (alaw_step e s)) XOR 0x55"
proof -
  have s: "0 \<le> s" "s \<le> 4095" using alaw_level_bounds [of "sint pcm"] sint_range [of pcm] by (simp_all add: s_def)
  have "0 \<le> drop_bit 3 (sint pcm) \<longleftrightarrow> 0 \<le> sint pcm" by (simp add: drop_bit_3 pos_imp_zdiv_nonneg_iff)
  moreover have "(if 0 \<le> drop_bit 3 (sint pcm) then drop_bit 3 (sint pcm) else - drop_bit 3 (sint pcm) - 1) = s"
    by (auto simp: s_def alaw_level_def drop_bit_3)
  moreover have "(if e < 2 then drop_bit 1 s AND 0x0F else drop_bit e s AND 0x0F) = alaw_step e s"
    by (simp add: alaw_step_def and_15 drop_bit_eq_div)
  moreover have "\<not> 8 \<le> e" using alaw_segment(1) [OF s] by (simp add: e_def)
  ultimately have "alaw_encode pcm = (push_bit 4 (of_nat e) OR word_of_int (alaw_step e s)) XOR (if 0 \<le> sint pcm then 0xD5 else 0x55)"
    by (simp only: alaw_encode_def Let_def e_def [symmetric] if_False)
  then show ?thesis
    using alaw_xor [of e "alaw_step e s" "0 \<le> sint pcm"] alaw_segment(1) [OF s] by (simp add: e_def alaw_step_def)
qed

lemma alaw_magnitude_bounds:
  assumes "e < 8" "0 \<le> m" "m < 16"
  shows "8 \<le> alaw_magnitude e m" "alaw_magnitude e m \<le> 32256"
  using less_8 [OF assms(1)] assms(2,3) by (elim disjE; simp add: alaw_magnitude_def)+

lemma alaw_decode_value:
  assumes "b = w XOR 0x55" "w = s OR push_bit 4 (of_nat e) OR word_of_int m" "e < 8" "0 \<le> m" "m < 16" "s = 0 \<or> s = 0x80"
  shows "sint (alaw_decode b) = (if s = 0 then - alaw_magnitude e m else alaw_magnitude e m)"
proof -
  have w: "b XOR 0x55 = w" by (simp add: assms(1) xor.assoc)
  have mag: "(if e = 0 then push_bit 4 m + 8 else push_bit (e - 1) (push_bit 4 m + 0x108)) = alaw_magnitude e m"
    by (simp add: alaw_magnitude_def push_bit_eq_mult algebra_simps)
  have "alaw_decode b = word_of_int (if s = 0 then - alaw_magnitude e m else alaw_magnitude e m)"
    unfolding alaw_decode_def Let_def w byte_fields [OF assms(3-6,2)] mag ..
  then show ?thesis
    using sint_small [of "alaw_magnitude e m"] sint_small [of "- alaw_magnitude e m"] alaw_magnitude_bounds [OF assms(3-5)]
    by (simp split: if_splits)
qed

text \<open>Coding the decoded value finds its fields again.\<close>

lemma alaw_fields_again:
  assumes "e < 8" "0 \<le> m" "m < 16" "x = alaw_magnitude e m \<or> x = - alaw_magnitude e m"
  shows "search (alaw_level x) ALAW_SEG_END = e" "alaw_step e (alaw_level x) = m"
proof -
  define t where "t = (if e = 0 then 2 * m + 1 else (2 * m + 33) * 2 ^ (e - 1))"
  have "alaw_magnitude e m = 8 * t" by (simp add: alaw_magnitude_def t_def algebra_simps)
  moreover have "0 < t" using assms(2) by (simp add: t_def)
  ultimately have v: "alaw_level x = t \<or> alaw_level x = t - 1"
    using assms(4) by (auto simp: alaw_level_def)
  from v less_8 [OF assms(1)] assms(2,3) show "search (alaw_level x) ALAW_SEG_END = e"
    by (elim disjE; simp add: t_def search_def ALAW_SEG_END_def)
  from v less_8 [OF assms(1)] assms(2,3) show "alaw_step e (alaw_level x) = m"
    by (elim disjE; simp add: t_def alaw_step_def; presburger)
qed

lemma alaw_roundtrip: "alaw_encode (alaw_decode b) = b"
proof -
  define w where "w = b XOR 0x55"
  have b: "b = w XOR 0x55" by (simp add: w_def xor.assoc)
  obtain s e m where w: "w = s OR push_bit 4 (of_nat e) OR word_of_int m" and e: "e < 8" and m: "0 \<le> m" "m < 16"
    and s: "s = 0 \<or> s = 0x80" by (rule byte_decompose)
  note v = alaw_decode_value [OF b w e m s]
  have x: "sint (alaw_decode b) = alaw_magnitude e m \<or> sint (alaw_decode b) = - alaw_magnitude e m"
    using v by auto
  have "(if 0 \<le> sint (alaw_decode b) then 0x80 else 0) = s"
    using v s alaw_magnitude_bounds(1) [OF e m] by auto
  then show ?thesis
    using alaw_encode_parts [of "alaw_decode b"] alaw_fields_again [OF e m x] w b by simp
qed

section \<open>The error of companding\<close>

definition ulaw_clip :: "int \<Rightarrow> int" where
  "ulaw_clip x = max (- ULAW_CLIP) (min ULAW_CLIP x)"

lemma within_step: "32 * \<bar>d\<bar> \<le> s" if "\<bar>d\<bar> \<le> 4 * w" "128 * w \<le> s" for d w s :: int
  using that by linarith

lemma mid_error: "32 * \<bar>8 * w * (s div w mod 16) + 132 * w - y\<bar> \<le> y"
  if "0 < w" "16 * w \<le> s" "s < 32 * w" "8 * s \<le> y" "y \<le> 8 * s + 8" for w s y :: int
proof -
  define q where "q = s div w"
  have "s = q * w + s mod w" unfolding q_def by (rule div_mult_mod_eq [symmetric])
  moreover have "0 \<le> s mod w" "s mod w < w" using that(1) by simp_all
  ultimately have s: "q * w \<le> s" "s + 1 \<le> q * w + w" by linarith+
  have "16 * w < (q + 1) * w" unfolding distrib_right using s that(2) by linarith
  moreover have "q * w < 32 * w" using s that(3) by linarith
  ultimately have "16 < q + 1" "q < 32" using that(1) by (simp_all only: mult_less_cancel_right_pos)
  then have m: "q mod 16 = q - 16" by presburger
  have "\<bar>8 * w * (q - 16) + 132 * w - y\<bar> \<le> 4 * w" using s that(4,5) by (simp add: algebra_simps abs_le_iff)
  then show ?thesis using that(2,4) by (intro within_step [where w = w]) (simp_all add: m flip: q_def)
qed

lemma ulaw_error:
  "32 * \<bar>sint (ulaw_decode (ulaw_encode pcm)) - ulaw_clip (sint pcm)\<bar> \<le> \<bar>ulaw_clip (sint pcm)\<bar> + 132"
proof -
  define s where "s = min \<bar>sint pcm\<bar> ULAW_CLIP + ULAW_BIAS"
  define e where "e = search s ULAW_SEG_END"
  define q where "q = s div 2 ^ (e + 3)"
  note p = ulaw_encode_parts [of pcm, folded s_def, folded e_def, folded q_def]
  have d: "sint (ulaw_decode (ulaw_encode pcm)) =
      (if (if sint pcm < 0 then 0x80 else 0 :: u8) = 0 then ulaw_magnitude e (q - 16) else - ulaw_magnitude e (q - 16))"
    using p(4,5) by (intro ulaw_decode_value [OF p(1) refl p(2)]) auto
  have s: "s = \<bar>ulaw_clip (sint pcm)\<bar> + 132" by (auto simp: s_def ulaw_clip_def)
  have m: "ulaw_magnitude e (q - 16) + 132 = (8 * q + 4) * 2 ^ e" by (simp add: ulaw_magnitude_def)
  define w :: int where "w = 2 ^ (e + 3)"
  have w: "0 < w" "w = 8 * 2 ^ e" by (simp_all add: w_def power_add)
  have "s = q * w + s mod w" unfolding q_def w_def by (rule div_mult_mod_eq [symmetric])
  moreover have "0 \<le> s mod w" "s mod w < w" using w(1) by simp_all
  ultimately have "q * w \<le> s" "s < q * w + w" by linarith+
  then have "8 * q * 2 ^ e \<le> s" "s < (8 * q + 8) * 2 ^ e" unfolding w(2) by (simp_all add: algebra_simps)
  then have "\<bar>ulaw_magnitude e (q - 16) + 132 - s\<bar> \<le> 4 * 2 ^ e" unfolding m by (simp add: algebra_simps abs_le_iff)
  moreover have "128 * 2 ^ e \<le> s" using p(3) by (simp add: power_add)
  ultimately have "32 * \<bar>ulaw_magnitude e (q - 16) + 132 - s\<bar> \<le> s" by (rule within_step)
  moreover have "\<bar>sint (ulaw_decode (ulaw_encode pcm)) - ulaw_clip (sint pcm)\<bar> = \<bar>ulaw_magnitude e (q - 16) + 132 - s\<bar>"
    unfolding d s by (auto simp: ulaw_clip_def)
  ultimately show ?thesis using s by simp
qed

lemma alaw_error: "32 * \<bar>sint (alaw_decode (alaw_encode pcm)) - sint pcm\<bar> \<le> max 256 \<bar>sint pcm\<bar>"
proof -
  define s where "s = alaw_level (sint pcm)"
  define e where "e = search s ALAW_SEG_END"
  have s: "0 \<le> s" "s \<le> 4095" using alaw_level_bounds [of "sint pcm"] sint_range [of pcm] by (simp_all add: s_def)
  note seg = alaw_segment [OF s, folded e_def]
  have "0 \<le> alaw_step e s" "alaw_step e s < 16" by (simp_all add: alaw_step_def)
  with seg(1) have d: "sint (alaw_decode (alaw_encode pcm)) =
      (if (if 0 \<le> sint pcm then 0x80 else 0 :: u8) = 0 then - alaw_magnitude e (alaw_step e s) else alaw_magnitude e (alaw_step e s))"
    by (intro alaw_decode_value [OF alaw_encode_parts [of pcm, folded s_def, folded e_def] refl]) auto
  have x: "if 0 \<le> sint pcm then 8 * s \<le> \<bar>sint pcm\<bar> \<and> \<bar>sint pcm\<bar> \<le> 8 * s + 7
      else 8 * s + 1 \<le> \<bar>sint pcm\<bar> \<and> \<bar>sint pcm\<bar> \<le> 8 * s + 8"
    by (auto simp: s_def alaw_level_def)
  have "32 * \<bar>alaw_magnitude e (alaw_step e s) - y\<bar> \<le> max 256 y" if "8 * s \<le> y" "y \<le> 8 * s + 8" for y
    using less_8 [OF seg(1)] seg(2,3) s that
    mid_error [of 2 s y] mid_error [of 4 s y] mid_error [of 8 s y] mid_error [of 16 s y]
    mid_error [of 32 s y] mid_error [of 64 s y] mid_error [of 128 s y]
    by (elim disjE) (simp_all add: alaw_magnitude_def alaw_step_def)
  from this [of "\<bar>sint pcm\<bar>"] have
    "32 * \<bar>alaw_magnitude e (alaw_step e s) - \<bar>sint pcm\<bar>\<bar> \<le> max 256 \<bar>sint pcm\<bar>"
    using x by (simp split: if_splits)
  moreover have "\<bar>sint (alaw_decode (alaw_encode pcm)) - sint pcm\<bar> = \<bar>alaw_magnitude e (alaw_step e s) - \<bar>sint pcm\<bar>\<bar>"
    unfolding d by auto
  ultimately show ?thesis by simp
qed

text \<open>C39. Companding loses little and nothing more the second time: a sample decoded from its mu-law or
  A-law byte is within 1/32 of the sample coded (of its bias-added magnitude, after clipping, for
  mu-law; or 8 units, for A-law), and coding a decoded sample gives its byte back -- mu-law's
  negative zero excepted, which becomes the positive one.\<close>

theorem companding:
  "32 * \<bar>sint (ulaw_decode (ulaw_encode pcm)) - ulaw_clip (sint pcm)\<bar> \<le> \<bar>ulaw_clip (sint pcm)\<bar> + 132 \<and>
   32 * \<bar>sint (alaw_decode (alaw_encode pcm)) - sint pcm\<bar> \<le> max 256 \<bar>sint pcm\<bar> \<and>
   ulaw_encode (ulaw_decode b) = (if b = 0x7F then 0xFF else b) \<and> alaw_encode (alaw_decode b) = b"
  using ulaw_error [of pcm] alaw_error [of pcm] ulaw_roundtrip [of b] alaw_roundtrip [of b] by simp

end
