(* ===== verification/Sip_Message.thy ===== *)
theory Sip_Message
  imports Text
begin

text \<open>
  SIP messages (\<open>src/src/sip/message.rs\<close>): the start line, the header multimap with its
  insertion order, building, printing and parsing.  The pairs a message prints are its abstract
  value, \<open>header_list\<close>: building a message is appending to and filtering that list, looking a
  header up is searching it, and parsing what was printed gives it back.
\<close>

section \<open>Messages\<close>

datatype sip_method = REGISTER | INVITE | ACK | BYE | CANCEL | OPTIONS | INFO | OtherMethod rstring

definition method_str :: "sip_method \<Rightarrow> rstring" where
  "method_str m =
     (case m of REGISTER \<Rightarrow> of_ascii ''REGISTER'' | INVITE \<Rightarrow> of_ascii ''INVITE'' | ACK \<Rightarrow> of_ascii ''ACK''
      | BYE \<Rightarrow> of_ascii ''BYE'' | CANCEL \<Rightarrow> of_ascii ''CANCEL'' | OPTIONS \<Rightarrow> of_ascii ''OPTIONS''
      | INFO \<Rightarrow> of_ascii ''INFO'' | OtherMethod s \<Rightarrow> s)"

definition method_parse :: "rstring \<Rightarrow> sip_method" where
  "method_parse s =
     (let u = to_upper s in
      if u = of_ascii ''REGISTER'' then REGISTER else if u = of_ascii ''INVITE'' then INVITE
      else if u = of_ascii ''ACK'' then ACK else if u = of_ascii ''BYE'' then BYE
      else if u = of_ascii ''CANCEL'' then CANCEL else if u = of_ascii ''OPTIONS'' then OPTIONS
      else if u = of_ascii ''INFO'' then INFO else OtherMethod s)"

datatype start_line = Request sip_method rstring | Status u16 rstring

record sip_message =
  si_start :: start_line
  si_map :: "(rstring, rstring list) fmap"
  si_order :: "rstring list"
  si_body :: bytes

definition new_request :: "sip_method \<Rightarrow> rstring \<Rightarrow> sip_message" where
  "new_request m uri = \<lparr>si_start = Request m uri, si_map = fmempty, si_order = [], si_body = []\<rparr>"

definition new_response :: "u16 \<Rightarrow> rstring \<Rightarrow> sip_message" where
  "new_response code reason = \<lparr>si_start = Status code reason, si_map = fmempty, si_order = [], si_body = []\<rparr>"

definition is_request :: "sip_message \<Rightarrow> bool" where
  "is_request m = (case si_start m of Request _ _ \<Rightarrow> True | Status _ _ \<Rightarrow> False)"

definition sip_method_of :: "sip_message \<Rightarrow> sip_method option" where
  "sip_method_of m = (case si_start m of Request x _ \<Rightarrow> Some x | Status _ _ \<Rightarrow> None)"

definition status_code :: "sip_message \<Rightarrow> u16 option" where
  "status_code m = (case si_start m of Status c _ \<Rightarrow> Some c | Request _ _ \<Rightarrow> None)"

text \<open>The values filed under a (lowercased) name.\<close>

definition filed :: "(rstring, rstring list) fmap \<Rightarrow> rstring \<Rightarrow> rstring list" where
  "filed m k = (case fmlookup m k of Some vs \<Rightarrow> vs | None \<Rightarrow> [])"

definition push_header :: "rstring \<Rightarrow> rstring \<Rightarrow> sip_message \<Rightarrow> sip_message" where
  "push_header name v m =
     (let key = to_lower name
      in m\<lparr>si_order := si_order m @ [key], si_map := fmupd key (filed (si_map m) key @ [v]) (si_map m)\<rparr>)"

definition set_header :: "rstring \<Rightarrow> rstring \<Rightarrow> sip_message \<Rightarrow> sip_message" where
  "set_header name v m =
     (let key = to_lower name;
          kept = (if fmlookup (si_map m) key = None then si_order m else filter (\<lambda>k. k \<noteq> key) (si_order m))
      in m\<lparr>si_order := kept @ [key], si_map := fmupd key [v] (si_map m)\<rparr>)"

definition sip_header :: "rstring \<Rightarrow> sip_message \<Rightarrow> rstring option" where
  "sip_header name m =
     (case fmlookup (si_map m) (to_lower name) of None \<Rightarrow> None
      | Some vs \<Rightarrow> (case vs of [] \<Rightarrow> None | v # _ \<Rightarrow> Some v))"

definition sip_headers :: "rstring \<Rightarrow> sip_message \<Rightarrow> rstring list" where
  "sip_headers name m = filed (si_map m) (to_lower name)"

section \<open>Typed accessors\<close>

definition top_via :: "sip_message \<Rightarrow> rstring option" where
  "top_via m = sip_header (of_ascii ''via'') m"

definition call_id_of :: "sip_message \<Rightarrow> rstring option" where
  "call_id_of m = sip_header (of_ascii ''call-id'') m"

definition cseq :: "sip_message \<Rightarrow> (u32 \<times> rstring) option" where
  "cseq m =
     do {
       raw \<leftarrow> sip_header (of_ascii ''cseq'') m;
       (case split_whitespace raw of
          [] \<Rightarrow> None
        | w # rest \<Rightarrow> do {
            num \<leftarrow> parse_uint (2 ^ 32) w;
            Some (of_nat num, case rest of x # _ \<Rightarrow> x | [] \<Rightarrow> [])
          })
     }"

text \<open>The first parameter that starts with \<open>name=\<close>.\<close>

fun param_after :: "rstring \<Rightarrow> rstring list \<Rightarrow> rstring option" where
  "param_after name [] = None"
| "param_after name (part # parts) =
     (case strip_prefix name (trim part) of Some rest \<Rightarrow> Some (trim rest) | None \<Rightarrow> param_after name parts)"

definition parse_tag :: "rstring \<Rightarrow> rstring option" where
  "parse_tag h = param_after (of_ascii ''tag='') (split_on (ch CHR '';'') h)"

definition from_tag :: "sip_message \<Rightarrow> rstring option" where
  "from_tag m = Option.bind (sip_header (of_ascii ''from'') m) parse_tag"

definition to_tag :: "sip_message \<Rightarrow> rstring option" where
  "to_tag m = Option.bind (sip_header (of_ascii ''to'') m) parse_tag"

definition sip_expires :: "sip_message \<Rightarrow> u64 option" where
  "sip_expires m =
     (case Option.bind (sip_header (of_ascii ''expires'') m) (\<lambda>s. parse_uint (2 ^ 64) (trim s)) of
        Some v \<Rightarrow> Some (of_nat v)
      | None \<Rightarrow> do {
          contact \<leftarrow> sip_header (of_ascii ''contact'') m;
          rest \<leftarrow> param_after (of_ascii ''expires='') (split_on (ch CHR '';'') contact);
          map_option of_nat (parse_uint (2 ^ 64) rest)
        })"

definition extract_uri :: "rstring \<Rightarrow> rstring" where
  "extract_uri h =
     (let plain = trim (hd (split_on (ch CHR '';'') h)) in
      case (position (\<lambda>c. c = ch CHR ''<'') h, position (\<lambda>c. c = ch CHR ''>'') h) of
        (Some a, Some b) \<Rightarrow> if a < b then take (b - (a + 1)) (drop (a + 1) h) else plain
      | _ \<Rightarrow> plain)"

definition strip_scheme :: "rstring \<Rightarrow> rstring" where
  "strip_scheme uri = trim_start_matches (of_ascii ''sips:'') (trim_start_matches (of_ascii ''sip:'') uri)"

definition uri_user :: "rstring \<Rightarrow> rstring option" where
  "uri_user uri = map_option fst (split_once (ch CHR ''@'') (strip_scheme uri))"

definition uri_host :: "rstring \<Rightarrow> rstring option" where
  "uri_host uri =
     (let s = strip_scheme uri;
          hostport = (case split_once (ch CHR ''@'') s of Some (_, rest) \<Rightarrow> rest | None \<Rightarrow> s);
          h = takeWhile (\<lambda>c. c \<noteq> ch CHR '';'' \<and> c \<noteq> ch CHR ''?'') hostport
      in if h = [] then None else Some h)"

section \<open>Printing\<close>

definition crlf :: rstring where
  "crlf = [CR, LF]"

definition title :: "rstring \<Rightarrow> rstring" where
  "title t = (case t of [] \<Rightarrow> [] | c # cs \<Rightarrow> ascii_upper c # cs)"

fun join :: "rstring \<Rightarrow> rstring list \<Rightarrow> rstring" where
  "join sep [] = []"
| "join sep [x] = x"
| "join sep (x # xs) = x @ sep @ join sep xs"

definition canonical_header_name :: "rstring \<Rightarrow> rstring" where
  "canonical_header_name lower =
     (if lower = of_ascii ''call-id'' then of_ascii ''Call-ID''
      else if lower = of_ascii ''cseq'' then of_ascii ''CSeq''
      else if lower = of_ascii ''www-authenticate'' then of_ascii ''WWW-Authenticate''
      else if lower = of_ascii ''content-length'' then of_ascii ''Content-Length''
      else if lower = of_ascii ''content-type'' then of_ascii ''Content-Type''
      else if lower = of_ascii ''max-forwards'' then of_ascii ''Max-Forwards''
      else if lower = of_ascii ''user-agent'' then of_ascii ''User-Agent''
      else if lower = of_ascii ''record-route'' then of_ascii ''Record-Route''
      else join [ch CHR ''-''] (map title (split_on (ch CHR ''-'') lower)))"

definition print_start :: "start_line \<Rightarrow> rstring" where
  "print_start s =
     (case s of
        Request m uri \<Rightarrow> method_str m @ [SP] @ uri @ of_ascii '' SIP/2.0'' @ crlf
      | Status code reason \<Rightarrow> of_ascii ''SIP/2.0 '' @ decimal (unat code) @ [SP] @ reason @ crlf)"

definition print_header :: "rstring \<times> rstring \<Rightarrow> rstring" where
  "print_header h = canonical_header_name (fst h) @ of_ascii '': '' @ snd h @ crlf"

text \<open>The pairs printed, in the order of \<open>order\<close>: \<open>cursor\<close> counts the values used per name.\<close>

fun emitted ::
  "(rstring, rstring list) fmap \<Rightarrow> (rstring, nat) fmap \<Rightarrow> rstring list \<Rightarrow> (rstring \<times> rstring) list" where
  "emitted m cursor [] = []"
| "emitted m cursor (key # keys) =
     (let idx = (case fmlookup cursor key of Some i \<Rightarrow> i | None \<Rightarrow> 0);
          rest = emitted m (fmupd key (idx + 1) cursor) keys
      in case fmlookup m key of
           None \<Rightarrow> rest
         | Some vs \<Rightarrow> if idx < length vs then (key, vs ! idx) # rest else rest)"

definition header_list :: "sip_message \<Rightarrow> (rstring \<times> rstring) list" where
  "header_list m = emitted (si_map m) fmempty (si_order m)"

definition to_bytes :: "sip_message \<Rightarrow> bytes" where
  "to_bytes m =
     (let hs = header_list m;
          emitted_cl = (\<exists>h \<in> set hs. fst h = of_ascii ''content-length'')
      in as_bytes (print_start (si_start m) @ concat (map print_header hs) @
           (if emitted_cl then [] else of_ascii ''Content-Length: '' @ decimal (length (si_body m)) @ crlf) @ crlf)
         @ si_body m)"

section \<open>Parsing\<close>

definition split_head_body :: "rstring \<Rightarrow> rstring \<times> rstring" where
  "split_head_body text =
     (case find_sub (crlf @ crlf) text of
        Some i \<Rightarrow> (take i text, drop (i + 4) text)
      | None \<Rightarrow> (case find_sub [LF, LF] text of
                  Some i \<Rightarrow> (take i text, drop (i + 2) text)
                | None \<Rightarrow> (text, [])))"

definition parse_start_line :: "rstring \<Rightarrow> start_line option" where
  "parse_start_line line =
     (case strip_prefix (of_ascii ''SIP/2.0 '') line of
        Some rest \<Rightarrow>
          let (w, reason) = (case split_once SP rest of Some p \<Rightarrow> p | None \<Rightarrow> (rest, []))
          in map_option (\<lambda>code. Status (of_nat code) reason) (parse_uint (2 ^ 16) w)
      | None \<Rightarrow>
          (case split_whitespace line of
             m # uri # ws \<Rightarrow>
               if starts_with (of_ascii ''SIP/'') (case ws of v # _ \<Rightarrow> v | [] \<Rightarrow> [])
               then Some (Request (method_parse m) uri) else None
           | _ \<Rightarrow> None))"

text \<open>The scan of \<open>split_commas_outside_quotes\<close>: nesting depth, inside quotes, the current part.\<close>

fun commas_from :: "int \<Rightarrow> bool \<Rightarrow> rstring \<Rightarrow> rstring \<Rightarrow> rstring list" where
  "commas_from depth q cur [] = (if trim cur = [] then [] else [cur])"
| "commas_from depth q cur (c # cs) =
     (if c = ch CHR 0x22 then commas_from depth (\<not> q) (cur @ [c]) cs
      else if c = ch CHR ''<'' \<and> \<not> q then commas_from (depth + 1) q (cur @ [c]) cs
      else if c = ch CHR ''>'' \<and> \<not> q then commas_from (depth - 1) q (cur @ [c]) cs
      else if c = ch CHR '','' \<and> \<not> q \<and> depth = 0 then cur # commas_from depth q [] cs
      else commas_from depth q (cur @ [c]) cs)"

definition split_commas_outside_quotes :: "rstring \<Rightarrow> rstring list" where
  "split_commas_outside_quotes s = commas_from 0 False [] s"

definition expand_name :: "rstring \<Rightarrow> rstring" where
  "expand_name lower =
     (if lower = of_ascii ''v'' then of_ascii ''via'' else if lower = of_ascii ''f'' then of_ascii ''from''
      else if lower = of_ascii ''t'' then of_ascii ''to'' else if lower = of_ascii ''i'' then of_ascii ''call-id''
      else if lower = of_ascii ''m'' then of_ascii ''contact''
      else if lower = of_ascii ''c'' then of_ascii ''content-type''
      else if lower = of_ascii ''l'' then of_ascii ''content-length''
      else if lower = of_ascii ''s'' then of_ascii ''subject''
      else if lower = of_ascii ''k'' then of_ascii ''supported'' else lower)"

definition is_list_header :: "rstring \<Rightarrow> bool" where
  "is_list_header name \<longleftrightarrow> name \<in> {of_ascii ''via'', of_ascii ''route'', of_ascii ''record-route''}"

definition push_folded :: "rstring \<Rightarrow> rstring \<Rightarrow> sip_message \<Rightarrow> sip_message" where
  "push_folded name v m =
     (let expanded = expand_name (to_lower name) in
      if is_list_header expanded
      then fold (\<lambda>part. push_header expanded (trim part)) (split_commas_outside_quotes v) m
      else push_header expanded v m)"

definition push_current :: "(rstring \<times> rstring) option \<Rightarrow> sip_message \<Rightarrow> sip_message" where
  "push_current cur m = (case cur of Some (name, v) \<Rightarrow> push_folded name v m | None \<Rightarrow> m)"

text \<open>One header line: a continuation, or the end of the header before it and maybe a new one.\<close>

definition header_line ::
  "rstring \<Rightarrow> (rstring \<times> rstring) option \<times> sip_message \<Rightarrow> (rstring \<times> rstring) option \<times> sip_message" where
  "header_line line s =
     (case s of (cur, m) \<Rightarrow>
        if line = [] then s
        else if hd line = SP \<or> hd line = 9
        then (map_option (\<lambda>(name, v). (name, v @ [SP] @ trim line)) cur, m)
        else (map_option (\<lambda>(name, v). (trim name, trim v)) (split_once (ch CHR '':'') line), push_current cur m))"

definition parse_headers :: "rstring list \<Rightarrow> sip_message \<Rightarrow> sip_message" where
  "parse_headers ls m = (case fold header_line ls (None, m) of (cur, m1) \<Rightarrow> push_current cur m1)"

definition clip_body :: "sip_message \<Rightarrow> sip_message" where
  "clip_body m =
     (case Option.bind (sip_header (of_ascii ''content-length'') m) (\<lambda>s. parse_uint (2 ^ 64) (trim s)) of
        Some cl \<Rightarrow> if cl < length (si_body m) then m\<lparr>si_body := take cl (si_body m)\<rparr> else m
      | None \<Rightarrow> m)"

definition sip_parse :: "bytes \<Rightarrow> sip_message option" where
  "sip_parse data =
     (let (head, body) = split_head_body (from_utf8_lossy data);
          ls = concat (map (split_on LF) (split_crlf head))
      in do {
           start \<leftarrow> parse_start_line (trim_end (hd ls));
           Some (clip_body (parse_headers (tl ls)
             \<lparr>si_start = start, si_map = fmempty, si_order = [], si_body = as_bytes body\<rparr>))
         })"

end
