(* ===== verification/Sip_Headers.thy ===== *)
theory Sip_Headers
  imports Sip_Message
begin

text \<open>
  The header multimap of a SIP message refines the list of its pairs: \<open>header_list\<close> is what is
  printed, \<open>push_header\<close> appends to it, \<open>set_header\<close> replaces in it and the look-ups search
  it.  The insertion order and the map are kept consistent by every operation (\<open>ordered\<close>).
\<close>

section \<open>The order and the map agree\<close>

definition ordered :: "sip_message \<Rightarrow> bool" where
  "ordered m \<longleftrightarrow> (\<forall>k. length (filed (si_map m) k) = count_list (si_order m) k)
     \<and> (\<forall>k. fmlookup (si_map m) k \<noteq> Some [])"

abbreviation values_of :: "(rstring \<times> rstring) list \<Rightarrow> rstring \<Rightarrow> rstring list" where
  "values_of hs k \<equiv> map snd (filter (\<lambda>h. fst h = k) hs)"

lemma values_of_unique:
  "map fst xs = map fst ys \<Longrightarrow> (\<And>k. values_of xs k = values_of ys k) \<Longrightarrow> xs = ys"
proof (induction xs arbitrary: ys)
  case (Cons x xs)
  then obtain y ys' where ys: "ys = y # ys'" "fst x = fst y" by (cases ys) auto
  have "snd x = snd y" using Cons.prems(2) [of "fst x"] ys by simp
  then have "x = y" using ys(2) by (simp add: prod_eq_iff)
  moreover have "values_of xs k = values_of ys' k" for k
    using Cons.prems(2) [of k] \<open>x = y\<close> by (simp add: ys(1) split: if_splits)
  ultimately show ?case using Cons.IH [of ys'] Cons.prems(1) ys by simp
qed simp

abbreviation used :: "(rstring, nat) fmap \<Rightarrow> rstring \<Rightarrow> nat" where
  "used cursor k \<equiv> (case fmlookup cursor k of Some i \<Rightarrow> i | None \<Rightarrow> 0)"

lemma emitted_spec:
  assumes "\<And>k. used cursor k + count_list keys k \<le> length (filed m k)"
  shows "map fst (emitted m cursor keys) = keys \<and>
    values_of (emitted m cursor keys) k = take (count_list keys k) (drop (used cursor k) (filed m k))"
  using assms
proof (induction keys arbitrary: cursor)
  case (Cons key keys)
  let ?i = "used cursor key"
  have i: "?i < length (filed m key)" using Cons.prems [of key] by simp
  then obtain vs where vs: "fmlookup m key = Some vs" "filed m key = vs" by (auto simp: filed_def split: option.splits)
  have "used (fmupd key (?i + 1) cursor) k + count_list keys k \<le> length (filed m k)" for k
    using Cons.prems [of k] by (cases "k = key") auto
  note IH = Cons.IH [OF this]
  have e: "emitted m cursor (key # keys) = (key, vs ! ?i) # emitted m (fmupd key (?i + 1) cursor) keys"
    using vs i by (simp add: Let_def)
  have "take (Suc n) (drop ?i vs) = vs ! ?i # take n (drop (Suc ?i) vs)" for n
    using i vs(2) by (simp add: Cons_nth_drop_Suc [symmetric])
  then show ?case unfolding e using IH vs(2) by (cases "k = key") simp_all
qed simp

lemma header_list_spec:
  assumes "ordered m"
  shows "map fst (header_list m) = si_order m" "values_of (header_list m) k = filed (si_map m) k"
  using emitted_spec [of fmempty "si_order m" "si_map m" k] assms by (simp_all add: header_list_def ordered_def)

lemma header_list_eqI:
  "ordered m \<Longrightarrow> map fst hs = si_order m \<Longrightarrow> (\<And>k. values_of hs k = filed (si_map m) k) \<Longrightarrow> header_list m = hs"
  using header_list_spec by (intro values_of_unique) simp_all

section \<open>The operations on the list of pairs\<close>

lemma ordered_new [simp]: "ordered (new_request x u)" "ordered (new_response c r)"
  "ordered \<lparr>si_start = s, si_map = fmempty, si_order = [], si_body = b\<rparr>"
  by (simp_all add: ordered_def filed_def new_request_def new_response_def)

lemma header_list_empty [simp]: "header_list \<lparr>si_start = s, si_map = fmempty, si_order = [], si_body = b\<rparr> = []"
  by (simp add: header_list_def)

lemma filed_fmupd [simp]: "filed (fmupd k vs m) k' = (if k = k' then vs else filed m k')"
  by (simp add: filed_def)

lemma ordered_push: "ordered m \<Longrightarrow> ordered (push_header n v m)"
  by (auto simp: ordered_def push_header_def Let_def)

lemma header_list_push:
  assumes "ordered m"
  shows "header_list (push_header n v m) = header_list m @ [(to_lower n, v)]"
  using header_list_spec [OF assms] by (intro header_list_eqI ordered_push assms) (auto simp: push_header_def Let_def)

lemma count_list_filter_neq: "count_list (filter (\<lambda>x. x \<noteq> k) xs) k' = (if k = k' then 0 else count_list xs k')"
  by (induction xs) auto

lemma order_without:
  "ordered m \<Longrightarrow> fmlookup (si_map m) k = None \<Longrightarrow>
    filter (\<lambda>x. x \<noteq> k) (si_order m) = si_order m \<and> count_list (si_order m) k = 0"
  by (auto simp: ordered_def filed_def filter_id_conv count_list_0_iff split: option.splits
      dest!: spec [of _ k])

lemma ordered_set: "ordered m \<Longrightarrow> ordered (set_header n v m)"
  using order_without [of m "to_lower n"]
  by (auto simp: ordered_def set_header_def Let_def count_list_filter_neq)

lemma header_list_set:
  assumes "ordered m"
  shows "header_list (set_header n v m) = filter (\<lambda>h. fst h \<noteq> to_lower n) (header_list m) @ [(to_lower n, v)]"
proof (intro header_list_eqI ordered_set assms)
  note s = header_list_spec [OF assms]
  have "map fst (filter (\<lambda>h. fst h \<noteq> to_lower n) (header_list m)) = filter (\<lambda>k. k \<noteq> to_lower n) (si_order m)"
    unfolding s(1) [symmetric] by (simp add: filter_map comp_def)
  then show "map fst (filter (\<lambda>h. fst h \<noteq> to_lower n) (header_list m) @ [(to_lower n, v)]) = si_order (set_header n v m)"
    using order_without [OF assms] by (simp add: set_header_def Let_def)
  show "values_of (filter (\<lambda>h. fst h \<noteq> to_lower n) (header_list m) @ [(to_lower n, v)]) k =
      filed (si_map (set_header n v m)) k" for k
  proof (cases "k = to_lower n")
    case False
    then have "filter (\<lambda>h. fst h \<noteq> to_lower n \<and> fst h = k) (header_list m) = filter (\<lambda>h. fst h = k) (header_list m)"
      by (intro filter_cong) auto
    then show ?thesis using s(2) [of k] False by (simp add: set_header_def Let_def)
  qed (auto simp: set_header_def Let_def)
qed

lemma sip_headers_list: "ordered m \<Longrightarrow> sip_headers n m = values_of (header_list m) (to_lower n)"
  by (simp add: sip_headers_def header_list_spec)

lemma sip_header_list:
  assumes "ordered m"
  shows "sip_header n m = map_option snd (find (\<lambda>h. fst h = to_lower n) (header_list m))"
proof -
  have "map_option snd (find (\<lambda>h. fst h = k) hs) = (case values_of hs k of [] \<Rightarrow> None | v # _ \<Rightarrow> Some v)" for hs and k :: rstring
    by (induction hs) auto
  then show ?thesis
    using assms by (auto simp: sip_header_def header_list_spec filed_def split: option.splits)
qed

text \<open>A message is its start line, its pairs and its body.\<close>

lemma message_eqI:
  assumes "ordered m" "ordered m'" "header_list m = header_list m'" "si_start m = si_start m'" "si_body m = si_body m'"
  shows "m = (m' :: sip_message)"
proof -
  have "filed (si_map m) k = filed (si_map m') k" for k
    using assms(3) header_list_spec(2) [OF assms(1), of k] header_list_spec(2) [OF assms(2), of k] by simp
  then have "fmlookup (si_map m) k = fmlookup (si_map m') k" for k
    using assms(1,2) unfolding ordered_def filed_def by (metis (no_types, lifting) option.case_eq_if option.collapse)
  then have "si_map m = si_map m'" by (intro fmap_ext) simp
  moreover have "si_order m = si_order m'" using assms(3) header_list_spec(1) [OF assms(1)] header_list_spec(1) [OF assms(2)] by simp
  ultimately show ?thesis using assms(4,5) by simp
qed

abbreviation push_all :: "(rstring \<times> rstring) list \<Rightarrow> sip_message \<Rightarrow> sip_message" where
  "push_all \<equiv> fold (\<lambda>h. push_header (fst h) (snd h))"

lemma push_all_parts:
  "si_start (push_all hs m) = si_start m" "si_body (push_all hs m) = si_body m"
  "ordered m \<Longrightarrow> ordered (push_all hs m)"
  by (induction hs arbitrary: m) (simp_all add: ordered_push, simp_all add: push_header_def Let_def)

lemma header_list_push_all:
  "ordered m \<Longrightarrow> (\<forall>h \<in> set hs. to_lower (fst h) = fst h) \<Longrightarrow> header_list (push_all hs m) = header_list m @ hs"
  by (induction hs arbitrary: m) (simp_all add: ordered_push header_list_push)

end
