(* ===== verification/Sip_Roundtrip.thy ===== *)
theory Sip_Roundtrip
  imports Sip_Headers
begin

text \<open>
  What the server prints, it parses: a message with an ordinary start line and ordinary headers is
  the same message after \<open>to_bytes\<close> and \<open>parse\<close>, with a Content-Length added when it had
  none.
\<close>

section \<open>Messages that can be sent\<close>

definition one_line :: "rstring \<Rightarrow> bool" where
  "one_line s \<longleftrightarrow> CR \<notin> set s \<and> LF \<notin> set s"

definition sendable_start :: "start_line \<Rightarrow> bool" where
  "sendable_start s =
     (case s of
        Request m uri \<Rightarrow> method_parse (method_str m) = m \<and> is_word (method_str m) \<and> is_word uri
          \<and> method_str m \<noteq> of_ascii ''SIP/2.0''
      | Status code reason \<Rightarrow> trim_end reason = reason \<and> one_line reason)"

definition sendable_header :: "rstring \<times> rstring \<Rightarrow> bool" where
  "sendable_header h =
     (case h of (k, v) \<Rightarrow>
        to_lower k = k \<and> is_word k \<and> ch CHR '':'' \<notin> set k \<and> expand_name k = k \<and> trim v = v \<and> one_line v
        \<and> (is_list_header k \<longrightarrow> split_commas_outside_quotes v = [v]))"

definition start_text :: "start_line \<Rightarrow> rstring" where
  "start_text s =
     (case s of
        Request m uri \<Rightarrow> method_str m @ [SP] @ uri @ of_ascii '' SIP/2.0''
      | Status code reason \<Rightarrow> of_ascii ''SIP/2.0 '' @ decimal (unat code) @ [SP] @ reason)"

definition header_text :: "rstring \<times> rstring \<Rightarrow> rstring" where
  "header_text h = canonical_header_name (fst h) @ of_ascii '': '' @ snd h"

lemma print_lines: "print_start s = start_text s @ crlf" "print_header h = header_text h @ crlf"
  by (simp_all add: print_start_def start_text_def print_header_def header_text_def split: start_line.split)

lemmas ascii = of_ascii_def

section \<open>Header names\<close>

lemma ascii_lower_upper [simp]: "ascii_lower (ascii_upper c) = ascii_lower c"
  by (auto simp: ascii_lower_def ascii_upper_def)

lemma lower_join: "to_lower (join sep xs) = join (to_lower sep) (map to_lower xs)"
  by (induction sep xs rule: join.induct) simp_all

lemma lower_title [simp]: "to_lower (title t) = to_lower t"
  by (simp add: title_def split: list.split)

lemma join_split [simp]: "join [c] (split_on c s) = s"
proof (induction s)
  case (Cons x s)
  obtain y ys where "split_on c s = y # ys" by (cases "split_on c s") simp_all
  with Cons show ?case by (cases ys) simp_all
qed simp

lemma ascii_lower_dash [simp]: "ascii_lower c = 45 \<longleftrightarrow> c = 45"
  by (auto simp: ascii_lower_def)

lemma lower_split: "map to_lower (split_on 45 s) = split_on 45 (to_lower s)"
  by (induction s) (auto split: list.splits)

lemma lower_canonical: "to_lower (canonical_header_name k) = to_lower k"
proof -
  have "to_lower (join [45] (map title (split_on 45 k))) = join [45] (map to_lower (split_on 45 k))"
    by (simp add: lower_join comp_def ascii_lower_def)
  also have "\<dots> = to_lower k" by (simp only: lower_split join_split)
  finally show ?thesis
    by (simp add: canonical_header_name_def ascii) (simp add: ascii_lower_def)
qed

lemma ascii_lower_keeps:
  "is_rust_whitespace (ascii_lower c) = is_rust_whitespace c" "ascii_lower c = 58 \<longleftrightarrow> c = 58"
  by (auto simp: ascii_lower_def is_rust_whitespace_def)

lemma canonical_name:
  assumes "is_word k" "to_lower k = k" "58 \<notin> set k"
  shows "is_word (canonical_header_name k)" "58 \<notin> set (canonical_header_name k)"
proof -
  let ?n = "canonical_header_name k"
  have low: "to_lower ?n = k" using lower_canonical assms(2) by simp
  have "list_all (\<lambda>c. \<not> is_rust_whitespace (ascii_lower c)) ?n"
    using assms(1) unfolding is_word_def by (subst (asm) (2) low [symmetric]) (simp add: list_all_iff)
  moreover have "?n \<noteq> []" using assms(1) low by (auto simp: is_word_def)
  ultimately show "is_word ?n" by (simp add: is_word_def ascii_lower_keeps)
  have "58 \<notin> ascii_lower ` set ?n" using assms(3) low by (metis list.set_map)
  then show "58 \<notin> set ?n" by (metis ascii_lower_keeps(2) imageI)
qed

section \<open>Lines\<close>

lemma trim_space: "trim (32 # v) = trim v"
  by (simp add: trim_def)

lemma header_line_text:
  assumes "sendable_header h"
  shows "header_line (header_text h) (cur, m) = (Some (canonical_header_name (fst h), snd h), push_current cur m)"
proof -
  obtain k v where h: "h = (k, v)" by fastforce
  let ?n = "canonical_header_name k"
  have n: "is_word ?n" "58 \<notin> set ?n" using canonical_name [of k] assms by (simp_all add: h sendable_header_def)
  then obtain c cs where c: "?n = c # cs" "\<not> is_rust_whitespace c" by (cases ?n) (auto simp: is_word_def)
  then have "c \<noteq> 32" "c \<noteq> 9" by auto
  moreover have "split_once 58 (?n @ 58 # 32 # v) = Some (?n, 32 # v)" using n(2) by (rule split_once_append)
  moreover have "trim (32 # v) = v" using assms by (simp add: h sendable_header_def trim_space)
  ultimately show ?thesis using c n(1) by (simp add: header_line_def header_text_def h ascii)
qed

lemma push_folded_sendable:
  "sendable_header h \<Longrightarrow> push_folded (canonical_header_name (fst h)) (snd h) m = push_header (fst h) (snd h) m"
  by (auto simp: sendable_header_def push_folded_def Let_def lower_canonical split: prod.splits)

lemma parse_headers_text:
  assumes "\<forall>h \<in> set hs. sendable_header h"
  shows "parse_headers (map header_text hs) m = push_all hs m"
proof -
  have "(case fold header_line (map header_text hs) (cur, m) of (cur', m') \<Rightarrow> push_current cur' m') =
      push_all hs (push_current cur m)" for cur
    using assms
    by (induction hs arbitrary: cur m) (simp_all add: header_line_text push_folded_sendable push_current_def)
  from this [of None] show ?thesis by (simp add: parse_headers_def push_current_def)
qed

lemma parse_start_text:
  assumes "sendable_start s"
  shows "parse_start_line (trim_end (start_text s)) = Some s"
proof (cases s)
  case (Request m uri)
  let ?m = "method_str m"
  have m: "is_word ?m" "is_word uri" "?m \<noteq> of_ascii ''SIP/2.0''" "method_parse ?m = m"
    using assms by (simp_all add: Request sendable_start_def)
  have shape: "start_text s = ?m @ 32 # uri @ 32 # of_ascii ''SIP/2.0''" by (simp add: Request start_text_def ascii)
  have "is_word (of_ascii ''SIP/2.0'')" by (simp add: is_word_def ascii is_rust_whitespace_def)
  then have ws: "split_whitespace (start_text s) = [?m, uri, of_ascii ''SIP/2.0'']"
    unfolding shape using m(1,2) by (simp add: split_whitespace_Cons split_whitespace_word)
  have "strip_prefix (of_ascii ''SIP/2.0 '') (start_text s) = None"
  proof (rule ccontr)
    assume "strip_prefix (of_ascii ''SIP/2.0 '') (start_text s) \<noteq> None"
    then obtain t where "start_text s = of_ascii ''SIP/2.0'' @ 32 # t"
      by (auto simp: strip_prefix_def ascii split: if_splits) (metis append_Cons append_Nil append_take_drop_id)
    with \<open>is_word (of_ascii ''SIP/2.0'')\<close> have "hd (split_whitespace (start_text s)) = of_ascii ''SIP/2.0''"
      by (simp add: split_whitespace_Cons)
    with ws m(3) show False by simp
  qed
  moreover have "trim_end (start_text s) = start_text s"
    by (simp add: shape trim_end_def ascii is_rust_whitespace_def)
  ultimately show ?thesis using ws m(4) by (simp add: parse_start_line_def Request starts_with_def strip_prefix_def ascii)
next
  case (Status code reason)
  have r: "trim_end reason = reason" using assms by (simp add: Status sendable_start_def)
  have d: "32 \<notin> set (decimal (unat code))" "\<not> is_rust_whitespace (last (decimal (unat code)))"
    using decimal_word [of "unat code"] by (auto simp: is_word_def list_all_iff)
  have "unat code < 2 ^ LENGTH(16)" by (rule unsigned_less)
  then have code: "parse_uint (2 ^ 16) (decimal (unat code)) = Some (unat code)" by simp
  show ?thesis
  proof (cases "reason = []")
    case True
    have "trim_end (start_text s) = of_ascii ''SIP/2.0 '' @ decimal (unat code)"
      using d(2) by (simp add: Status True start_text_def trim_end_def) (cases "rev (decimal (unat code))", auto simp: last_rev hd_rev)
    moreover have "split_once 32 (decimal (unat code)) = None" using d(1) by (auto simp: split_once_def intro!: position_none)
    ultimately show ?thesis using code by (simp add: parse_start_line_def Status True)
  next
    case False
    have "dropWhile is_rust_whitespace (rev reason) = rev reason" using r by (simp add: trim_end_def rev_swap)
    with False have "\<not> is_rust_whitespace (hd (rev reason))"
      using hd_dropWhile [of is_rust_whitespace "rev reason"] by simp
    with False have "dropWhile is_rust_whitespace (rev reason @ xs) = rev reason @ xs" for xs
      by (cases "rev reason") simp_all
    then have "trim_end (start_text s) = of_ascii ''SIP/2.0 '' @ decimal (unat code) @ 32 # reason"
      by (simp add: Status start_text_def trim_end_def)
    then show ?thesis using code split_once_append [OF d(1)] by (simp add: parse_start_line_def Status)
  qed
qed

section \<open>The whole text\<close>

lemma find_sub_skip: "CR \<notin> set l \<Longrightarrow> find_sub (CR # p) (l @ s) = map_option ((+) (length l)) (find_sub (CR # p) s)"
  by (induction l) (auto simp: starts_with_def strip_prefix_def option.map_comp comp_def option.map_ident cong: map_option_cong)

lemma find_sub_here: "find_sub p (p @ s) = Some 0"
proof (cases "p @ s")
  case (Cons c cs)
  then have "strip_prefix p (c # cs) = Some s" by (metis strip_prefix_append)
  then show ?thesis by (simp add: Cons starts_with_def)
qed simp

text \<open>The lines of a text, each ended by CRLF, then an empty line.\<close>

abbreviation ended :: "rstring list \<Rightarrow> rstring" where
  "ended ls \<equiv> concat (map (\<lambda>l. l @ crlf) ls)"

lemma find_end:
  assumes "ls \<noteq> []" "\<forall>l \<in> set ls. l \<noteq> [] \<and> one_line l"
  shows "find_sub (crlf @ crlf) (ended ls @ crlf @ s) = Some (length (ended ls) - 2)"
  using assms
proof (induction ls)
  case (Cons l ls)
  then have l: "CR \<notin> set l" "l \<noteq> []" by (simp_all add: one_line_def)
  let ?p = "crlf @ crlf"
  have p: "?p = CR # [LF, CR, LF]" by (simp add: crlf_def)
  have skip: "find_sub ?p (l @ t) = map_option ((+) (length l)) (find_sub ?p t)" for t
    unfolding p using l(1) by (rule find_sub_skip)
  show ?case
  proof (cases ls)
    case Nil
    have "find_sub ?p (crlf @ crlf @ s) = Some 0" using find_sub_here [of ?p s] by simp
    then show ?thesis using skip [of "crlf @ crlf @ s"] by (simp add: Nil crlf_def)
  next
    case (Cons l' ls')
    let ?rest = "ended ls @ crlf @ s"
    obtain c cs where c: "?rest = c # cs" "c \<noteq> CR"
      using Cons.prems(2) by (cases l') (auto simp: Cons one_line_def)
    have "find_sub ?p (crlf @ ?rest) = map_option (\<lambda>i. i + 2) (find_sub ?p ?rest)"
      unfolding c(1) using c(2) by (simp add: crlf_def starts_with_def strip_prefix_def option.map_comp comp_def)
    moreover have "find_sub ?p ?rest = Some (length (ended ls) - 2)" using Cons.IH Cons.prems(2) Cons by auto
    moreover have "2 \<le> length (ended ls)" by (simp add: Cons crlf_def)
    ultimately show ?thesis using skip [of "crlf @ ?rest"] by (simp add: crlf_def)
  qed
qed simp

lemma split_crlf_line: "one_line l \<Longrightarrow> split_crlf l = [l]"
  by (induction l rule: split_crlf.induct) (auto simp: one_line_def)

lemma split_crlf_append: "one_line l \<Longrightarrow> split_crlf (l @ crlf @ s) = l # split_crlf s"
proof (induction l)
  case (Cons x l)
  then have "split_crlf (l @ crlf @ s) = l # split_crlf s" by (simp add: one_line_def)
  moreover obtain z zs where "l @ crlf @ s = z # zs" by (cases "l @ crlf @ s") (simp_all add: crlf_def)
  ultimately show ?case using Cons.prems by (simp add: one_line_def)
qed (simp add: crlf_def)

lemma head_lines:
  assumes "ls \<noteq> []" "\<forall>l \<in> set ls. one_line l"
  shows "split_crlf (take (length (ended ls) - 2) (ended ls @ s)) = ls"
  using assms
proof (induction ls)
  case (Cons l ls)
  show ?case
  proof (cases ls)
    case Nil
    then show ?thesis using Cons.prems split_crlf_line by (simp add: crlf_def)
  next
    case (Cons l' ls')
    have two: "2 \<le> length (ended ls)" by (simp add: Cons crlf_def)
    then obtain n where "length (ended ls) = n + 2" by (metis add.commute le_Suc_ex)
    then have "take (length (ended (l # ls)) - 2) (ended (l # ls) @ s) =
        l @ crlf @ take (length (ended ls) - 2) (ended ls @ s)"
      by (simp add: crlf_def)
    moreover have "split_crlf (take (length (ended ls) - 2) (ended ls @ s)) = ls"
      by (rule Cons.IH) (use Cons.prems(2) Cons in auto)
    moreover have "one_line l" using Cons.prems(2) by simp
    ultimately show ?thesis by (simp only: split_crlf_append)
  qed
qed simp

lemma split_lf_lines: "\<forall>l \<in> set ls. one_line l \<Longrightarrow> concat (map (split_on LF) ls) = ls"
  by (induction ls) (simp_all add: one_line_def split_on_none)

lemma split_text:
  assumes "ls \<noteq> []" "\<forall>l \<in> set ls. l \<noteq> [] \<and> one_line l"
  shows "split_head_body (ended ls @ crlf @ s) = (take (length (ended ls) - 2) (ended ls @ crlf @ s), s)"
proof -
  have "2 \<le> length (ended ls)" using assms(1) by (cases ls) (simp_all add: crlf_def)
  then have "drop (length (ended ls) - 2 + 4) (ended ls @ crlf @ s) = s" by (simp add: crlf_def)
  then show ?thesis using find_end [OF assms] by (simp add: split_head_body_def)
qed


section \<open>Printing and parsing\<close>

abbreviation content_length :: rstring where
  "content_length \<equiv> of_ascii ''content-length''"

definition with_length :: "sip_message \<Rightarrow> sip_message" where
  "with_length m =
     (if sip_header content_length m = None
      then push_header content_length (decimal (length (si_body m))) m else m)"

definition sendable :: "sip_message \<Rightarrow> bool" where
  "sendable m \<longleftrightarrow> ordered m \<and> sendable_start (si_start m) \<and> (\<forall>h \<in> set (header_list m). sendable_header h)
     \<and> sip_header content_length m \<in> {None, Some (decimal (length (si_body m)))}
     \<and> list_all is_scalar (start_text (si_start m) @ concat (map header_text (header_list m)))
     \<and> (\<exists>b. si_body m = as_bytes b \<and> list_all is_scalar b)"

lemma sendable_length: "sendable_header (content_length, decimal n)"
proof -
  have "list_all is_digit (decimal n)" by (rule decimal_digits)
  then have "one_line (decimal n)" by (auto simp: one_line_def list_all_iff is_digit_def)
  moreover have "trim (decimal n) = decimal n" by (rule trim_word) simp
  ultimately show ?thesis
    by (simp add: sendable_header_def is_word_def expand_name_def is_list_header_def ascii is_rust_whitespace_def ascii_lower_def)
qed

lemma emitted_cl:
  "ordered m \<Longrightarrow> (\<exists>h \<in> set (header_list m). fst h = content_length) \<longleftrightarrow> sip_header content_length m \<noteq> None"
proof -
  assume "ordered m"
  moreover have "to_lower content_length = content_length" by (simp add: ascii ascii_lower_def)
  ultimately show ?thesis by (simp only: sip_header_list option.map_disc_iff find_None_iff) blast
qed

lemma to_bytes_lines:
  assumes "sendable m" "si_body m = as_bytes b"
  shows "to_bytes m = as_bytes (ended (start_text (si_start m) # map header_text (header_list (with_length m))) @ crlf @ b)"
proof -
  have o': "ordered m" using assms(1) by (simp add: sendable_def)
  have "header_text (content_length, decimal n) @ crlf = of_ascii ''Content-Length: '' @ decimal n @ crlf" for n
    by (simp add: header_text_def canonical_header_name_def ascii)
  moreover have "to_lower content_length = content_length" by (simp add: ascii ascii_lower_def)
  moreover have "print_header = (\<lambda>h. header_text h @ crlf)" by (simp add: print_lines fun_eq_iff)
  ultimately show ?thesis
    by (simp add: to_bytes_def Let_def emitted_cl [OF o'] with_length_def header_list_push [OF o'] print_lines
        assms(2) as_bytes_def comp_def)
qed

lemma text_line: "sendable_start s \<Longrightarrow> start_text s \<noteq> [] \<and> one_line (start_text s)"
    "sendable_header h \<Longrightarrow> header_text h \<noteq> [] \<and> one_line (header_text h)"
proof -
  have word: "is_word w \<Longrightarrow> one_line w" for w by (auto simp: is_word_def one_line_def list_all_iff)
  show "sendable_start s \<Longrightarrow> start_text s \<noteq> [] \<and> one_line (start_text s)"
    using word [of "decimal n" for n] word [of "method_str m" for m] word [of "u" for u]
    by (auto simp: sendable_start_def start_text_def one_line_def ascii split: start_line.splits)
  assume h: "sendable_header h"
  then have "one_line (canonical_header_name (fst h))"
    by (intro word canonical_name) (auto simp: sendable_header_def)
  with h show "header_text h \<noteq> [] \<and> one_line (header_text h)"
    by (auto simp: sendable_header_def header_text_def one_line_def ascii)
qed

lemma clip_body_sent:
  assumes "sip_header content_length m = Some (decimal (length (si_body m)))"
  shows "clip_body m = m"
  using assms by (auto simp: clip_body_def split: option.split dest!: parse_uint_value)


text \<open>A ringing response with two hops.\<close>

definition ringing_180 :: sip_message where
  "ringing_180 =
     push_all [(of_ascii ''via'', of_ascii ''SIP/2.0/UDP 10.0.0.1;branch=z1''),
               (of_ascii ''via'', of_ascii ''SIP/2.0/UDP 10.0.0.2;branch=z2''),
               (of_ascii ''call-id'', of_ascii ''77@pbx'')] (new_response 180 (of_ascii ''Ringing''))"

lemma ringing_180_sendable:
  "sendable ringing_180"
  "header_list ringing_180 = [(of_ascii ''via'', of_ascii ''SIP/2.0/UDP 10.0.0.1;branch=z1''),
    (of_ascii ''via'', of_ascii ''SIP/2.0/UDP 10.0.0.2;branch=z2''), (of_ascii ''call-id'', of_ascii ''77@pbx'')]"
  "si_body ringing_180 = []"
  "with_length ringing_180 = push_header content_length (decimal 0) ringing_180"
proof -
  let ?hs = "[(of_ascii ''via'', of_ascii ''SIP/2.0/UDP 10.0.0.1;branch=z1''),
               (of_ascii ''via'', of_ascii ''SIP/2.0/UDP 10.0.0.2;branch=z2''),
               (of_ascii ''call-id'', of_ascii ''77@pbx'')]"
  have hs: "header_list ringing_180 = ?hs"
    unfolding ringing_180_def
    by (subst header_list_push_all) (simp_all add: ascii ascii_lower_def, simp add: new_response_def)
  have o': "ordered ringing_180" unfolding ringing_180_def by (rule push_all_parts) simp
  have parts: "si_start ringing_180 = Status 180 (of_ascii ''Ringing'')" "si_body ringing_180 = []"
    unfolding ringing_180_def push_all_parts by (simp_all add: new_response_def)
  have "\<forall>h \<in> set ?hs. sendable_header h"
    by (simp add: sendable_header_def ascii ascii_lower_def is_word_def is_rust_whitespace_def expand_name_def trim_def
        one_line_def is_list_header_def split_commas_outside_quotes_def)
  moreover have "sendable_start (Status 180 (of_ascii ''Ringing''))"
    by (simp add: sendable_start_def ascii trim_end_def is_rust_whitespace_def one_line_def)
  moreover have "list_all is_scalar (decimal 180)"
    using decimal_digits [of 180] by (auto simp: list_all_iff is_digit_def is_scalar_def)
  then have "list_all is_scalar (start_text (Status 180 (of_ascii ''Ringing'')) @ concat (map header_text ?hs))"
    by (simp add: start_text_def header_text_def ascii canonical_header_name_def title_def ascii_upper_def is_scalar_def)
  moreover have "sip_header content_length ringing_180 = None"
    unfolding sip_header_list [OF o'] hs by (simp add: ascii ascii_lower_def)
  ultimately show "sendable ringing_180" using o' hs parts by (simp add: sendable_def exI [of _ "[]"] as_bytes_def)
  show "header_list ringing_180 = ?hs" "si_body ringing_180 = []" by (fact hs, fact parts)
  from \<open>sip_header content_length ringing_180 = None\<close>
  show "with_length ringing_180 = push_header content_length (decimal 0) ringing_180"
    by (simp add: with_length_def parts)
qed


end
