(* ===== verification/Sip_Auth.thy ===== *)
theory Sip_Auth
  imports Sip_Message
begin

text \<open>
  Digest authentication of SIP requests (\<open>src/src/sip/auth.rs\<close>): the parameter list of an
  Authorization header, the response value, the check on the server's side, the answer to a
  challenge on the client's side and the challenge itself.  MD5 (the crate \<open>md5\<close>) is the
  parameter \<open>md5\<close>, from the bytes hashed to the bytes of the digest.
\<close>

section \<open>Hexadecimal text\<close>

definition hex_char :: "nat \<Rightarrow> nat" where
  "hex_char n = (if n < 10 then 48 + n else 87 + n)"

definition hex_lower :: "bytes \<Rightarrow> rstring" where
  "hex_lower bs = concat (map (\<lambda>b. [hex_char (unat b div 16), hex_char (unat b mod 16)]) bs)"

definition md5_hex :: "(bytes \<Rightarrow> bytes) \<Rightarrow> rstring \<Rightarrow> rstring" where
  "md5_hex md5 s = hex_lower (md5 (as_bytes s))"

text \<open>\<open>{nc:08x}\<close>.\<close>

definition hex8 :: "u32 \<Rightarrow> rstring" where
  "hex8 n = hex_lower (rev (le_bytes 4 n))"

section \<open>Parameters\<close>

text \<open>The scan for commas outside quotes.\<close>

fun param_parts :: "bool \<Rightarrow> rstring \<Rightarrow> rstring \<Rightarrow> rstring list" where
  "param_parts q cur [] = (if trim cur = [] then [] else [cur])"
| "param_parts q cur (c # cs) =
     (if c = ch CHR 0x22 then param_parts (\<not> q) (cur @ [c]) cs
      else if c = ch CHR '','' \<and> \<not> q then cur # param_parts q [] cs
      else param_parts q (cur @ [c]) cs)"

definition add_param :: "rstring \<Rightarrow> (rstring, rstring) fmap \<Rightarrow> (rstring, rstring) fmap" where
  "add_param part m =
     (case split_once (ch CHR ''='') part of
        Some (k, v) \<Rightarrow> fmupd (to_lower (trim k)) (trim_char (ch CHR 0x22) (trim v)) m
      | None \<Rightarrow> m)"

definition parse_params :: "rstring \<Rightarrow> (rstring, rstring) fmap" where
  "parse_params h =
     (let s = (case strip_prefix (of_ascii ''Digest '') (trim h) of Some rest \<Rightarrow> rest | None \<Rightarrow> trim h)
      in fold add_param (param_parts False [] s) fmempty)"

section \<open>The digest\<close>

abbreviation colon :: rstring where "colon \<equiv> of_ascii '':''"

definition compute_response ::
  "(bytes \<Rightarrow> bytes) \<Rightarrow> rstring \<Rightarrow> rstring \<Rightarrow> rstring \<Rightarrow> rstring \<Rightarrow> rstring \<Rightarrow> rstring \<Rightarrow>
   rstring option \<Rightarrow> rstring option \<Rightarrow> rstring option \<Rightarrow> rstring" where
  "compute_response md5 username password realm method uri nonce qop nc cnonce =
     (let ha1 = md5_hex md5 (username @ colon @ realm @ colon @ password);
          ha2 = md5_hex md5 (method @ colon @ uri);
          plain = md5_hex md5 (ha1 @ colon @ nonce @ colon @ ha2)
      in case (qop, nc, cnonce) of
           (Some q, Some n, Some cn) \<Rightarrow>
             if contains (of_ascii ''auth'') q
             then md5_hex md5 (ha1 @ colon @ nonce @ colon @ n @ colon @ cn @ of_ascii '':auth:'' @ ha2)
             else plain
         | _ \<Rightarrow> plain)"

definition verify_authorization :: "(bytes \<Rightarrow> bytes) \<Rightarrow> rstring \<Rightarrow> rstring \<Rightarrow> rstring \<Rightarrow> rstring \<Rightarrow> bool" where
  "verify_authorization md5 auth_header password method known_nonce =
     (let p = fmlookup (parse_params auth_header) in
      case (p (of_ascii ''username''), p (of_ascii ''realm''), p (of_ascii ''uri''), p (of_ascii ''nonce''),
            p (of_ascii ''response'')) of
        (Some username, Some realm, Some uri, Some nonce, Some response) \<Rightarrow>
          nonce = known_nonce \<and>
          eq_ignore_ascii_case
            (compute_response md5 username password realm method uri nonce (p (of_ascii ''qop'')) (p (of_ascii ''nc''))
              (p (of_ascii ''cnonce''))) response
      | _ \<Rightarrow> False)"

definition or_empty :: "rstring option \<Rightarrow> rstring" where
  "or_empty v = (case v of Some s \<Rightarrow> s | None \<Rightarrow> [])"

definition build_authorization ::
  "(bytes \<Rightarrow> bytes) \<Rightarrow> (rstring, rstring) fmap \<Rightarrow> rstring \<Rightarrow> rstring \<Rightarrow> rstring \<Rightarrow> rstring \<Rightarrow> rstring \<Rightarrow> u32 \<Rightarrow> rstring" where
  "build_authorization md5 challenge username password method uri cnonce nc =
     (let realm = or_empty (fmlookup challenge (of_ascii ''realm''));
          nonce = or_empty (fmlookup challenge (of_ascii ''nonce''));
          opaque = fmlookup challenge (of_ascii ''opaque'');
          qop = fmlookup challenge (of_ascii ''qop'');
          response = compute_response md5 username password realm method uri nonce qop (Some (hex8 nc)) (Some cnonce);
          quote = [ch CHR 0x22]
      in of_ascii ''Digest username='' @ quote @ username @ quote @ of_ascii '', realm='' @ quote @ realm @ quote
         @ of_ascii '', nonce='' @ quote @ nonce @ quote @ of_ascii '', uri='' @ quote @ uri @ quote
         @ of_ascii '', response='' @ quote @ response @ quote @ of_ascii '', algorithm=MD5''
         @ (case qop of
              Some q \<Rightarrow>
                if contains (of_ascii ''auth'') q
                then of_ascii '', qop=auth, nc='' @ hex8 nc @ of_ascii '', cnonce='' @ quote @ cnonce @ quote else []
            | None \<Rightarrow> [])
         @ (case opaque of Some o' \<Rightarrow> of_ascii '', opaque='' @ quote @ o' @ quote | None \<Rightarrow> []))"

definition build_challenge :: "(bytes \<Rightarrow> bytes) \<Rightarrow> rstring \<Rightarrow> rstring \<Rightarrow> rstring" where
  "build_challenge md5 realm nonce =
     (let quote = [ch CHR 0x22]; opaque = md5_hex md5 (realm @ of_ascii '':sip'')
      in of_ascii ''Digest realm='' @ quote @ realm @ quote @ of_ascii '', nonce='' @ quote @ nonce @ quote
         @ of_ascii '', qop='' @ quote @ of_ascii ''auth'' @ quote @ of_ascii '', opaque='' @ quote @ opaque @ quote
         @ of_ascii '', algorithm=MD5'')"

section \<open>Reading a parameter list that was written\<close>

text \<open>A parameter as it is written: quoted or plain.\<close>

definition param_text :: "rstring \<times> bool \<times> rstring \<Rightarrow> rstring" where
  "param_text p =
     (case p of (k, quoted, v) \<Rightarrow> k @ [ch CHR ''=''] @ (if quoted then [34] @ v @ [34] else v))"

definition good_param :: "rstring \<times> bool \<times> rstring \<Rightarrow> bool" where
  "good_param p \<longleftrightarrow>
     (case p of (k, quoted, v) \<Rightarrow> is_word k \<and> to_lower k = k \<and> set k \<inter> {34, 44, 61} = {} \<and> 34 \<notin> set v \<and>
        (quoted \<or> is_word v \<and> 44 \<notin> set v))"

lemma parts_quoted: "34 \<notin> set s \<Longrightarrow> param_parts True cur (s @ t) = param_parts True (cur @ s) t"
  by (induction s arbitrary: cur) auto

lemma parts_plain: "set s \<inter> {34, 44} = {} \<Longrightarrow> param_parts False cur (s @ t) = param_parts False (cur @ s) t"
  by (induction s arbitrary: cur) auto

lemma parts_param: "good_param p \<Longrightarrow> param_parts False cur (param_text p @ t) = param_parts False (cur @ param_text p) t"
  by (cases p) (auto simp: good_param_def param_text_def parts_plain parts_quoted)

lemma trim_param_text:
  assumes "good_param p" shows "trim (param_text p) \<noteq> []"
proof -
  obtain k q v where p: "p = (k, q, v)" using prod_cases3 by blast
  with assms obtain c s where "k = c # s" "\<not> is_rust_whitespace c" by (cases k) (auto simp: good_param_def is_word_def)
  then show ?thesis by (simp add: p param_text_def trim_nonempty)
qed

lemma parts_join:
  assumes "ps \<noteq> []" "\<forall>p \<in> set ps. good_param p" "set cur \<subseteq> {32}"
  shows "param_parts False cur (join [44, 32] (map param_text ps)) =
    (cur @ param_text (hd ps)) # map (\<lambda>p. 32 # param_text p) (tl ps)"
  using assms
proof (induction ps arbitrary: cur)
  case (Cons p ps)
  have cur: "trim (cur @ param_text p) = trim (param_text p)"
    using Cons.prems(3) by (induction cur) (auto simp: trim_space_front)
  show ?case
  proof (cases ps)
    case Nil
    then show ?thesis using Cons.prems(2) parts_param [of p cur "[]"] trim_param_text [of p] cur by simp
  next
    case (Cons p' ps')
    have "param_parts False cur (join [44, 32] (map param_text (p # ps))) =
        (cur @ param_text p) # param_parts False [32] (join [44, 32] (map param_text ps))"
      using Cons.prems(2) parts_param [of p cur] by (simp add: Cons)
    also have "param_parts False [32] (join [44, 32] (map param_text ps)) =
        ([32] @ param_text (hd ps)) # map (\<lambda>p. 32 # param_text p) (tl ps)"
      using Cons.prems(2) Cons by (intro Cons.IH) auto
    finally show ?thesis by (simp add: Cons)
  qed
qed simp

lemma add_param_text:
  assumes "good_param p" "set sp \<subseteq> {32}"
  shows "add_param (sp @ param_text p) m = fmupd (fst p) (snd (snd p)) m"
proof -
  obtain k q v where p: "p = (k, q, v)" using prod_cases3 by blast
  let ?v = "if q then [34] @ v @ [34] else v"
  have k: "is_word k" "to_lower k = k" "61 \<notin> set k" "34 \<notin> set v" "q \<or> is_word v"
    using assms(1) by (auto simp: p good_param_def)
  have "61 \<notin> set (sp @ k)" using k(3) assms(2) by auto
  from split_once_append [OF this, of ?v] have "split_once 61 (sp @ param_text p) = Some (sp @ k, ?v)"
    by (simp add: p param_text_def)
  moreover have "trim (sp @ k) = k" using assms(2) k(1) by (induction sp) (auto simp: trim_space_front)
  moreover have "trim_char 34 (trim ?v) = v"
    using k(4,5) trim_char_quoted [of 34 v] trim_char_none [of 34 v] trim_solid [of "34 # v @ [34]"]
    by (auto simp: is_rust_whitespace_def)
  ultimately show ?thesis using k(2) by (simp add: add_param_def p)
qed

definition params_map :: "(rstring \<times> bool \<times> rstring) list \<Rightarrow> (rstring, rstring) fmap" where
  "params_map ps = fold (\<lambda>p. fmupd (fst p) (snd (snd p))) ps fmempty"

lemma last_param: "good_param p \<Longrightarrow> \<not> is_rust_whitespace (last (param_text p)) \<and> param_text p \<noteq> []"
  using word_ends by (cases p) (auto simp: good_param_def param_text_def is_rust_whitespace_def)

lemma parse_params_text:
  assumes "ps \<noteq> []" "\<forall>p \<in> set ps. good_param p"
  shows "parse_params (of_ascii ''Digest '' @ join [44, 32] (map param_text ps)) = params_map ps"
proof -
  let ?s = "join [44, 32] (map param_text ps)"
  have "?s \<noteq> [] \<and> \<not> is_rust_whitespace (last ?s)"
    using assms
  proof (induction ps)
    case (Cons p ps)
    then show ?case using last_param by (cases ps) auto
  qed simp
  then have "trim (of_ascii ''Digest '' @ ?s) = of_ascii ''Digest '' @ ?s"
    by (intro trim_solid) (simp_all add: of_ascii_def is_rust_whitespace_def)
  moreover have "fold add_param (param_text (hd ps) # map (\<lambda>p. 32 # param_text p) (tl ps)) fmempty = params_map ps"
  proof -
    have "fold add_param (map (\<lambda>p. 32 # param_text p) qs) m = fold (\<lambda>p. fmupd (fst p) (snd (snd p))) qs m"
      if "\<forall>p \<in> set qs. good_param p" for qs m
      using that add_param_text [of _ "[32]"] by (induction qs arbitrary: m) simp_all
    with assms add_param_text [of "hd ps" "[]"] show ?thesis by (cases ps) (simp_all add: params_map_def)
  qed
  ultimately show ?thesis
    using parts_join [OF assms, of "[]"] by (simp add: parse_params_def)
qed

section \<open>Answering a challenge\<close>

lemma hex_lower_chars: "set (hex_lower bs) \<subseteq> {48..57} \<union> {97..102}"
proof (induction bs)
  case (Cons b bs)
  have "unat b div 16 < 16" "unat b mod 16 < 16" using unsigned_less [of b, where ?'a = nat] by auto
  then have "hex_char (unat b div 16) \<in> {48..57} \<union> {97..102}" "hex_char (unat b mod 16) \<in> {48..57} \<union> {97..102}"
    by (auto simp: hex_char_def)
  with Cons show ?case by (simp add: hex_lower_def)
qed (simp add: hex_lower_def)

lemma hex_plain:
  "34 \<notin> set (md5_hex md5 s)" "34 \<notin> set (hex8 n)" "44 \<notin> set (hex8 n)" "is_word (hex8 n)"
proof -
  show "34 \<notin> set (md5_hex md5 s)" "34 \<notin> set (hex8 n)" "44 \<notin> set (hex8 n)"
    unfolding md5_hex_def hex8_def using hex_lower_chars by fastforce+
  have "\<not> is_rust_whitespace c" if "c \<in> set (hex8 n)" for c
    using that hex_lower_chars [of "rev (le_bytes 4 n)"] by (force simp: hex8_def is_rust_whitespace_def)
  moreover have "hex8 n \<noteq> []" by (simp add: hex8_def hex_lower_def le_bytes_def upt_rec)
  ultimately show "is_word (hex8 n)" by (simp add: is_word_def list_all_iff)
qed

lemma response_plain: "34 \<notin> set (compute_response md5 u p r m i n q c k)"
  by (auto simp: compute_response_def Let_def hex_plain split: option.splits)

text \<open>The parameters of an answer and of a challenge.\<close>

definition answer_params ::
  "rstring \<Rightarrow> rstring \<Rightarrow> rstring \<Rightarrow> rstring \<Rightarrow> rstring \<Rightarrow> rstring option \<Rightarrow> rstring \<Rightarrow> rstring \<Rightarrow> rstring option \<Rightarrow>
   (rstring \<times> bool \<times> rstring) list" where
  "answer_params username realm nonce uri response qop nc cnonce opaque =
     [(of_ascii ''username'', True, username), (of_ascii ''realm'', True, realm), (of_ascii ''nonce'', True, nonce),
      (of_ascii ''uri'', True, uri), (of_ascii ''response'', True, response),
      (of_ascii ''algorithm'', False, of_ascii ''MD5'')]
     @ (case qop of
          Some q \<Rightarrow> if contains (of_ascii ''auth'') q
            then [(of_ascii ''qop'', False, of_ascii ''auth''), (of_ascii ''nc'', False, nc), (of_ascii ''cnonce'', True, cnonce)]
            else []
        | None \<Rightarrow> [])
     @ (case opaque of Some o' \<Rightarrow> [(of_ascii ''opaque'', True, o')] | None \<Rightarrow> [])"

lemma build_authorization_params:
  "build_authorization md5 challenge username password method uri cnonce nc =
     (let v = (\<lambda>k. fmlookup challenge (of_ascii k)) in
      of_ascii ''Digest '' @ join [44, 32] (map param_text
        (answer_params username (or_empty (v ''realm'')) (or_empty (v ''nonce'')) uri
          (compute_response md5 username password (or_empty (v ''realm'')) method uri (or_empty (v ''nonce''))
             (v ''qop'') (Some (hex8 nc)) (Some cnonce))
          (v ''qop'') (hex8 nc) cnonce (v ''opaque''))))"
  by (simp add: build_authorization_def answer_params_def param_text_def of_ascii_def Let_def split: option.splits)

lemma good_names:
  "good_param (of_ascii ''username'', True, v) \<longleftrightarrow> 34 \<notin> set v" "good_param (of_ascii ''realm'', True, v) \<longleftrightarrow> 34 \<notin> set v"
  "good_param (of_ascii ''nonce'', True, v) \<longleftrightarrow> 34 \<notin> set v" "good_param (of_ascii ''uri'', True, v) \<longleftrightarrow> 34 \<notin> set v"
  "good_param (of_ascii ''response'', True, v) \<longleftrightarrow> 34 \<notin> set v" "good_param (of_ascii ''cnonce'', True, v) \<longleftrightarrow> 34 \<notin> set v"
  "good_param (of_ascii ''opaque'', True, v) \<longleftrightarrow> 34 \<notin> set v" "good_param (of_ascii ''qop'', True, v) \<longleftrightarrow> 34 \<notin> set v"
  "good_param (of_ascii ''algorithm'', False, of_ascii ''MD5'')" "good_param (of_ascii ''qop'', False, of_ascii ''auth'')"
  by (simp_all add: good_param_def of_ascii_def is_word_def is_rust_whitespace_def ascii_lower_def)

lemma good_nc: "good_param (of_ascii ''nc'', False, hex8 n)"
proof -
  have "is_word (of_ascii ''nc'')" by (simp add: of_ascii_def is_word_def is_rust_whitespace_def)
  then show ?thesis using hex_plain by (simp add: good_param_def of_ascii_def ascii_lower_def)
qed

lemma or_empty_plain: "(\<forall>v. x = Some v \<longrightarrow> 34 \<notin> set v) \<Longrightarrow> 34 \<notin> set (or_empty x)"
  by (cases x) (simp_all add: or_empty_def)

definition challenge_params :: "rstring \<Rightarrow> rstring \<Rightarrow> rstring \<Rightarrow> (rstring \<times> bool \<times> rstring) list" where
  "challenge_params realm nonce opaque =
     [(of_ascii ''realm'', True, realm), (of_ascii ''nonce'', True, nonce), (of_ascii ''qop'', True, of_ascii ''auth''),
      (of_ascii ''opaque'', True, opaque), (of_ascii ''algorithm'', False, of_ascii ''MD5'')]"

lemma parse_challenge:
  assumes "34 \<notin> set realm" "34 \<notin> set nonce"
  shows "parse_params (build_challenge md5 realm nonce) =
    params_map (challenge_params realm nonce (md5_hex md5 (realm @ of_ascii '':sip'')))"
proof -
  let ?ps = "challenge_params realm nonce (md5_hex md5 (realm @ of_ascii '':sip''))"
  have "build_challenge md5 realm nonce = of_ascii ''Digest '' @ join [44, 32] (map param_text ?ps)"
    by (simp add: build_challenge_def challenge_params_def param_text_def of_ascii_def Let_def)
  moreover have "34 \<notin> set (of_ascii ''auth'')" by (simp add: of_ascii_def)
  then have "\<forall>p \<in> set ?ps. good_param p" using assms by (auto simp: challenge_params_def good_names hex_plain)
  ultimately show ?thesis using parse_params_text [of ?ps] by (simp add: challenge_params_def)
qed

text \<open>C14. A client that answers a challenge proves the password, and nothing else does: the
  Authorization header \<open>build_authorization\<close> makes from a challenge with a nonce is accepted by
  \<open>verify_authorization\<close> exactly when it is for the nonce issued and the password and method the
  server uses give the same digest.  With the same password and method it always is.\<close>

theorem digest_verified:
  assumes "\<forall>k v. fmlookup challenge k = Some v \<longrightarrow> 34 \<notin> set v"
    and "34 \<notin> set username" "34 \<notin> set uri" "34 \<notin> set cnonce"
  shows "let realm = or_empty (fmlookup challenge (of_ascii ''realm''));
             nonce = or_empty (fmlookup challenge (of_ascii ''nonce''));
             qop = fmlookup challenge (of_ascii ''qop'');
             digest = (\<lambda>pw m. compute_response md5 username pw realm m uri nonce qop (Some (hex8 nc)) (Some cnonce))
         in verify_authorization md5 (build_authorization md5 challenge username password method uri cnonce nc)
              known method' issued \<longleftrightarrow>
            nonce = issued \<and> eq_ignore_ascii_case (digest known method') (digest password method)"
proof -
  let ?v = "\<lambda>k. fmlookup challenge (of_ascii k)"
  let ?ps = "answer_params username (or_empty (?v ''realm'')) (or_empty (?v ''nonce'')) uri
      (compute_response md5 username password (or_empty (?v ''realm'')) method uri (or_empty (?v ''nonce''))
         (?v ''qop'') (Some (hex8 nc)) (Some cnonce)) (?v ''qop'') (hex8 nc) cnonce (?v ''opaque'')"
  have "\<forall>p \<in> set ?ps. good_param p"
    using assms by (auto simp: answer_params_def good_names good_nc response_plain or_empty_plain split: option.splits)
  moreover have "?ps \<noteq> []" by (simp add: answer_params_def)
  ultimately have p: "parse_params (build_authorization md5 challenge username password method uri cnonce nc) = params_map ?ps"
    unfolding build_authorization_params Let_def by (intro parse_params_text) simp_all
  have "contains (of_ascii ''auth'') (of_ascii ''auth'')" by (simp add: contains_def of_ascii_def starts_with_def strip_prefix_def)
  then show ?thesis
    unfolding verify_authorization_def p Let_def
    by (simp add: params_map_def answer_params_def of_ascii_def compute_response_def Let_def split: option.splits)
qed

theorem digest_verified_witness:
  "verify_authorization (\<lambda>_. [7])
     (build_authorization (\<lambda>_. [7]) (parse_params (build_challenge (\<lambda>_. [7]) (of_ascii ''brew'') (of_ascii ''n0'')))
        (of_ascii ''101'') (of_ascii ''pw'') (of_ascii ''REGISTER'') (of_ascii ''sip:pbx'') (of_ascii ''c0'') 1)
     (of_ascii ''pw'') (of_ascii ''REGISTER'') (of_ascii ''n0'')"
proof -
  let ?ps = "challenge_params (of_ascii ''brew'') (of_ascii ''n0'') (md5_hex (\<lambda>_. [7]) (of_ascii ''brew'' @ of_ascii '':sip''))"
  have parse: "parse_params (build_challenge (\<lambda>_. [7]) (of_ascii ''brew'') (of_ascii ''n0'')) = params_map ?ps"
    by (rule parse_challenge) (simp_all add: of_ascii_def)
  have "\<forall>k v. fmlookup (params_map ?ps) k = Some v \<longrightarrow> 34 \<notin> set v"
    by (auto simp: params_map_def challenge_params_def of_ascii_def hex_plain split: if_splits)
  moreover have "or_empty (fmlookup (params_map ?ps) (of_ascii ''nonce'')) = of_ascii ''n0''"
    by (simp add: params_map_def challenge_params_def of_ascii_def or_empty_def)
  ultimately show ?thesis unfolding parse
    by (subst digest_verified [unfolded Let_def]) (simp_all add: of_ascii_def eq_ignore_ascii_case_def)
qed

end
