(* ===== verification/Sip_State.thy ===== *)
theory Sip_State
  imports Sip_Message
begin

text \<open>
  Voice routing (\<open>src/src/sip/routing.rs\<close>, with the route configuration of
  \<open>src/src/config.rs\<close>) and the run-time state of the SIP side (\<open>src/src/sip/state.rs\<close>):
  registrations, trunks with their number of active calls, calls and their media clocks.  The main
  facts: a route is the first that applies, and a trunk's number of active calls is the number of
  call legs on it as long as Call-IDs are not reused.
\<close>

section \<open>Voice routes\<close>

datatype route_endpoint =
    ExtensionEnd rstring
  | TrunkEnd rstring rstring
  | PrivateEnd u32
  | GroupEnd u32

datatype leg_endpoint =
    LegExtension rstring
  | LegTrunk rstring rstring
  | LegPrivate u32
  | LegGroup u32
  | LegExternal rstring

datatype call_origin = FromExtension rstring | FromTrunk rstring | FromPrivate u32 | FromGroup u32

record voice_route =
  vr_name :: rstring
  vr_match_pattern :: rstring
  vr_to :: "route_endpoint option"
  vr_from :: "route_endpoint option"
  vr_strip_prefix :: rstring
  vr_enabled :: bool

definition origin_matches :: "call_origin \<Rightarrow> route_endpoint \<Rightarrow> bool" where
  "origin_matches origin ep =
     (case (origin, ep) of
        (FromExtension a, ExtensionEnd u) \<Rightarrow> a = u
      | (FromTrunk a, TrunkEnd t _) \<Rightarrow> a = t
      | (FromPrivate a, PrivateEnd i) \<Rightarrow> a = i
      | (FromGroup a, GroupEnd g) \<Rightarrow> a = g
      | _ \<Rightarrow> False)"

definition origin_leg :: "call_origin \<Rightarrow> leg_endpoint" where
  "origin_leg origin =
     (case origin of
        FromExtension a \<Rightarrow> LegExtension a | FromTrunk t \<Rightarrow> LegTrunk t []
      | FromPrivate i \<Rightarrow> LegPrivate i | FromGroup g \<Rightarrow> LegGroup g)"

definition pattern_matches :: "rstring \<Rightarrow> rstring \<Rightarrow> bool" where
  "pattern_matches pattern dialled =
     (if pattern = of_ascii ''*'' then True
      else case strip_suffix (of_ascii ''*'') pattern of
             Some prefix \<Rightarrow> starts_with prefix dialled
           | None \<Rightarrow> pattern = dialled)"

definition resolve_endpoint :: "route_endpoint \<Rightarrow> rstring \<Rightarrow> leg_endpoint" where
  "resolve_endpoint ep dialled =
     (case ep of
        ExtensionEnd u \<Rightarrow> LegExtension u
      | TrunkEnd t number \<Rightarrow> LegTrunk t (if number = [] then dialled else number)
      | PrivateEnd i \<Rightarrow> LegPrivate i
      | GroupEnd g \<Rightarrow> LegGroup g)"

fun resolve :: "voice_route list \<Rightarrow> call_origin \<Rightarrow> rstring \<Rightarrow> (leg_endpoint \<times> voice_route) option" where
  "resolve [] origin dialled = None"
| "resolve (r # rs) origin dialled =
     (if \<not> vr_enabled r then resolve rs origin dialled
      else if \<not> pattern_matches (vr_match_pattern r) dialled then resolve rs origin dialled
      else if (case vr_from r of Some f \<Rightarrow> \<not> origin_matches origin f | None \<Rightarrow> False) then resolve rs origin dialled
      else case vr_to r of
             None \<Rightarrow> resolve rs origin dialled
           | Some target \<Rightarrow>
               let stripped = (if vr_strip_prefix r = [] then dialled
                     else case strip_prefix (vr_strip_prefix r) dialled of Some rest \<Rightarrow> rest | None \<Rightarrow> dialled)
               in Some (resolve_endpoint target stripped, r))"

text \<open>What a route asks of a call, and the first that is content.\<close>

definition route_applies :: "call_origin \<Rightarrow> rstring \<Rightarrow> voice_route \<Rightarrow> bool" where
  "route_applies origin dialled r \<longleftrightarrow>
     vr_enabled r \<and> pattern_matches (vr_match_pattern r) dialled \<and> vr_to r \<noteq> None \<and>
     (case vr_from r of Some f \<Rightarrow> origin_matches origin f | None \<Rightarrow> True)"

lemma resolve_first:
  "map_option snd (resolve routes origin dialled) = find (route_applies origin dialled) routes"
  by (induction routes) (auto simp: route_applies_def Let_def split: option.splits)

lemma resolve_not_external: "resolve routes origin dialled = Some (LegExternal uri, r) \<Longrightarrow> False"
  by (induction routes) (auto simp: Let_def resolve_endpoint_def split: option.splits if_splits route_endpoint.splits)

section \<open>The SIP state\<close>

record registration =
  rg_aor :: rstring
  rg_contact :: rstring
  rg_source :: socket_addr
  rg_user_agent :: rstring
  rg_expires_at_ms :: u64
  rg_registered_at_ms :: u64
  rg_authenticated :: bool

datatype trunk_status = TrunkUp | TrunkRegistering | TrunkFailed | TrunkDown

record trunk_state =
  tk_name :: rstring
  tk_direction :: rstring
  tk_remote_host :: rstring
  tk_status :: trunk_status
  tk_peer_addr :: "socket_addr option"
  tk_last_event_ms :: u64
  tk_detail :: rstring
  tk_active_calls :: u32

record sip_call =
  sk_call_id :: rstring
  sk_from :: leg_endpoint
  sk_to :: leg_endpoint
  sk_started_at_ms :: u64
  sk_answered_at_ms :: "u64 option"
  sk_state :: rstring
  sk_rtp_a_port :: "u16 option"
  sk_rtp_b_port :: "u16 option"

text \<open>A media clock (\<open>Arc<AtomicU64>\<close>) is named by a number; its reading is an input.\<close>

record sip_state =
  sp_registrations :: "(rstring, registration) fmap"
  sp_trunks :: "(rstring, trunk_state) fmap"
  sp_calls :: "(rstring, sip_call) fmap"
  sp_media :: "(rstring, nat list) fmap"
  sp_total_calls :: u64
  sp_total_registrations :: u64

definition empty_sip :: sip_state where
  "empty_sip = \<lparr>sp_registrations = fmempty, sp_trunks = fmempty, sp_calls = fmempty, sp_media = fmempty,
     sp_total_calls = 0, sp_total_registrations = 0\<rparr>"

definition upsert_registration :: "registration \<Rightarrow> sip_state \<Rightarrow> bool \<times> sip_state" where
  "upsert_registration reg s =
     (let is_new = (fmlookup (sp_registrations s) (rg_aor reg) = None)
      in (is_new, s\<lparr>sp_total_registrations := (if is_new then sp_total_registrations s + 1 else sp_total_registrations s),
                    sp_registrations := fmupd (rg_aor reg) reg (sp_registrations s)\<rparr>))"

definition remove_registration :: "rstring \<Rightarrow> sip_state \<Rightarrow> sip_state" where
  "remove_registration aor s = s\<lparr>sp_registrations := fmdrop aor (sp_registrations s)\<rparr>"

definition lookup_registration :: "rstring \<Rightarrow> sip_state \<Rightarrow> registration option" where
  "lookup_registration aor s = fmlookup (sp_registrations s) aor"

definition purge_expired :: "u64 \<Rightarrow> sip_state \<Rightarrow> sip_state" where
  "purge_expired now s = s\<lparr>sp_registrations := fm_retain (\<lambda>_ r. now < rg_expires_at_ms r) (sp_registrations s)\<rparr>"

definition set_trunk :: "trunk_state \<Rightarrow> sip_state \<Rightarrow> sip_state" where
  "set_trunk t s = s\<lparr>sp_trunks := fmupd (tk_name t) t (sp_trunks s)\<rparr>"

definition update_trunk_status ::
  "u64 \<Rightarrow> rstring \<Rightarrow> trunk_status \<Rightarrow> rstring \<Rightarrow> socket_addr option \<Rightarrow> sip_state \<Rightarrow> sip_state" where
  "update_trunk_status now name status detail peer s =
     s\<lparr>sp_trunks := fm_update name (\<lambda>t. t\<lparr>tk_status := status, tk_detail := detail, tk_last_event_ms := now,
        tk_peer_addr := (if peer \<noteq> None then peer else tk_peer_addr t)\<rparr>) (sp_trunks s)\<rparr>"

definition trunk_for_peer_addr :: "rstring \<Rightarrow> sip_state \<Rightarrow> socket_addr option" where
  "trunk_for_peer_addr name s = Option.bind (fmlookup (sp_trunks s) name) tk_peer_addr"

definition trunk_for_peer :: "socket_addr \<Rightarrow> sip_state \<Rightarrow> rstring option" where
  "trunk_for_peer addr s = map_option fst (find (\<lambda>(_, t). tk_peer_addr t = Some addr) (fm_items (sp_trunks s)))"

text \<open>The count of a trunk a leg ends on.\<close>

definition count_leg :: "(u32 \<Rightarrow> u32) \<Rightarrow> leg_endpoint \<Rightarrow> (rstring, trunk_state) fmap \<Rightarrow> (rstring, trunk_state) fmap" where
  "count_leg f ep trunks =
     (case ep of
        LegTrunk trunk _ \<Rightarrow> fm_update trunk (\<lambda>t. t\<lparr>tk_active_calls := f (tk_active_calls t)\<rparr>) trunks
      | _ \<Rightarrow> trunks)"

definition start_call :: "sip_call \<Rightarrow> sip_state \<Rightarrow> sip_state" where
  "start_call call s =
     s\<lparr>sp_total_calls := sp_total_calls s + 1,
       sp_trunks := count_leg (\<lambda>n. n + 1) (sk_to call) (count_leg (\<lambda>n. n + 1) (sk_from call) (sp_trunks s)),
       sp_calls := fmupd (sk_call_id call) call (sp_calls s)\<rparr>"

definition answer_call :: "u64 \<Rightarrow> rstring \<Rightarrow> sip_state \<Rightarrow> sip_state" where
  "answer_call now call_id s =
     s\<lparr>sp_calls := fm_update call_id
        (\<lambda>c. c\<lparr>sk_answered_at_ms := Some now, sk_state := of_ascii ''answered''\<rparr>) (sp_calls s)\<rparr>"

definition set_call_rtp :: "rstring \<Rightarrow> u16 option \<Rightarrow> u16 option \<Rightarrow> sip_state \<Rightarrow> sip_state" where
  "set_call_rtp call_id a b s =
     s\<lparr>sp_calls := fm_update call_id
        (\<lambda>c. c\<lparr>sk_rtp_a_port := (if a \<noteq> None then a else sk_rtp_a_port c),
               sk_rtp_b_port := (if b \<noteq> None then b else sk_rtp_b_port c)\<rparr>) (sp_calls s)\<rparr>"

definition track_media :: "rstring \<Rightarrow> nat \<Rightarrow> sip_state \<Rightarrow> sip_state" where
  "track_media call_id activity s =
     s\<lparr>sp_media := fmupd call_id
        ((case fmlookup (sp_media s) call_id of Some l \<Rightarrow> l | None \<Rightarrow> []) @ [activity]) (sp_media s)\<rparr>"

text \<open>\<open>rx\<close> gives the readings of the media clocks.\<close>

definition sip_idle_calls :: "u64 \<Rightarrow> (nat \<Rightarrow> u64) \<Rightarrow> u64 \<Rightarrow> sip_state \<Rightarrow> rstring list" where
  "sip_idle_calls now rx timeout_ms s =
     map (\<lambda>(_, c). sk_call_id c)
       (filter (\<lambda>(_, c). case sk_answered_at_ms c of
            None \<Rightarrow> False
          | Some answered \<Rightarrow>
              let last_rx = fold max (map rx (case fmlookup (sp_media s) (sk_call_id c) of Some l \<Rightarrow> l | None \<Rightarrow> [])) 0
              in timeout_ms \<le> saturating_sub now (max answered last_rx))
         (fm_items (sp_calls s)))"

definition sip_end_call :: "rstring \<Rightarrow> sip_state \<Rightarrow> sip_state" where
  "sip_end_call call_id s =
     (let s1 = s\<lparr>sp_media := fmdrop call_id (sp_media s)\<rparr> in
      case fmlookup (sp_calls s1) call_id of
        None \<Rightarrow> s1
      | Some c \<Rightarrow>
          s1\<lparr>sp_calls := fmdrop call_id (sp_calls s1),
             sp_trunks := count_leg (\<lambda>n. saturating_sub n 1) (sk_to c)
               (count_leg (\<lambda>n. saturating_sub n 1) (sk_from c) (sp_trunks s1))\<rparr>)"

section \<open>The number of active calls of a trunk\<close>

definition ends_on :: "rstring \<Rightarrow> leg_endpoint \<Rightarrow> bool" where
  "ends_on name ep = (case ep of LegTrunk t _ \<Rightarrow> t = name | _ \<Rightarrow> False)"

definition trunk_legs :: "rstring \<Rightarrow> sip_call \<Rightarrow> nat" where
  "trunk_legs name c = of_bool (ends_on name (sk_from c)) + of_bool (ends_on name (sk_to c))"

definition legs_on :: "rstring \<Rightarrow> (rstring, sip_call) fmap \<Rightarrow> nat" where
  "legs_on name cs = (\<Sum>cid \<in> fset (fmdom cs). trunk_legs name (the (fmlookup cs cid)))"

definition counts_ok :: "sip_state \<Rightarrow> bool" where
  "counts_ok s \<longleftrightarrow> (\<forall>name t. fmlookup (sp_trunks s) name = Some t \<longrightarrow>
     unat (tk_active_calls t) = legs_on name (sp_calls s))"

lemma legs_on_add:
  "fmlookup cs cid = None \<Longrightarrow> legs_on name (fmupd cid c cs) = trunk_legs name c + legs_on name cs"
proof -
  assume "fmlookup cs cid = None"
  then have cid: "cid \<notin> fset (fmdom cs)" by (simp add: fmdom_notI)
  then have "(\<Sum>x \<in> fset (fmdom cs). trunk_legs name (the (fmlookup (fmupd cid c cs) x))) = legs_on name cs"
    unfolding legs_on_def by (intro sum.cong) auto
  with cid show ?thesis by (simp add: legs_on_def)
qed

lemma legs_on_remove:
  assumes "fmlookup cs cid = Some c"
  shows "legs_on name cs = trunk_legs name c + legs_on name (fmdrop cid cs)"
proof -
  have "cs = fmupd cid c (fmdrop cid cs)" using assms by (intro fmap_ext) auto
  then show ?thesis using legs_on_add [of "fmdrop cid cs" cid name c] by (metis fmlookup_drop)
qed

lemma legs_on_update:
  "(\<And>c. sk_from (f c) = sk_from c \<and> sk_to (f c) = sk_to c) \<Longrightarrow> legs_on name (fm_update cid f cs) = legs_on name cs"
  unfolding legs_on_def by (intro sum.cong) (auto simp: trunk_legs_def fmlookup_dom_iff)

text \<open>The steps of the SIP state after start-up.\<close>

inductive sip_step :: "sip_state \<Rightarrow> sip_state \<Rightarrow> bool" where
  registered: "sip_step s (snd (upsert_registration reg s))"
| unregistered: "sip_step s (remove_registration aor s)"
| purged: "sip_step s (purge_expired now s)"
| trunk_seen: "sip_step s (update_trunk_status now name status detail peer s)"
| begun: "fmlookup (sp_calls s) (sk_call_id call) = None \<Longrightarrow> 2 * fcard (fmdom (sp_calls s)) + 2 < 2 ^ 32 \<Longrightarrow>
    sip_step s (start_call call s)"
| answered: "sip_step s (answer_call now cid s)"
| rtp_known: "sip_step s (set_call_rtp cid a b s)"
| media_known: "sip_step s (track_media cid clk s)"
| over: "sip_step s (sip_end_call cid s)"

lemma legs_on_bound: "legs_on name cs \<le> 2 * fcard (fmdom cs)"
proof -
  have "trunk_legs name c \<le> 2" for c by (simp add: trunk_legs_def of_bool_def)
  then have "legs_on name cs \<le> (\<Sum>cid \<in> fset (fmdom cs). 2)" unfolding legs_on_def by (intro sum_mono)
  then show ?thesis by (simp add: fcard.rep_eq)
qed

lemma lookup_count_leg:
  "fmlookup (count_leg f ep ts) name =
     map_option (\<lambda>t. if ends_on name ep then t\<lparr>tk_active_calls := f (tk_active_calls t)\<rparr> else t) (fmlookup ts name)"
  by (cases ep) (auto simp: count_leg_def ends_on_def option.map_id0 [unfolded id_def])

lemma unat_plus_one: "unat (n :: u32) + 1 < 2 ^ 32 \<Longrightarrow> unat (n + 1) = unat n + 1"
  by (simp add: unat_word_ariths)

lemma started_count:
  assumes "unat (n :: u32) + 2 < 2 ^ 32"
  shows "unat (let m = (if p then n + 1 else n) in if q then m + 1 else m) = unat n + of_bool p + of_bool q"
  using assms unat_plus_one [of n] unat_plus_one [of "n + 1"] by (simp add: Let_def)

lemma counts_start:
  assumes "counts_ok s" "fmlookup (sp_calls s) (sk_call_id call) = None" "2 * fcard (fmdom (sp_calls s)) + 2 < 2 ^ 32"
  shows "counts_ok (start_call call s)"
  unfolding counts_ok_def
proof (intro allI impI)
  fix name t assume t: "fmlookup (sp_trunks (start_call call s)) name = Some t"
  then obtain t0 where t0: "fmlookup (sp_trunks s) name = Some t0"
    "tk_active_calls t = (let m = (if ends_on name (sk_from call) then tk_active_calls t0 + 1 else tk_active_calls t0)
       in if ends_on name (sk_to call) then m + 1 else m)"
    by (auto simp: start_call_def lookup_count_leg)
  moreover from t0(1) have n: "unat (tk_active_calls t0) = legs_on name (sp_calls s)" using assms(1) by (simp add: counts_ok_def)
  moreover have "legs_on name (sp_calls s) + 2 < 2 ^ 32" using legs_on_bound [of name "sp_calls s"] assms(3) by linarith
  ultimately have "unat (tk_active_calls t) = legs_on name (sp_calls s) + trunk_legs name call"
    by (simp only: started_count trunk_legs_def)
  then show "unat (tk_active_calls t) = legs_on name (sp_calls (start_call call s))"
    using assms(2) by (simp add: start_call_def legs_on_add)
qed

lemma counts_end:
  assumes "counts_ok s" shows "counts_ok (sip_end_call cid s)"
proof (cases "fmlookup (sp_calls s) cid")
  case (Some c)
  show ?thesis
    unfolding counts_ok_def
  proof (intro allI impI)
    fix name t assume t: "fmlookup (sp_trunks (sip_end_call cid s)) name = Some t"
    then obtain t0 where t0: "fmlookup (sp_trunks s) name = Some t0"
      by (cases "fmlookup (sp_trunks s) name") (simp_all add: sip_end_call_def lookup_count_leg Some)
    have "tk_active_calls t =
        (let m = (if ends_on name (sk_from c) then saturating_sub (tk_active_calls t0) 1 else tk_active_calls t0)
         in if ends_on name (sk_to c) then saturating_sub m 1 else m)"
      using t t0 by (cases "ends_on name (sk_from c)"; cases "ends_on name (sk_to c)")
        (auto simp: sip_end_call_def lookup_count_leg Some Let_def)
    then have less: "unat (tk_active_calls t) =
        unat (tk_active_calls t0) - of_bool (ends_on name (sk_from c)) - of_bool (ends_on name (sk_to c))"
      by (simp add: Let_def unat_saturating_sub)
    have "unat (tk_active_calls t0) = legs_on name (sp_calls s)" using assms t0 by (simp add: counts_ok_def)
    also have "\<dots> = trunk_legs name c + legs_on name (fmdrop cid (sp_calls s))" by (rule legs_on_remove [OF Some])
    finally have "unat (tk_active_calls t0) = trunk_legs name c + legs_on name (fmdrop cid (sp_calls s))" .
    then have "unat (tk_active_calls t) = legs_on name (fmdrop cid (sp_calls s))" using less by (simp add: trunk_legs_def)
    then show "unat (tk_active_calls t) = legs_on name (sp_calls (sip_end_call cid s))"
      using Some by (simp add: sip_end_call_def)
  qed
qed (use assms in \<open>simp add: counts_ok_def sip_end_call_def\<close>)

lemma counts_cong:
  assumes "counts_ok s"
    and "\<And>name t'. fmlookup (sp_trunks s') name = Some t' \<Longrightarrow>
      \<exists>t. fmlookup (sp_trunks s) name = Some t \<and> tk_active_calls t = tk_active_calls t'"
    and "\<And>name. legs_on name (sp_calls s') = legs_on name (sp_calls s)"
  shows "counts_ok s'"
  using assms unfolding counts_ok_def by metis

lemma counts_step: "sip_step s s' \<Longrightarrow> counts_ok s \<Longrightarrow> counts_ok s'"
proof (induction rule: sip_step.induct)
  case (begun s call)
  then show ?case using counts_start by blast
next
  case (over s cid)
  then show ?case using counts_end by blast
next
  case (trunk_seen s now name status detail peer)
  then show ?case by (elim counts_cong) (auto simp: update_trunk_status_def split: if_splits)
next
  case (answered s now cid)
  then show ?case by (elim counts_cong) (simp_all add: answer_call_def legs_on_update)
next
  case (rtp_known s cid a b)
  then show ?case by (elim counts_cong) (simp_all add: set_call_rtp_def legs_on_update)
qed (elim counts_cong; simp add: upsert_registration_def Let_def remove_registration_def purge_expired_def track_media_def)+

text \<open>The trunks are entered at start-up, before any call, with no active call.\<close>

definition seeded :: "trunk_state list \<Rightarrow> sip_state" where
  "seeded ts = fold (\<lambda>t. set_trunk (t\<lparr>tk_active_calls := 0\<rparr>)) ts empty_sip"

lemma seeded_counts: "counts_ok (seeded ts)"
proof -
  have "counts_ok (fold (\<lambda>t. set_trunk (t\<lparr>tk_active_calls := 0\<rparr>)) ts s)"
    if "counts_ok s" "sp_calls s = fmempty" for s
    using that by (induction ts arbitrary: s) (auto simp: counts_ok_def set_trunk_def legs_on_def)
  then show ?thesis by (simp add: seeded_def empty_sip_def counts_ok_def legs_on_def)
qed

text \<open>A trunk's number of active calls is right: after any sequence of registrations, trunk events,
  calls begun under new Call-IDs, answered and ended, it is the number of legs of the calls in
  progress that end on the trunk.\<close>

theorem trunk_counts:
  assumes "sip_step\<^sup>*\<^sup>* (seeded ts) s" "fmlookup (sp_trunks s) name = Some t"
  shows "unat (tk_active_calls t) = legs_on name (sp_calls s)"
proof -
  have "counts_ok s" using assms(1) by (induction rule: rtranclp_induct) (auto simp: seeded_counts counts_step)
  with assms(2) show ?thesis by (simp add: counts_ok_def)
qed

text \<open>A call to one trunk.\<close>

definition sample_trunk :: trunk_state where
  "sample_trunk = \<lparr>tk_name = [112], tk_direction = [], tk_remote_host = [], tk_status = TrunkDown, tk_peer_addr = None,
     tk_last_event_ms = 0, tk_detail = [], tk_active_calls = 0\<rparr>"

definition sample_sip_call :: sip_call where
  "sample_sip_call = \<lparr>sk_call_id = [99], sk_from = LegExtension [49], sk_to = LegTrunk [112] [57], sk_started_at_ms = 0,
     sk_answered_at_ms = None, sk_state = [], sk_rtp_a_port = None, sk_rtp_b_port = None\<rparr>"

theorem trunk_counts_witness:
  "\<exists>t. fmlookup (sp_trunks (start_call sample_sip_call (seeded [sample_trunk]))) [112] = Some t \<and>
     unat (tk_active_calls t) = legs_on [112] (sp_calls (start_call sample_sip_call (seeded [sample_trunk]))) \<and>
     unat (tk_active_calls t) = 1"
proof -
  let ?s = "seeded [sample_trunk]"
  have "sip_step ?s (start_call sample_sip_call ?s)"
    by (rule begun) (simp_all add: seeded_def set_trunk_def empty_sip_def fcard_fempty)
  moreover obtain t where t: "fmlookup (sp_trunks (start_call sample_sip_call ?s)) [112] = Some t" "tk_active_calls t = 1"
    by (simp add: seeded_def set_trunk_def empty_sip_def start_call_def sample_trunk_def sample_sip_call_def count_leg_def
        fm_update_def)
  ultimately have "unat (tk_active_calls t) = legs_on [112] (sp_calls (start_call sample_sip_call ?s))"
    using trunk_counts [of "[sample_trunk]" _ "[112]" t] by blast
  with t show ?thesis by simp
qed

text \<open>A Call-ID used again -- a retransmitted INVITE is enough -- is counted twice and ended once.\<close>

lemma call_id_reused:
  assumes "fmlookup (sp_trunks s) name = Some t" "sk_from call = LegExtension a" "sk_to call = LegTrunk name number"
    "unat (tk_active_calls t) + 2 < 2 ^ 32"
  shows "\<exists>t'. fmlookup (sp_trunks (sip_end_call (sk_call_id call) (start_call call (start_call call s)))) name = Some t' \<and>
    unat (tk_active_calls t') = unat (tk_active_calls t) + 1"
proof -
  have "unat (tk_active_calls t + 1 + 1) = unat (tk_active_calls t) + 2"
    using assms(4) unat_plus_one [of "tk_active_calls t"] unat_plus_one [of "tk_active_calls t + 1"] by simp
  with assms show ?thesis by (simp add: sip_end_call_def start_call_def count_leg_def unat_saturating_sub)
qed

end
