(* ===== verification/Sip_Media.thy ===== *)
theory Sip_Media
  imports Sip_Message
begin

text \<open>
  Media of SIP calls (\<open>src/src/sip/media.rs\<close>): reading and writing session descriptions, the
  choice of payload types, the allocation of relay ports and the latching relay between two legs.
  Facts: a description that was written is read back, and an allocation always ends, with a free port
  or after every port of the range was refused.
\<close>

section \<open>Session descriptions\<close>

record sdp =
  sd_connection_addr :: rstring
  sd_audio_port :: u16
  sd_payload_types :: "u8 list"

record sdp_scan =
  sn_session_conn :: "rstring option"
  sn_media_conn :: "rstring option"
  sn_audio_port :: "u16 option"
  sn_payload_types :: "u8 list"
  sn_in_audio :: bool

definition nth_word :: "nat \<Rightarrow> rstring \<Rightarrow> rstring option" where
  "nth_word n s = get_at (split_whitespace s) n"

definition parse_u8 :: "rstring \<Rightarrow> u8 option" where
  "parse_u8 s = map_option of_nat (parse_uint (2 ^ 8) s)"

definition parse_u16 :: "rstring \<Rightarrow> u16 option" where
  "parse_u16 s = map_option of_nat (parse_uint (2 ^ 16) s)"

definition sdp_line :: "rstring \<Rightarrow> sdp_scan \<Rightarrow> sdp_scan" where
  "sdp_line raw s =
     (let line = trim_end raw in
      case strip_prefix (of_ascii ''c='') line of
        Some rest \<Rightarrow>
          if sn_in_audio s then s\<lparr>sn_media_conn := nth_word 2 rest\<rparr> else s\<lparr>sn_session_conn := nth_word 2 rest\<rparr>
      | None \<Rightarrow>
          (case strip_prefix (of_ascii ''m=audio '') line of
             Some rest \<Rightarrow>
               let ws = split_whitespace rest
               in s\<lparr>sn_in_audio := True,
                    sn_audio_port := (case ws of p # _ \<Rightarrow> parse_u16 p | [] \<Rightarrow> None),
                    sn_payload_types := sn_payload_types s @ List.map_filter parse_u8 (drop 2 ws)\<rparr>
           | None \<Rightarrow> if starts_with (of_ascii ''m='') line then s\<lparr>sn_in_audio := False\<rparr> else s))"

definition sdp_parse :: "bytes \<Rightarrow> sdp option" where
  "sdp_parse body =
     (let s = fold sdp_line (str_lines (from_utf8_lossy body))
            \<lparr>sn_session_conn = None, sn_media_conn = None, sn_audio_port = None, sn_payload_types = [], sn_in_audio = False\<rparr>
      in do {
           addr \<leftarrow> (case sn_media_conn s of Some a \<Rightarrow> Some a | None \<Rightarrow> sn_session_conn s);
           port \<leftarrow> sn_audio_port s;
           Some \<lparr>sd_connection_addr = addr, sd_audio_port = port, sd_payload_types = sn_payload_types s\<rparr>
         })"

definition rtpmap :: "u8 \<Rightarrow> rstring list" where
  "rtpmap pt =
     (if pt = 0 then [of_ascii ''a=rtpmap:0 PCMU/8000'']
      else if pt = 8 then [of_ascii ''a=rtpmap:8 PCMA/8000'']
      else if pt = 101 then [of_ascii ''a=rtpmap:101 telephone-event/8000'', of_ascii ''a=fmtp:101 0-16''] else [])"

definition sdp_text :: "rstring \<Rightarrow> u16 \<Rightarrow> u8 list \<Rightarrow> rstring list" where
  "sdp_text addr port pts =
     (let pt_list = (if pts = [] then of_ascii ''0'' else join [SP] (map (\<lambda>p. decimal (unat p)) pts))
      in [of_ascii ''v=0'', of_ascii ''o=brew-server 0 0 IN IP4 '' @ addr, of_ascii ''s=brew'',
          of_ascii ''c=IN IP4 '' @ addr, of_ascii ''t=0 0'',
          of_ascii ''m=audio '' @ decimal (unat port) @ of_ascii '' RTP/AVP '' @ pt_list]
         @ concat (map rtpmap pts) @ [of_ascii ''a=sendrecv''])"

definition sdp_build :: "rstring \<Rightarrow> u16 \<Rightarrow> u8 list \<Rightarrow> bytes" where
  "sdp_build addr port pts = as_bytes (concat (map (\<lambda>l. l @ crlf) (sdp_text addr port pts)))"

definition negotiate_payloads :: "u8 list \<Rightarrow> u8 list" where
  "negotiate_payloads offer =
     (case find (\<lambda>pt. pt \<in> set offer) [0, 8] of Some pt \<Rightarrow> [pt] | None \<Rightarrow> [0])
       @ (if 101 \<in> set offer then [101] else [])"

section \<open>Ports\<close>

record rtp_relay =
  rl_port_min :: u16
  rl_port_max :: u16
  rl_next_port :: u16

definition new_relay :: "u16 \<Rightarrow> u16 \<Rightarrow> rtp_relay" where
  "new_relay port_min port_max =
     (let lo = max port_min 1024; hi = max port_max (lo + 1)
      in \<lparr>rl_port_min = lo, rl_port_max = hi, rl_next_port = lo\<rparr>)"

definition port_after :: "rtp_relay \<Rightarrow> u16 \<Rightarrow> u16" where
  "port_after r p = (let nx = p + 2 in if rl_port_max r \<le> nx \<or> nx < rl_port_min r then rl_port_min r else nx)"

definition attempt_limit :: "rtp_relay \<Rightarrow> nat" where
  "attempt_limit r = unat ((rl_port_max r - rl_port_min r) div 2)"

text \<open>\<open>free\<close>: whether binding a port succeeds.  The port bound, if any, and the relay afterwards.\<close>

function alloc_from :: "(u16 \<Rightarrow> bool) \<Rightarrow> nat \<Rightarrow> rtp_relay \<Rightarrow> u16 option \<times> rtp_relay" where
  "alloc_from free attempts r =
     (let p = rl_next_port r; r1 = r\<lparr>rl_next_port := port_after r p\<rparr> in
      if free p then (Some p, r1)
      else if attempt_limit r < attempts + 1 then (None, r1)
      else alloc_from free (attempts + 1) r1)"
  by auto
termination
  by (relation "measure (\<lambda>(free, attempts, r). attempt_limit r + 1 - attempts)") (auto simp: attempt_limit_def)

declare alloc_from.simps [simp del]

definition alloc_leg :: "(u16 \<Rightarrow> bool) \<Rightarrow> rtp_relay \<Rightarrow> u16 option \<times> rtp_relay" where
  "alloc_leg free r = alloc_from free 0 r"

section \<open>Legs\<close>

record rtp_leg =
  rt_local_port :: u16
  rt_remote :: "socket_addr option"
  rt_last_rx_ms :: u64

definition new_leg :: "u16 \<Rightarrow> rtp_leg" where
  "new_leg port = \<lparr>rt_local_port = port, rt_remote = None, rt_last_rx_ms = 0\<rparr>"

definition set_remote :: "socket_addr \<Rightarrow> rtp_leg \<Rightarrow> rtp_leg" where
  "set_remote addr l = l\<lparr>rt_remote := Some addr\<rparr>"

text \<open>A datagram received on a leg latches its sender.\<close>

definition leg_recv :: "u64 \<Rightarrow> socket_addr \<Rightarrow> rtp_leg \<Rightarrow> rtp_leg" where
  "leg_recv now sender l = l\<lparr>rt_last_rx_ms := now, rt_remote := Some sender\<rparr>"

definition leg_send :: "bytes \<Rightarrow> rtp_leg \<Rightarrow> (socket_addr \<times> bytes) list" where
  "leg_send data l = (case rt_remote l of Some dst \<Rightarrow> [(dst, data)] | None \<Rightarrow> [])"

text \<open>One turn of the relay between two legs: a datagram on leg A (\<open>True\<close>) or on leg B.\<close>

definition relay_turn ::
  "u64 \<Rightarrow> bool \<Rightarrow> socket_addr \<Rightarrow> bytes \<Rightarrow> rtp_leg \<times> rtp_leg \<Rightarrow> (socket_addr \<times> bytes) list \<times> rtp_leg \<times> rtp_leg" where
  "relay_turn now on_a sender data legs =
     (case legs of (a, b) \<Rightarrow>
        let payload = take 2048 data in
        if on_a then (leg_send payload b, leg_recv now sender a, b)
        else (leg_send payload a, a, leg_recv now sender b))"

section \<open>What was written is read\<close>

lemma filter_map_word: "List.map_filter parse_u8 (map (\<lambda>p. decimal (unat p)) pts) = pts"
proof (induction pts)
  case (Cons p pts)
  have "unat p < 2 ^ LENGTH(8)" by (rule unsigned_less)
  with Cons show ?case by (simp add: parse_u8_def List.map_filter_def)
qed (simp add: List.map_filter_def)

lemma split_join_words: "\<forall>w \<in> set ws. is_word w \<Longrightarrow> split_whitespace (join [32] ws) = ws"
proof (induction ws)
  case (Cons w ws)
  then show ?case by (cases ws) (simp_all add: split_whitespace_word split_whitespace_Cons)
qed simp

lemma lines_crlf:
  assumes "\<forall>l \<in> set ls. LF \<notin> set l"
  shows "str_lines (concat (map (\<lambda>l. l @ crlf) ls)) = ls"
proof -
  have "concat (map (\<lambda>l. l @ crlf) ls) = concat (map (\<lambda>l. l @ [10]) (map (\<lambda>l. l @ [13]) ls)) @ []"
    by (simp add: crlf_def comp_def)
  also have "split_on 10 \<dots> = map (\<lambda>l. l @ [13]) ls @ [[]]"
    using assms by (intro split_on_concat) auto
  finally show ?thesis by (simp add: str_lines_def comp_def drop_cr_def)
qed

lemma trim_end_solid: "s = [] \<or> \<not> is_rust_whitespace (last s) \<Longrightarrow> trim_end s = s"
  by (auto simp: trim_end_def dropWhile_solid hd_rev)

lemma sdp_line_other:
  assumes "\<not> is_rust_whitespace (last l)" "strip_prefix (of_ascii ''c='') l = None"
    "strip_prefix (of_ascii ''m='') l = None" "strip_prefix (of_ascii ''m=audio '') l = None"
  shows "sdp_line l s = s"
  using assms by (simp add: sdp_line_def trim_end_solid starts_with_def)

lemma set_join: "set (join [32] ws) \<subseteq> insert 32 (\<Union> (set ` set ws))"
  by (induction ws rule: induct_list012) auto

lemma rtpmap_lines: "l \<in> set (rtpmap pt) \<Longrightarrow> LF \<notin> set l \<and> list_all is_scalar l \<and> sdp_line l s = s"
  by (auto simp: rtpmap_def of_ascii_def is_scalar_def is_rust_whitespace_def strip_prefix_def intro!: sdp_line_other split: if_splits)

lemma sdp_neutral: "(\<And>l s. l \<in> set ls \<Longrightarrow> sdp_line l s = s) \<Longrightarrow> fold sdp_line ls s = s"
  by (induction ls arbitrary: s) auto

lemma plain_lines:
  "sdp_line (of_ascii ''v=0'') s = s" "sdp_line (of_ascii ''s=brew'') s = s" "sdp_line (of_ascii ''t=0 0'') s = s"
  "sdp_line (of_ascii ''a=sendrecv'') s = s"
  by (rule sdp_line_other; simp add: of_ascii_def is_rust_whitespace_def strip_prefix_def)+

lemma all_around:
  "\<forall>l \<in> set a. P l \<Longrightarrow> P x \<Longrightarrow> P y \<Longrightarrow> P z \<Longrightarrow> \<forall>l \<in> set b. P l \<Longrightarrow> \<forall>l \<in> set (a @ [x, y, z] @ b). P l"
  by auto

text \<open>A session description is read as it was written: address, port and payload types (PCMU when
  none were given).\<close>

lemma sdp_roundtrip:
  assumes "is_word addr" "list_all is_scalar addr"
  shows "sdp_parse (sdp_build addr port pts) =
    Some \<lparr>sd_connection_addr = addr, sd_audio_port = port, sd_payload_types = (if pts = [] then [0] else pts)\<rparr>"
proof -
  let ?pt = "if pts = [] then of_ascii ''0'' else join [32] (map (\<lambda>p. decimal (unat p)) pts)"
  let ?ws = "decimal (unat port) # of_ascii ''RTP/AVP'' # map (\<lambda>p. decimal (unat p)) (if pts = [] then [0] else pts)"
  let ?m = "decimal (unat port) @ of_ascii '' RTP/AVP '' @ ?pt"
  have zero: "decimal 0 = of_ascii ''0''" by (subst decimal.simps) (simp add: of_ascii_def)
  have words: "\<forall>w \<in> set ?ws. is_word w"
    by (auto simp: of_ascii_def is_word_def [of "_ # _"] is_rust_whitespace_def zero)
  have m: "?m = join [32] ?ws" by (auto simp: of_ascii_def zero neq_Nil_conv)
  have fields: "split_whitespace ?m = ?ws" unfolding m by (rule split_join_words [OF words])
  have ends: "\<not> is_rust_whitespace (last (join [32] ws)) \<and> join [32] ws \<noteq> []" if "ws \<noteq> []" "\<forall>w \<in> set ws. is_word w" for ws
    using that word_ends by (induction ws rule: induct_list012) auto
  have mend: "\<not> is_rust_whitespace (last ?m)" unfolding m by (rule ends [OF _ words, THEN conjunct1]) simp
  have "c \<noteq> 10 \<and> is_scalar c" if "is_digit c" for c using that by (auto simp: is_digit_def is_scalar_def)
  then have "c \<noteq> 10 \<and> is_scalar c" if "c \<in> set (decimal n)" for c n using that decimal_digits [of n] by (auto simp: list_all_iff)
  then have "\<forall>w \<in> set ?ws. \<forall>c \<in> set w. c \<noteq> 10 \<and> is_scalar c" by (auto simp: of_ascii_def is_scalar_def)
  then have chars: "c \<noteq> 10 \<and> is_scalar c" if "c \<in> set ?m" for c
    using that set_join [of ?ws] unfolding m by (fastforce simp: is_scalar_def)
  have addr: "10 \<notin> set addr" "\<not> is_rust_whitespace (last addr)" "addr \<noteq> []"
    using assms(1) word_ends [of addr] by (auto simp: is_word_def list_all_iff)
  let ?head = "[of_ascii ''v=0'', of_ascii ''o=brew-server 0 0 IN IP4 '' @ addr, of_ascii ''s=brew'']"
  let ?tail = "concat (map rtpmap pts) @ [of_ascii ''a=sendrecv'']"
  have ls: "sdp_text addr port pts =
      ?head @ [of_ascii ''c=IN IP4 '' @ addr, of_ascii ''t=0 0'', of_ascii ''m=audio '' @ ?m] @ ?tail"
    by (simp add: sdp_text_def)
  let ?ok = "\<lambda>l. LF \<notin> set l \<and> list_all is_scalar l"
  have "?ok (of_ascii ''m=audio '' @ x)" if "\<And>c. c \<in> set x \<Longrightarrow> c \<noteq> 10 \<and> is_scalar c" for x
    using that by (auto simp: of_ascii_def is_scalar_def list_all_iff)
  from this [OF chars] have audio: "?ok (of_ascii ''m=audio '' @ ?m)" by blast
  have front: "\<forall>l \<in> set ?head. ?ok l" "?ok (of_ascii ''c=IN IP4 '' @ addr)" "?ok (of_ascii ''t=0 0'')"
    using addr(1) assms(2) by (auto simp: of_ascii_def is_scalar_def)
  have rest: "\<forall>l \<in> set ?tail. ?ok l" using rtpmap_lines by (auto simp: of_ascii_def is_scalar_def)
  have "\<forall>l \<in> set (sdp_text addr port pts). ?ok l"
    unfolding ls by (rule all_around [where P = ?ok, OF front audio rest])
  then have "str_lines (from_utf8_lossy (sdp_build addr port pts)) = sdp_text addr port pts"
    unfolding sdp_build_def
    by (subst from_utf8_lossy_as_bytes) (auto simp: list_all_iff crlf_def is_scalar_def intro!: lines_crlf [unfolded crlf_def])
  moreover have head: "fold sdp_line ?head s = s" for s
    using sdp_line_other [of "of_ascii ''o=brew-server 0 0 IN IP4 '' @ addr" s] addr(2,3)
    by (simp add: plain_lines) (simp add: of_ascii_def strip_prefix_def)
  moreover have "fold sdp_line (concat (map rtpmap pts)) s = s" for s
    using rtpmap_lines by (intro sdp_neutral) auto
  then have tail: "fold sdp_line ?tail s = s" for s by (simp add: plain_lines)
  moreover have "sdp_line (of_ascii ''c=IN IP4 '' @ addr) s = s\<lparr>sn_session_conn := Some addr\<rparr>" if "\<not> sn_in_audio s" for s
  proof -
    have "is_word (of_ascii ''IN'')" "is_word (of_ascii ''IP4'')" by (simp_all add: of_ascii_def is_word_def is_rust_whitespace_def)
    then have "split_whitespace (of_ascii ''IN IP4 '' @ addr) = [of_ascii ''IN'', of_ascii ''IP4'', addr]"
      using split_whitespace_Cons [of "of_ascii ''IN''"] split_whitespace_Cons [of "of_ascii ''IP4''" addr]
        split_whitespace_word [OF assms(1)] by (simp add: of_ascii_def)
    then show ?thesis using that addr by (simp add: sdp_line_def trim_end_solid strip_prefix_def of_ascii_def nth_word_def get_at_def)
  qed
  moreover have "sdp_line (of_ascii ''m=audio '' @ ?m) s = s\<lparr>sn_in_audio := True, sn_audio_port := Some port,
      sn_payload_types := sn_payload_types s @ (if pts = [] then [0] else pts)\<rparr>" for s
  proof -
    have "parse_u16 (decimal (unat port)) = Some port"
      using unsigned_less [of port, where ?'a = nat] by (simp add: parse_u16_def)
    moreover have "List.map_filter parse_u8 (drop 2 ?ws) = (if pts = [] then [0] else pts)"
      using filter_map_word [of "if pts = [] then [0] else pts"] by simp
    moreover have "trim_end (of_ascii ''m=audio '' @ ?m) = of_ascii ''m=audio '' @ ?m"
      using mend by (intro trim_end_solid) (simp add: of_ascii_def)
    moreover have "strip_prefix (of_ascii ''c='') (of_ascii ''m=audio '' @ ?m) = None" by (simp add: strip_prefix_def of_ascii_def)
    ultimately show ?thesis using fields by (simp only: sdp_line_def Let_def strip_prefix_append option.case list.case)
  qed
  ultimately show ?thesis using plain_lines tail unfolding sdp_parse_def ls fold_append o_apply by simp
qed

section \<open>An allocation ends\<close>

text \<open>The port after a port of the range, counted in steps of two from the lowest.\<close>

definition slots :: "rtp_relay \<Rightarrow> nat" where
  "slots r = (unat (rl_port_max r) - unat (rl_port_min r) + 1) div 2"

definition slot_port :: "rtp_relay \<Rightarrow> nat \<Rightarrow> u16" where
  "slot_port r k = of_nat (unat (rl_port_min r) + 2 * k)"

lemma unat_slot_port:
  assumes "rl_port_min r < rl_port_max r" "k < slots r"
  shows "unat (slot_port r k) = unat (rl_port_min r) + 2 * k" "unat (rl_port_min r) + 2 * k < unat (rl_port_max r)"
proof -
  have "unat (rl_port_min r) < unat (rl_port_max r)" using assms(1) by (simp add: word_less_nat_alt)
  with assms(2) show less: "unat (rl_port_min r) + 2 * k < unat (rl_port_max r)" by (simp add: slots_def)
  have "unat (rl_port_max r) < 2 ^ LENGTH(16)" by (rule unsigned_less)
  with less show "unat (slot_port r k) = unat (rl_port_min r) + 2 * k"
    by (simp only: slot_port_def unat_of_nat) simp
qed

lemma port_after_slot:
  assumes "rl_port_min r < rl_port_max r" "k < slots r" "2 \<le> rl_port_min r"
  shows "port_after r (slot_port r k) = slot_port r (if k + 1 < slots r then k + 1 else 0)"
proof (cases "k + 1 < slots r")
  case True
  have u: "unat (slot_port r (k + 1)) = unat (rl_port_min r) + 2 * (k + 1)"
    "unat (slot_port r (k + 1)) < unat (rl_port_max r)"
    using unat_slot_port [OF assms(1) True] by simp_all
  have "slot_port r k + 2 = slot_port r (k + 1)" by (simp add: slot_port_def)
  moreover have "\<not> (rl_port_max r \<le> slot_port r (k + 1) \<or> slot_port r (k + 1) < rl_port_min r)"
    using u by (simp add: word_less_nat_alt word_le_nat_alt)
  ultimately show ?thesis using True by (simp add: port_after_def Let_def)
next
  case False
  note u = unat_slot_port [OF assms(1,2)]
  have "unat (rl_port_max r) \<le> unat (slot_port r k) + 2"
    using False assms(2) unfolding u(1) slots_def by linarith
  moreover have "unat (rl_port_max r) < 2 ^ 16" using unsigned_less [of "rl_port_max r", where ?'a = nat] by simp
  ultimately have "rl_port_max r \<le> slot_port r k + 2 \<or> slot_port r k + 2 < rl_port_min r"
    using assms(3) u by (cases "unat (slot_port r k) + 2 < 2 ^ 16")
      (auto simp: word_less_nat_alt word_le_nat_alt unat_word_ariths le_mod_geq)
  with False show ?thesis by (simp add: port_after_def Let_def slot_port_def)
qed

definition relay_ok :: "rtp_relay \<Rightarrow> bool" where
  "relay_ok r \<longleftrightarrow> 1024 \<le> rl_port_min r \<and> rl_port_min r < rl_port_max r \<and> (\<exists>k < slots r. rl_next_port r = slot_port r k)"

lemma new_relay_ok:
  assumes "port_min < - 1" shows "relay_ok (new_relay port_min port_max)"
proof -
  define lo where "lo = max port_min 1024"
  have "lo < - 1" using assms by (simp add: lo_def max_def)
  then have "unat lo + 1 < 2 ^ 16" by (simp add: word_less_nat_alt unat_minus_one_word)
  then have "lo < lo + 1" by (simp add: word_less_nat_alt unat_word_ariths)
  then have hi: "lo < max port_max (lo + 1)" by (simp add: less_max_iff_disj)
  then have "unat lo < unat (max port_max (lo + 1))" by (simp add: word_less_nat_alt)
  then show ?thesis
    using hi by (auto simp: new_relay_def relay_ok_def Let_def slots_def slot_port_def intro!: exI [of _ 0] simp flip: lo_def)
      (simp add: lo_def)
qed

lemma alloc_from_tries:
  assumes "1024 \<le> rl_port_min r" "rl_port_min r < rl_port_max r" "rl_next_port r = slot_port r k" "k < slots r"
    "alloc_from free a r = (res, r')"
  shows "rl_port_min r' = rl_port_min r \<and> rl_port_max r' = rl_port_max r \<and> (\<exists>j < slots r. rl_next_port r' = slot_port r j) \<and>
    (case res of
       Some p \<Rightarrow> free p \<and> (\<exists>j < slots r. p = slot_port r j)
     | None \<Rightarrow> \<forall>i \<le> attempt_limit r - a. \<not> free (slot_port r ((k + i) mod slots r)))"
  using assms
proof (induction free a r arbitrary: k rule: alloc_from.induct)
  case (1 free a r)
  define kk where "kk = (if k + 1 < slots r then k + 1 else 0)"
  define rr where "rr = r\<lparr>rl_next_port := port_after r (rl_next_port r)\<rparr>"
  have two: "2 \<le> rl_port_min r" using "1.prems"(1) by (simp add: word_le_nat_alt)
  have nx: "port_after r (rl_next_port r) = slot_port r kk" "kk < slots r"
    using port_after_slot [OF "1.prems"(2,4) two] "1.prems"(3,4) by (simp_all add: kk_def)
  have same: "slots rr = slots r" "slot_port rr = slot_port r" "attempt_limit rr = attempt_limit r"
    "rl_port_min rr = rl_port_min r" "rl_port_max rr = rl_port_max r" "rl_next_port rr = slot_port r kk"
    by (simp_all add: rr_def nx slots_def slot_port_def attempt_limit_def fun_eq_iff)
  have k: "k mod slots r = k" using "1.prems"(4) by simp
  have knext: "(k + Suc i) mod slots r = (kk + i) mod slots r" for i
  proof (cases "k + 1 < slots r")
    case False
    with "1.prems"(4) have "k + Suc i = i + slots r" by linarith
    then have "(k + Suc i) mod slots r = i mod slots r" by (simp only: mod_add_self2)
    then show ?thesis using False by (simp add: kk_def)
  qed (simp add: kk_def)
  consider "free (rl_next_port r)" | "\<not> free (rl_next_port r)" "attempt_limit r < a + 1"
    | "\<not> free (rl_next_port r)" "\<not> attempt_limit r < a + 1" by blast
  then show ?case
  proof cases
    case 1
    then have "res = Some (rl_next_port r)" "r' = rr" using "1.prems"(5) by (simp_all add: alloc_from.simps [of free a] Let_def rr_def)
    then show ?thesis using 1 nx "1.prems"(3,4) same(4,5,6) by auto
  next
    case 2
    then have "res = None" "r' = rr" using "1.prems"(5) by (simp_all add: alloc_from.simps [of free a] Let_def rr_def)
    then show ?thesis using 2 nx "1.prems"(3,4) k same(4,5,6) by auto
  next
    case 3
    then have rec: "alloc_from free (a + 1) rr = (res, r')"
      using "1.prems"(5) by (simp add: alloc_from.simps [of free a] Let_def rr_def)
    have IH: "rl_port_min r' = rl_port_min r \<and> rl_port_max r' = rl_port_max r \<and>
        (\<exists>j < slots r. rl_next_port r' = slot_port r j) \<and>
        (case res of Some p \<Rightarrow> free p \<and> (\<exists>j < slots r. p = slot_port r j)
         | None \<Rightarrow> \<forall>i \<le> attempt_limit r - (a + 1). \<not> free (slot_port r ((kk + i) mod slots r)))"
      using "1.IH" [OF refl rr_def 3, of kk] "1.prems"(1,2) nx(2) rec unfolding same by simp
    moreover have "\<not> free (slot_port r ((k + i) mod slots r))"
      if "\<forall>i \<le> attempt_limit r - (a + 1). \<not> free (slot_port r ((kk + i) mod slots r))" "i \<le> attempt_limit r - a" for i
    proof (cases i)
      case 0
      then show ?thesis using 3(1) "1.prems"(3) k by simp
    next
      case (Suc j)
      with that(2) have "j \<le> attempt_limit r - (a + 1)" by linarith
      with that(1) have "\<not> free (slot_port r ((kk + j) mod slots r))" by blast
      then show ?thesis unfolding Suc knext .
    qed
    ultimately show ?thesis by (cases res) auto
  qed
qed



end
