(* ===== verification/Sip_Bridge.thy ===== *)
theory Sip_Bridge
  imports Sip_Auth Sip_State Sip_Media Router
begin

text \<open>
  The bridge between SIP calls and Brew calls (\<open>src/src/sip/bridge.rs\<close>), with the state of the
  SIP transport it works on (\<open>SipTransport\<close> of \<open>src/src/sip/transport.rs\<close>).  A bridged call
  has a virtual client in the server's tables; the messages the router queues for it are read by the
  transcoder.  The transcoder task is present in the state by its leg and payload type; the task that
  answers the SIP caller (\<open>spawn_private_call_control\<close>) is a handshake that takes one call-control
  message at a time.  Datagrams sent are logged in \<open>w_sent\<close>.
\<close>

section \<open>Configuration and state\<close>

record extension_config =
  xc_password :: rstring
  xc_display_name :: rstring
  xc_issi :: u32
  xc_allow_outbound :: bool

datatype trunk_direction = Inbound | Outbound | StaticPeer

record trunk_config =
  tc_direction :: trunk_direction
  tc_remote_host :: rstring
  tc_username :: rstring
  tc_password :: rstring
  tc_realm :: rstring
  tc_register_interval_seconds :: u64
  tc_enabled :: bool

text \<open>\<open>zc_advertised_host\<close> is the host the transport advertises once it is started
  (\<open>SipTransport::advertised_host\<close>).\<close>

record sip_config =
  zc_enabled :: bool
  zc_listen :: socket_addr
  zc_advertised_host :: rstring
  zc_rtp_port_min :: u16
  zc_rtp_port_max :: u16
  zc_realm :: rstring
  zc_registration_ttl_seconds :: u64
  zc_max_call_duration_seconds :: u64
  zc_extensions :: "(rstring, extension_config) fmap"
  zc_trunks :: "(rstring, trunk_config) fmap"
  zc_routes :: "voice_route list"

record dialog_bye =
  db_request_uri :: rstring
  db_target_addr :: socket_addr
  db_from :: rstring
  db_to :: rstring

text \<open>What a transcoder is started with: its media leg, the payload type and the connections it sends
  voice to.  Its messages to the connections are not part of this state.\<close>

type_synonym transcoder_job = "rtp_leg \<times> u8 \<times> client_id fset"

record bridged_leg =
  bl_virtual_client :: client_id
  bl_brew_call_id :: uuid
  bl_group :: "u32 option"
  bl_task :: "transcoder_job option"
  bl_bye :: "dialog_bye option"
  bl_subscriber :: "client_id option"
  bl_subscriber_issi :: u32
  bl_rang :: bool
  bl_connected :: bool
  bl_pending_media :: "(rtp_leg \<times> client_id fset) option"

record handshake =
  hs_call_id :: rstring
  hs_caller :: socket_addr
  hs_confirm :: "client_id option"
  hs_ringing :: sip_message
  hs_ok :: sip_message
  hs_reject :: sip_message
  hs_rang :: bool

record sip_world =
  w_app :: app
  w_sip :: sip_state
  w_relay :: rtp_relay
  w_nonces :: "(rstring, instant) fmap"
  w_relay_tasks :: "(rstring, rtp_leg \<times> rtp_leg) fmap"
  w_legs :: "(rstring, bridged_leg) fmap"
  w_handshakes :: "(uuid, handshake) fmap"
  w_sent :: "(socket_addr \<times> sip_message) list"

text \<open>What a handler reads from outside: the clocks, random tokens and uuids by the number of the
  draw, whether a port can be bound, the standard library's reading of \<open>host:port\<close> and MD5.\<close>

record sip_env =
  z_clock :: clock
  z_hex :: "nat \<Rightarrow> nat \<Rightarrow> rstring"
  z_uuid :: "nat \<Rightarrow> uuid"
  z_free :: "u16 \<Rightarrow> bool"
  z_addr :: "rstring \<Rightarrow> socket_addr option"
  z_md5 :: "bytes \<Rightarrow> bytes"

definition send_sip :: "socket_addr \<Rightarrow> sip_message \<Rightarrow> sip_world \<Rightarrow> sip_world" where
  "send_sip dst m w = w\<lparr>w_sent := w_sent w @ [(dst, m)]\<rparr>"

definition on_app :: "(app \<Rightarrow> app) \<Rightarrow> sip_world \<Rightarrow> sip_world" where
  "on_app f w = w\<lparr>w_app := f (w_app w)\<rparr>"

definition on_sip :: "(sip_state \<Rightarrow> sip_state) \<Rightarrow> sip_world \<Rightarrow> sip_world" where
  "on_sip f w = w\<lparr>w_sip := f (w_sip w)\<rparr>"

definition alloc_world_leg :: "sip_env \<Rightarrow> sip_world \<Rightarrow> rtp_leg option \<times> sip_world" where
  "alloc_world_leg env w =
     (case alloc_leg (z_free env) (w_relay w) of (res, r) \<Rightarrow> (map_option new_leg res, w\<lparr>w_relay := r\<rparr>))"

text \<open>The leg points at the caller's media address when it parses.\<close>

definition point_leg :: "sip_env \<Rightarrow> sdp \<Rightarrow> rtp_leg \<Rightarrow> rtp_leg" where
  "point_leg env offer leg =
     (case z_addr env (sd_connection_addr offer @ [ch CHR '':''] @ decimal (unat (sd_audio_port offer))) of
        Some addr \<Rightarrow> set_remote addr leg | None \<Rightarrow> leg)"

definition leg_clock :: "rtp_leg \<Rightarrow> nat" where
  "leg_clock leg = unat (rt_local_port leg)"

definition base_response :: "rstring \<Rightarrow> sip_message \<Rightarrow> u16 \<Rightarrow> string \<Rightarrow> sip_message" where
  "base_response tag req code reason =
     (let copy = (\<lambda>out name m. case sip_header (of_ascii name) req of Some v \<Rightarrow> push_header (of_ascii out) v m | None \<Rightarrow> m);
          m0 = fold (push_header (of_ascii ''Via'')) (sip_headers (of_ascii ''via'') req) (new_response code (of_ascii reason));
          m1 = copy ''From'' ''from'' m0;
          m2 = (case sip_header (of_ascii ''to'') req of
                  Some t \<Rightarrow> push_header (of_ascii ''To'')
                    (if to_tag req = None \<and> code \<noteq> 100 then t @ of_ascii '';tag='' @ tag else t) m1
                | None \<Rightarrow> m1);
          m3 = copy ''CSeq'' ''cseq'' (copy ''Call-ID'' ''call-id'' m2)
      in push_header (of_ascii ''Server'') (of_ascii ''brew-server'') m3)"

definition uuid_simple :: "uuid \<Rightarrow> rstring" where
  "uuid_simple u = hex_lower (uuid_bytes u)"

definition via_value :: "sip_config \<Rightarrow> rstring \<Rightarrow> rstring" where
  "via_value cfg branch =
     of_ascii ''SIP/2.0/UDP '' @ zc_advertised_host cfg @ of_ascii '';branch=z9hG4bK'' @ branch"

text \<open>The header block the requests of the bridge and the transport share.\<close>

definition dialog_request ::
  "sip_config \<Rightarrow> rstring \<Rightarrow> sip_method \<Rightarrow> rstring \<Rightarrow> rstring \<Rightarrow> rstring \<Rightarrow> rstring \<Rightarrow> string \<Rightarrow> sip_message" where
  "dialog_request cfg branch m uri from_v to_v call_id cs =
     push_header (of_ascii ''CSeq'') (of_ascii cs)
      (push_header (of_ascii ''Call-ID'') call_id
       (push_header (of_ascii ''To'') to_v
        (push_header (of_ascii ''From'') from_v
         (push_header (of_ascii ''Max-Forwards'') (of_ascii ''70'')
          (push_header (of_ascii ''Via'') (via_value cfg branch) (new_request m uri))))))"

definition with_sdp :: "sip_config \<Rightarrow> rtp_leg \<Rightarrow> u8 list \<Rightarrow> sip_message \<Rightarrow> sip_message" where
  "with_sdp cfg leg payloads m =
     (push_header (of_ascii ''Content-Type'') (of_ascii ''application/sdp'') m)
       \<lparr>si_body := sdp_build (zc_advertised_host cfg) (rt_local_port leg) payloads\<rparr>"

definition brew_contact :: "sip_config \<Rightarrow> rstring" where
  "brew_contact cfg = of_ascii ''<sip:brew@'' @ zc_advertised_host cfg @ of_ascii ''>''"

section \<open>Ending a bridged call\<close>

definition transcoder_payload_type :: "u8 list \<Rightarrow> u8" where
  "transcoder_payload_type payloads = (case find (\<lambda>p. p = 0 \<or> p = 8) payloads of Some p \<Rightarrow> p | None \<Rightarrow> 0)"

definition start_pending_media :: "sip_env \<Rightarrow> rstring \<Rightarrow> bytes \<Rightarrow> sip_world \<Rightarrow> sip_world" where
  "start_pending_media env call_id body w =
     (case sdp_parse body of
        None \<Rightarrow> w
      | Some offer \<Rightarrow>
          (case fmlookup (w_legs w) call_id of
             None \<Rightarrow> w
           | Some leg \<Rightarrow>
               (case bl_pending_media leg of
                  None \<Rightarrow> w
                | Some (pending, targets) \<Rightarrow>
                    w\<lparr>w_legs := fmupd call_id
                       (leg\<lparr>bl_pending_media := None,
                            bl_task := Some (point_leg env offer pending, transcoder_payload_type (sd_payload_types offer), targets)\<rparr>)
                       (w_legs w)\<rparr>)))"

definition leave_bridged_group :: "bridged_leg \<Rightarrow> inner \<Rightarrow> inner" where
  "leave_bridged_group leg i =
     (case bl_group leg of
        None \<Rightarrow> i
      | Some g \<Rightarrow>
          let i1 = i\<lparr>group_clients := fm_update g (\<lambda>m. m |-| {|bl_virtual_client leg|}) (group_clients i)\<rparr>
          in if fmlookup (group_floor i1) g = Some (bl_brew_call_id leg)
             then i1\<lparr>group_floor := fmdrop g (group_floor i1)\<rparr> else i1)"

definition teardown_inner :: "bridged_leg \<Rightarrow> inner \<Rightarrow> inner" where
  "teardown_inner leg i =
     (let i1 = i\<lparr>clients := fmdrop (bl_virtual_client leg) (clients i)\<rparr>;
          call = fmlookup (calls i1) (bl_brew_call_id leg);
          i2 = leave_bridged_group leg (i1\<lparr>calls := fmdrop (bl_brew_call_id leg) (calls i1)\<rparr>)
      in case call of
           None \<Rightarrow> i2
         | Some c \<Rightarrow>
             send_all (finsert (ac_owner c) (ac_peers c) |-| {|bl_virtual_client leg|})
               (build_call_cause (if ac_kind c = GroupCall then CALL_GROUP_IDLE else CALL_RELEASE) (bl_brew_call_id leg) 0) i2)"

text \<open>Aborting the transcoder closes the channel of the handshake, which ends it.\<close>

definition teardown :: "sip_env \<Rightarrow> rstring \<Rightarrow> sip_world \<Rightarrow> sip_world" where
  "teardown env call_id w =
     (case fmlookup (w_legs w) call_id of
        None \<Rightarrow> w
      | Some leg \<Rightarrow>
          on_app (\<lambda>st. on_monitor (call_ended (ck_ms (z_clock env)) (bl_brew_call_id leg)) (on_inner (teardown_inner leg) st))
            (w\<lparr>w_legs := fmdrop call_id (w_legs w),
               w_handshakes := fmdrop (bl_brew_call_id leg) (w_handshakes w)\<rparr>))"

definition send_bye :: "sip_config \<Rightarrow> sip_env \<Rightarrow> rstring \<Rightarrow> dialog_bye \<Rightarrow> sip_world \<Rightarrow> sip_world" where
  "send_bye cfg env call_id d =
     send_sip (db_target_addr d)
       (dialog_request cfg (uuid_simple (z_uuid env 9)) BYE (db_request_uri d) (db_from d) (db_to d) call_id ''2 BYE'')"

definition send_stored_bye :: "sip_config \<Rightarrow> sip_env \<Rightarrow> rstring \<Rightarrow> sip_world \<Rightarrow> sip_world" where
  "send_stored_bye cfg env call_id w =
     (case Option.bind (fmlookup (w_legs w) call_id) bl_bye of Some d \<Rightarrow> send_bye cfg env call_id d w | None \<Rightarrow> w)"

definition leg_of_brew_call :: "uuid \<Rightarrow> sip_world \<Rightarrow> rstring option" where
  "leg_of_brew_call uid w = map_option fst (find (\<lambda>(_, l). bl_brew_call_id l = uid) (fm_items (w_legs w)))"

definition teardown_by_brew_call :: "sip_config \<Rightarrow> sip_env \<Rightarrow> uuid \<Rightarrow> sip_world \<Rightarrow> sip_world" where
  "teardown_by_brew_call cfg env uid w =
     (case leg_of_brew_call uid w of
        None \<Rightarrow> w
      | Some call_id \<Rightarrow> on_sip (sip_end_call call_id) (teardown env call_id (send_stored_bye cfg env call_id w)))"

definition force_end_bridged :: "sip_config \<Rightarrow> sip_env \<Rightarrow> rstring \<Rightarrow> sip_world \<Rightarrow> sip_world" where
  "force_end_bridged cfg env call_id w = teardown env call_id (send_stored_bye cfg env call_id w)"

section \<open>Answers to the INVITEs of the bridge\<close>

definition mark_leg :: "rstring \<Rightarrow> (bridged_leg \<Rightarrow> bridged_leg) \<Rightarrow> sip_world \<Rightarrow> sip_world" where
  "mark_leg call_id f w = w\<lparr>w_legs := fm_update call_id f (w_legs w)\<rparr>"

definition send_ack :: "sip_config \<Rightarrow> sip_env \<Rightarrow> rstring \<Rightarrow> dialog_bye \<Rightarrow> rstring option \<Rightarrow> socket_addr \<Rightarrow> sip_world \<Rightarrow> sip_world" where
  "send_ack cfg env call_id d to_header peer =
     send_sip peer
       (dialog_request cfg (uuid_simple (z_uuid env 8)) ACK (db_request_uri d) (db_from d)
          (case to_header of Some t \<Rightarrow> t | None \<Rightarrow> db_to d) call_id ''1 ACK'')"

definition on_sip_response ::
  "sip_config \<Rightarrow> sip_env \<Rightarrow> rstring \<Rightarrow> u16 \<Rightarrow> rstring option \<Rightarrow> socket_addr \<Rightarrow> bytes \<Rightarrow> sip_world \<Rightarrow> sip_world" where
  "on_sip_response cfg env call_id code to_header peer body w =
     (case fmlookup (w_legs w) call_id of
        None \<Rightarrow> w
      | Some leg \<Rightarrow>
          (case bl_subscriber leg of
             None \<Rightarrow> w
           | Some subscriber \<Rightarrow>
               if bl_connected leg then w
               else if \<not> connected (st_inner (w_app w)) subscriber then w
               else
                 let tell = (\<lambda>msg. on_app (on_inner (send_to subscriber msg))); uid = bl_brew_call_id leg in
                 if code = 180 \<or> code = 183 then
                   (if bl_rang leg then w
                    else tell (build_call_control_empty CALL_ALERT uid) (mark_leg call_id (\<lambda>l. l\<lparr>bl_rang := True\<rparr>) w))
                 else if code = 200 then
                   (let w1 = mark_leg call_id (\<lambda>l. l\<lparr>bl_connected := True\<rparr>) w;
                        w2 = tell (build_circular_connect_request uid 0 (bl_subscriber_issi leg) 0) w1;
                        w3 = on_sip (answer_call (ck_ms (z_clock env)) call_id) w2;
                        w4 = start_pending_media env call_id body w3
                    in case bl_bye leg of Some d \<Rightarrow> send_ack cfg env call_id d to_header peer w4 | None \<Rightarrow> w4)
                 else if 400 \<le> code then
                   on_sip (sip_end_call call_id)
                     (teardown env call_id
                        (tell (build_call_cause CALL_RELEASE uid 0) (mark_leg call_id (\<lambda>l. l\<lparr>bl_connected := True\<rparr>) w)))
                 else w))"

section \<open>SIP to Brew\<close>

definition refuse :: "rstring \<Rightarrow> sip_message \<Rightarrow> socket_addr \<Rightarrow> u16 \<Rightarrow> string \<Rightarrow> rstring \<Rightarrow> sip_world \<Rightarrow> sip_world" where
  "refuse tag req caller code reason call_id w =
     on_sip (sip_end_call call_id) (send_sip caller (base_response tag req code reason) w)"

definition virtual_client :: "clock \<Rightarrow> client" where
  "virtual_client ck = \<lparr>cl_tx = [], cl_mode = Terminal, cl_version = V1, cl_version_announced = False,
     cl_remote_addr = None, cl_connected_at_ms = ck_ms ck, cl_username = None\<rparr>"

definition bridged_call :: "clock \<Rightarrow> call_kind \<Rightarrow> client_id \<Rightarrow> u32 \<Rightarrow> client_id fset \<Rightarrow> active_call" where
  "bridged_call ck kind owner destination peers =
     \<lparr>ac_kind = kind, ac_owner = owner, ac_source_issi = 0, ac_destination = destination, ac_priority = 0,
      ac_peers = peers, ac_started_at = ck_now ck, ac_last_activity_ms = ck_ms ck\<rparr>"

text \<open>The media leg of a call: allocated, pointed at the caller, its port and clock noted.\<close>

definition note_leg :: "rstring \<Rightarrow> rtp_leg \<Rightarrow> sip_world \<Rightarrow> sip_world" where
  "note_leg call_id leg =
     on_sip (track_media call_id (leg_clock leg) \<circ> set_call_rtp call_id (Some (rt_local_port leg)) None)"

definition caller_bye :: "socket_addr \<Rightarrow> sip_message \<Rightarrow> sip_message \<Rightarrow> dialog_bye option" where
  "caller_bye caller req ok =
     do {
       to_v \<leftarrow> sip_header (of_ascii ''to'') ok;
       from_v \<leftarrow> sip_header (of_ascii ''from'') ok;
       Some \<lparr>db_request_uri = (case sip_header (of_ascii ''contact'') req of
               Some c \<Rightarrow> extract_uri c | None \<Rightarrow> of_ascii ''sip:'' @ caller),
             db_target_addr = caller, db_from = to_v, db_to = from_v\<rparr>
     }"

definition answered_leg :: "client_id \<Rightarrow> uuid \<Rightarrow> u32 option \<Rightarrow> transcoder_job \<Rightarrow> dialog_bye option \<Rightarrow> bridged_leg" where
  "answered_leg vc uid g task bye =
     \<lparr>bl_virtual_client = vc, bl_brew_call_id = uid, bl_group = g, bl_task = Some task, bl_bye = bye,
      bl_subscriber = None, bl_subscriber_issi = 0, bl_rang = False, bl_connected = False, bl_pending_media = None\<rparr>"

text \<open>The three answers of a private call share one To-tag.\<close>

definition private_answers ::
  "sip_config \<Rightarrow> sip_env \<Rightarrow> sip_message \<Rightarrow> rtp_leg \<Rightarrow> u8 list \<Rightarrow> sip_message \<times> sip_message \<times> sip_message" where
  "private_answers cfg env req leg payloads =
     (let to_v = (case sip_header (of_ascii ''to'') req of Some t \<Rightarrow> t | None \<Rightarrow> [])
            @ of_ascii '';tag='' @ uuid_simple (z_uuid env 3);
          tagged = (\<lambda>n code reason. set_header (of_ascii ''To'') to_v (base_response (z_hex env n 12) req code reason));
          contact = push_header (of_ascii ''Contact'') (brew_contact cfg)
      in (contact (tagged 1 180 ''Ringing''),
          with_sdp cfg leg payloads (contact (tagged 2 200 ''OK'')),
          tagged 3 486 ''Busy Here''))"

definition ring_private :: "clock \<Rightarrow> uuid \<Rightarrow> client_id \<Rightarrow> u32 \<Rightarrow> client_id \<Rightarrow> inner \<Rightarrow> inner" where
  "ring_private ck uid vc issi target i =
     send_to target (build_circular_call_setup uid 0 issi 0)
       (i\<lparr>clients := fmupd vc (virtual_client ck) (clients i),
          calls := fmupd uid (bridged_call ck PrivateCall vc issi {|target|}) (calls i)\<rparr>)"

definition sip_to_brew_private ::
  "sip_config \<Rightarrow> sip_env \<Rightarrow> socket_addr \<Rightarrow> sip_message \<Rightarrow> u32 \<Rightarrow> sdp \<Rightarrow> u8 list \<Rightarrow> rstring \<Rightarrow> sip_world \<Rightarrow> sip_world" where
  "sip_to_brew_private cfg env caller req issi offer payloads call_id w =
     (if is_blocked (w_app w) issi then refuse (z_hex env 0 12) req caller 403 ''Forbidden'' call_id w
      else case fmlookup (subscribers (st_inner (w_app w))) issi of
        None \<Rightarrow> refuse (z_hex env 0 12) req caller 480 ''Temporarily Unavailable'' call_id w
      | Some s \<Rightarrow>
          let target = sb_client_id s; (allocated, w1) = alloc_world_leg env w in
          (case allocated of
             None \<Rightarrow> refuse (z_hex env 0 12) req caller 500 ''Server Internal Error'' call_id w1
           | Some fresh \<Rightarrow>
               let leg = point_leg env offer fresh;
                   uid = z_uuid env 1; vc = z_uuid env 2;
                   w2 = on_app (on_inner (ring_private (z_clock env) uid vc issi target)) (note_leg call_id leg w1);
                   target_tx = (if connected (st_inner (w_app w2)) target then Some target else None);
                   (ringing, ok, reject) = private_answers cfg env req leg payloads
               in w2\<lparr>w_legs := fmupd call_id
                       (answered_leg vc uid None
                          (leg, transcoder_payload_type payloads, case target_tx of Some t \<Rightarrow> {|t|} | None \<Rightarrow> {||})
                          (caller_bye caller req ok)) (w_legs w2),
                    w_handshakes := fmupd uid
                       \<lparr>hs_call_id = call_id, hs_caller = caller, hs_confirm = target_tx,
                        hs_ringing = ringing, hs_ok = ok, hs_reject = reject, hs_rang = False\<rparr> (w_handshakes w2)\<rparr>))"

definition handshake_over :: "uuid \<Rightarrow> sip_world \<Rightarrow> sip_world" where
  "handshake_over uid w = w\<lparr>w_handshakes := fmdrop uid (w_handshakes w)\<rparr>"

text \<open>One message of the called radio that the transcoder hands to the control task of the call.\<close>

definition private_control :: "sip_env \<Rightarrow> uuid \<Rightarrow> bytes \<Rightarrow> sip_world \<Rightarrow> sip_world" where
  "private_control env uid raw w =
     (case fmlookup (w_handshakes w) uid of
        None \<Rightarrow> w
      | Some h \<Rightarrow>
          if length raw < 18 \<or> raw ! 0 \<noteq> CLASS_CALL_CONTROL then w
          else
            let t = raw ! 1 in
            if t = CALL_SETUP_ACCEPT \<or> t = CALL_ALERT then
              (if hs_rang h then w
               else send_sip (hs_caller h) (hs_ringing h)
                      (w\<lparr>w_handshakes := fmupd uid (h\<lparr>hs_rang := True\<rparr>) (w_handshakes w)\<rparr>))
            else if t = CALL_CONNECT_REQUEST then
              handshake_over uid (on_sip (answer_call (ck_ms (z_clock env)) (hs_call_id h))
                (send_sip (hs_caller h) (hs_ok h)
                  (case hs_confirm h of
                     Some c \<Rightarrow> on_app (on_inner (send_to c (build_call_connect_confirm uid 0 0))) w
                   | None \<Rightarrow> w)))
            else if t = CALL_SETUP_REJECT \<or> t = CALL_RELEASE then
              handshake_over uid (on_sip (sip_end_call (hs_call_id h))
                (teardown env (hs_call_id h) (send_sip (hs_caller h) (hs_reject h) w)))
            else w)"

definition group_members :: "u32 \<Rightarrow> inner \<Rightarrow> client_id fset" where
  "group_members g i = (case fmlookup (group_clients i) g of Some m \<Rightarrow> m | None \<Rightarrow> {||})"

text \<open>The virtual client joins the group and takes its floor.\<close>

definition seize_group :: "clock \<Rightarrow> uuid \<Rightarrow> client_id \<Rightarrow> u32 \<Rightarrow> inner \<Rightarrow> inner" where
  "seize_group ck uid vc gssi i =
     (let members = finsert vc (group_members gssi i); targets = members |-| {|vc|}
      in send_all targets (build_group_tx uid 0 gssi 0)
           (i\<lparr>clients := fmupd vc (virtual_client ck) (clients i),
              group_clients := fmupd gssi members (group_clients i),
              calls := fmupd uid (bridged_call ck GroupCall vc gssi targets) (calls i),
              group_floor := fmupd gssi uid (group_floor i)\<rparr>))"

definition sip_to_brew_group ::
  "sip_config \<Rightarrow> sip_env \<Rightarrow> socket_addr \<Rightarrow> sip_message \<Rightarrow> u32 \<Rightarrow> sdp \<Rightarrow> u8 list \<Rightarrow> rstring \<Rightarrow> sip_world \<Rightarrow> sip_world" where
  "sip_to_brew_group cfg env caller req gssi offer payloads call_id w =
     (if group_members gssi (st_inner (w_app w)) = {||} \<and>
         \<not> cf_fallback_broadcast_when_no_affiliations (st_config (w_app w))
      then refuse (z_hex env 0 12) req caller 480 ''Temporarily Unavailable'' call_id w
      else
        let (allocated, w1) = alloc_world_leg env w in
        (case allocated of
           None \<Rightarrow> refuse (z_hex env 0 12) req caller 500 ''Server Internal Error'' call_id w1
         | Some fresh \<Rightarrow>
             let leg = point_leg env offer fresh;
                 uid = z_uuid env 1; vc = z_uuid env 2;
                 w2 = on_app (on_inner (seize_group (z_clock env) uid vc gssi)) (note_leg call_id leg w1);
                 i = st_inner (w_app w2);
                 ok = with_sdp cfg leg payloads
                        (push_header (of_ascii ''Contact'') (brew_contact cfg) (base_response (z_hex env 0 12) req 200 ''OK''));
                 w3 = w2\<lparr>w_legs := fmupd call_id
                        (answered_leg vc uid (Some gssi)
                           (leg, transcoder_payload_type payloads, (group_members gssi i |-| {|vc|}) |\<inter>| fmdom (clients i))
                           (caller_bye caller req ok)) (w_legs w2)\<rparr>
             in on_sip (answer_call (ck_ms (z_clock env)) call_id) (send_sip caller ok w3)))"

section \<open>Brew to SIP\<close>

record brew_call_link =
  bk_call_id :: uuid
  bk_client :: client_id
  bk_source_issi :: u32

definition join_outbound :: "clock \<Rightarrow> client_id \<Rightarrow> brew_call_link \<Rightarrow> inner \<Rightarrow> inner" where
  "join_outbound ck vc link i =
     send_to (bk_client link) (build_call_control_empty CALL_SETUP_ACCEPT (bk_call_id link))
       (i\<lparr>clients := fmupd vc (virtual_client ck) (clients i),
          calls := fmupd (bk_call_id link) (bridged_call ck PrivateCall (bk_client link) 0 {|vc|}) (calls i)\<rparr>)"

definition outbound_leg :: "client_id \<Rightarrow> brew_call_link \<Rightarrow> dialog_bye \<Rightarrow> rtp_leg \<times> client_id fset \<Rightarrow> bridged_leg" where
  "outbound_leg vc link bye pending =
     \<lparr>bl_virtual_client = vc, bl_brew_call_id = bk_call_id link, bl_group = None, bl_task = None, bl_bye = Some bye,
      bl_subscriber = Some (bk_client link), bl_subscriber_issi = bk_source_issi link, bl_rang = False,
      bl_connected = False, bl_pending_media = Some pending\<rparr>"

definition place_outbound ::
  "sip_config \<Rightarrow> sip_env \<Rightarrow> rstring \<Rightarrow> leg_endpoint \<Rightarrow> leg_endpoint \<Rightarrow> rstring \<Rightarrow> socket_addr \<Rightarrow> brew_call_link
     \<Rightarrow> sip_world \<Rightarrow> sip_world" where
  "place_outbound cfg env call_id from_leg to_leg target_uri target_addr link w =
     (case alloc_world_leg env w of
        (None, w1) \<Rightarrow> w1
      | (Some leg, w1) \<Rightarrow>
          let call = \<lparr>sk_call_id = call_id, sk_from = from_leg, sk_to = to_leg, sk_started_at_ms = ck_ms (z_clock env),
                sk_answered_at_ms = None, sk_state = of_ascii ''brew-originated'',
                sk_rtp_a_port = Some (rt_local_port leg), sk_rtp_b_port = None\<rparr>;
              w2 = on_sip (track_media call_id (leg_clock leg) \<circ> start_call call) w1;
              vc = z_uuid env 1;
              w3 = on_app (on_inner (join_outbound (z_clock env) vc link)) w2;
              targets = {|bk_client link|} |\<inter>| fmdom (clients (st_inner (w_app w3)));
              user = (if bk_source_issi link \<noteq> 0 then decimal (unat (bk_source_issi link)) else of_ascii ''brew'');
              aor = of_ascii ''<sip:'' @ user @ of_ascii ''@'' @ zc_advertised_host cfg @ of_ascii ''>'';
              from_v = aor @ of_ascii '';tag='' @ uuid_simple (z_uuid env 4);
              to_v = of_ascii ''<'' @ extract_uri target_uri @ of_ascii ''>'';
              invite = with_sdp cfg leg [0, 8, 101] (push_header (of_ascii ''Contact'') aor
                (dialog_request cfg (uuid_simple (z_uuid env 5)) INVITE target_uri from_v to_v call_id ''1 INVITE''));
              bye = \<lparr>db_request_uri = target_uri, db_target_addr = target_addr, db_from = from_v, db_to = to_v\<rparr>
          in send_sip target_addr invite
               (w3\<lparr>w_legs := fmupd call_id (outbound_leg vc link bye (leg, targets)) (w_legs w3)\<rparr>))"

definition host_part :: "rstring \<Rightarrow> rstring" where
  "host_part s = (case split_on (ch CHR '':'') s of h # _ \<Rightarrow> h | [] \<Rightarrow> s)"

definition trunk_uri :: "rstring \<Rightarrow> trunk_config \<Rightarrow> rstring" where
  "trunk_uri number tc = of_ascii ''sip:'' @ number @ of_ascii ''@'' @ host_part (tc_remote_host tc)"

text \<open>Whether the call was placed, and the state after it.\<close>

definition brew_to_sip ::
  "sip_config \<Rightarrow> sip_env \<Rightarrow> call_origin \<Rightarrow> rstring \<Rightarrow> brew_call_link \<Rightarrow> sip_world \<Rightarrow> bool \<times> sip_world" where
  "brew_to_sip cfg env origin dialled link w =
     (let call_id = of_ascii ''brew-'' @ uuid_simple (z_uuid env 0); placed = (\<lambda>dest uri addr.
        (True, place_outbound cfg env call_id (origin_leg origin) dest uri addr link w)) in
      case resolve (zc_routes cfg) origin dialled of
        None \<Rightarrow> (False, w)
      | Some (dest, _) \<Rightarrow>
          (case dest of
             LegExtension aor \<Rightarrow>
               (case lookup_registration aor (w_sip w) of
                  None \<Rightarrow> (False, w)
                | Some reg \<Rightarrow> placed dest (rg_contact reg) (rg_source reg))
           | LegTrunk trunk number \<Rightarrow>
               (case fmlookup (zc_trunks cfg) trunk of
                  None \<Rightarrow> (False, w)
                | Some tc \<Rightarrow>
                    (case (case z_addr env (tc_remote_host tc) of
                             Some a \<Rightarrow> Some a | None \<Rightarrow> trunk_for_peer_addr trunk (w_sip w)) of
                       None \<Rightarrow> (False, w)
                     | Some peer \<Rightarrow> placed dest (trunk_uri number tc) peer))
           | _ \<Rightarrow> (False, w)))"

text \<open>A call that Brew ended is ended on the SIP side too: the effects that the router and
  \<open>cleanup_client\<close> log are carried out.\<close>

definition end_bridged :: "sip_config \<Rightarrow> sip_env \<Rightarrow> effect list \<Rightarrow> sip_world \<Rightarrow> sip_world" where
  "end_bridged cfg env effects =
     fold (\<lambda>e. case e of BridgeTeardown uid \<Rightarrow> teardown_by_brew_call cfg env uid | _ \<Rightarrow> (\<lambda>w. w)) effects"

end
