(* ===== verification/Sip_Transport.thy ===== *)
theory Sip_Transport
  imports Sip_Bridge
begin

text \<open>
  The SIP transport (\<open>src/src/sip/transport.rs\<close>): the registrar, INVITEs between extensions,
  trunks and Brew, BYE and CANCEL, responses, the time-out sweep, the registration of outbound trunks
  and the start of the subsystem.  A handler takes the datagram's peer and the state and leaves the
  state with the datagrams it sends appended to \<open>w_sent\<close>; handlers run one at a time.
\<close>

section \<open>Nonces and answers\<close>

definition new_nonce :: "sip_env \<Rightarrow> sip_world \<Rightarrow> rstring \<times> sip_world" where
  "new_nonce env w =
     (let nonce = z_hex env 7 32 in (nonce, w\<lparr>w_nonces := fmupd nonce (ck_now (z_clock env)) (w_nonces w)\<rparr>))"

text \<open>Nonces live for two minutes.\<close>

definition nonce_valid :: "sip_env \<Rightarrow> rstring \<Rightarrow> sip_world \<Rightarrow> bool \<times> sip_world" where
  "nonce_valid env nonce w =
     (let n = fm_retain (\<lambda>_ t. ck_now (z_clock env) - t < 120000) (w_nonces w)
      in (nonce |\<in>| fmdom n, w\<lparr>w_nonces := n\<rparr>))"

definition respond :: "sip_env \<Rightarrow> sip_message \<Rightarrow> socket_addr \<Rightarrow> u16 \<Rightarrow> string \<Rightarrow> sip_world \<Rightarrow> sip_world" where
  "respond env req peer code reason = send_sip peer (base_response (z_hex env 0 12) req code reason)"

text \<open>Whether a request carries a digest of the password under a live nonce.\<close>

definition request_authed :: "sip_env \<Rightarrow> rstring option \<Rightarrow> rstring \<Rightarrow> string \<Rightarrow> sip_world \<Rightarrow> bool \<times> sip_world" where
  "request_authed env auth_header password method w =
     (case auth_header of
        None \<Rightarrow> (False, w)
      | Some h \<Rightarrow>
          let nonce = or_empty (fmlookup (parse_params h) (of_ascii ''nonce''));
              (valid, w1) = nonce_valid env nonce w
          in (valid \<and> verify_authorization (z_md5 env) h password (of_ascii method) nonce, w1))"

definition challenge :: "sip_config \<Rightarrow> sip_env \<Rightarrow> sip_message \<Rightarrow> socket_addr \<Rightarrow> u16 \<Rightarrow> string \<Rightarrow> string \<Rightarrow> sip_world \<Rightarrow> sip_world" where
  "challenge cfg env req peer code reason header w =
     (let (nonce, w1) = new_nonce env w
      in send_sip peer
           (push_header (of_ascii header) (build_challenge (z_md5 env) (zc_realm cfg) nonce)
              (base_response (z_hex env 0 12) req code reason)) w1)"

text \<open>The URI of a header, empty when it is missing.\<close>

definition header_uri :: "string \<Rightarrow> sip_message \<Rightarrow> rstring" where
  "header_uri name req = (case sip_header (of_ascii name) req of Some v \<Rightarrow> extract_uri v | None \<Rightarrow> [])"

section \<open>The registrar\<close>

definition bind_contact :: "sip_config \<Rightarrow> sip_env \<Rightarrow> socket_addr \<Rightarrow> sip_message \<Rightarrow> rstring \<Rightarrow> extension_config \<Rightarrow> sip_world \<Rightarrow> sip_world" where
  "bind_contact cfg env peer req aor ext w =
     (let expires = (case sip_expires req of Some e \<Rightarrow> e | None \<Rightarrow> zc_registration_ttl_seconds cfg);
          contact_hdr = or_empty (sip_header (of_ascii ''contact'') req);
          resp = base_response (z_hex env 0 12) req 200 ''OK'';
          contact = (\<lambda>v m. if contact_hdr = [] then m
                           else push_header (of_ascii ''Contact'') (contact_hdr @ of_ascii '';expires='' @ v) m);
          now = ck_ms (z_clock env)
      in if expires = 0 then
           send_sip peer (contact (of_ascii ''0'') resp) (on_sip (remove_registration aor) w)
         else
           let reg = \<lparr>rg_aor = aor, rg_contact = extract_uri contact_hdr, rg_source = peer,
                      rg_user_agent = or_empty (sip_header (of_ascii ''user-agent'') req),
                      rg_expires_at_ms = now + expires * 1000, rg_registered_at_ms = now,
                      rg_authenticated = (xc_password ext \<noteq> [])\<rparr>;
               e = decimal (unat expires)
           in send_sip peer (push_header (of_ascii ''Expires'') e (contact e resp))
                (on_sip (snd \<circ> upsert_registration reg) w))"

definition handle_register :: "sip_config \<Rightarrow> sip_env \<Rightarrow> socket_addr \<Rightarrow> sip_message \<Rightarrow> sip_world \<Rightarrow> sip_world" where
  "handle_register cfg env peer req w =
     (case uri_user (header_uri ''to'' req) of
        None \<Rightarrow> respond env req peer 400 ''Bad Request'' w
      | Some aor \<Rightarrow>
          (case fmlookup (zc_extensions cfg) aor of
             None \<Rightarrow> respond env req peer 404 ''Not Found'' w
           | Some ext \<Rightarrow>
               if xc_password ext = [] then bind_contact cfg env peer req aor ext w
               else
                 let (authed, w1) = request_authed env (sip_header (of_ascii ''authorization'') req)
                        (xc_password ext) ''REGISTER'' w
                 in if authed then bind_contact cfg env peer req aor ext w1
                    else challenge cfg env req peer 401 ''Unauthorized'' ''WWW-Authenticate'' w1))"

section \<open>INVITE\<close>

text \<open>Who calls: the trunk of that peer, or the provisioned extension the From header names, once it
  is authenticated and allowed to call out.  \<open>Inl\<close>: refused, with the answer sent.\<close>

definition invite_origin ::
  "sip_config \<Rightarrow> sip_env \<Rightarrow> socket_addr \<Rightarrow> sip_message \<Rightarrow> sip_world \<Rightarrow> sip_world + call_origin \<times> sip_world" where
  "invite_origin cfg env peer req w =
     (case trunk_for_peer peer (w_sip w) of
        Some trunk \<Rightarrow> Inr (FromTrunk trunk, w)
      | None \<Rightarrow>
          let from_user = or_empty (uri_user (header_uri ''from'' req)) in
          (case fmlookup (zc_extensions cfg) from_user of
             None \<Rightarrow> Inl (respond env req peer 403 ''Forbidden'' w)
           | Some ext \<Rightarrow>
               let (authed, w1) =
                 (if xc_password ext = [] then (True, w)
                  else request_authed env
                         (case sip_header (of_ascii ''authorization'') req of
                            Some h \<Rightarrow> Some h | None \<Rightarrow> sip_header (of_ascii ''proxy-authorization'') req)
                         (xc_password ext) ''INVITE'' w)
               in if \<not> authed then
                    Inl (challenge cfg env req peer 407 ''Proxy Authentication Required'' ''Proxy-Authenticate'' w1)
                  else if \<not> xc_allow_outbound ext then Inl (respond env req peer 403 ''Forbidden'' w1)
                  else Inr (FromExtension from_user, w1)))"

text \<open>Both legs of a call between SIP parties; the first points at the caller.  The second is tried
  even when the first fails.\<close>

definition alloc_pair :: "sip_env \<Rightarrow> sdp \<Rightarrow> sip_world \<Rightarrow> (rtp_leg \<times> rtp_leg) option \<times> sip_world" where
  "alloc_pair env offer w =
     (let (a, w1) = alloc_world_leg env w; (b, w2) = alloc_world_leg env w1
      in (case (a, b) of (Some la, Some lb) \<Rightarrow> Some (point_leg env offer la, lb) | _ \<Rightarrow> None, w2))"

definition note_pair :: "rstring \<Rightarrow> rtp_leg \<Rightarrow> rtp_leg \<Rightarrow> sip_world \<Rightarrow> sip_world" where
  "note_pair call_id a b =
     on_sip (track_media call_id (leg_clock b) \<circ> track_media call_id (leg_clock a)
       \<circ> set_call_rtp call_id (Some (rt_local_port a)) (Some (rt_local_port b)))"

text \<open>The relay is started, the caller answered and the callee invited.\<close>

definition connect_pair ::
  "sip_config \<Rightarrow> sip_env \<Rightarrow> socket_addr \<Rightarrow> sip_message \<Rightarrow> sip_message \<Rightarrow> socket_addr \<Rightarrow> rtp_leg \<times> rtp_leg \<Rightarrow> u8 list
     \<Rightarrow> rstring \<Rightarrow> sip_world \<Rightarrow> sip_world" where
  "connect_pair cfg env caller req invite callee legs payloads call_id w =
     (let w1 = w\<lparr>w_relay_tasks := fmupd call_id legs (w_relay_tasks w)\<rparr>;
          ok = with_sdp cfg (fst legs) payloads
                 (push_header (of_ascii ''Contact'') (brew_contact cfg) (base_response (z_hex env 0 12) req 200 ''OK''))
      in on_sip (answer_call (ck_ms (z_clock env)) call_id) (send_sip callee invite (send_sip caller ok w1)))"

definition terminate_to_extension ::
  "sip_config \<Rightarrow> sip_env \<Rightarrow> socket_addr \<Rightarrow> sip_message \<Rightarrow> rstring \<Rightarrow> sdp \<Rightarrow> u8 list \<Rightarrow> rstring \<Rightarrow> sip_world \<Rightarrow> sip_world" where
  "terminate_to_extension cfg env caller req aor offer payloads call_id w =
     (case lookup_registration aor (w_sip w) of
        None \<Rightarrow> refuse (z_hex env 0 12) req caller 480 ''Temporarily Unavailable'' call_id w
      | Some reg \<Rightarrow>
          (case alloc_pair env offer w of
             (None, w1) \<Rightarrow> refuse (z_hex env 0 12) req caller 500 ''Server Internal Error'' call_id w1
           | (Some (a, b), w1) \<Rightarrow>
               let from_v = of_ascii ''<sip:'' @ or_empty (uri_user (header_uri ''from'' req)) @ of_ascii ''@''
                     @ zc_advertised_host cfg @ of_ascii ''>;tag='' @ z_hex env 2 12;
                   to_v = of_ascii ''<'' @ rg_contact reg @ of_ascii ''>'';
                   invite = with_sdp cfg b payloads (push_header (of_ascii ''Contact'') (brew_contact cfg)
                     (dialog_request cfg (z_hex env 1 16) INVITE (rg_contact reg) from_v to_v call_id ''1 INVITE''))
               in connect_pair cfg env caller req invite (rg_source reg) (a, b) payloads call_id (note_pair call_id a b w1)))"

section \<open>The dashboard's view of the calls and trunks\<close>

definition snapshot_calls :: "sip_state \<Rightarrow> sip_call list" where
  "snapshot_calls s = sort_key (\<lambda>c. - uint (sk_started_at_ms c)) (map snd (fm_items (sp_calls s)))"

definition snapshot_trunks :: "sip_state \<Rightarrow> trunk_state list" where
  "snapshot_trunks s = sort_key tk_name (map snd (fm_items (sp_trunks s)))"

definition trunk_peer :: "sip_env \<Rightarrow> rstring \<Rightarrow> trunk_config \<Rightarrow> sip_state \<Rightarrow> socket_addr option" where
  "trunk_peer env trunk tc s =
     (case Option.bind (find (\<lambda>t. tk_name t = trunk) (snapshot_trunks s)) tk_peer_addr of
        Some a \<Rightarrow> Some a | None \<Rightarrow> z_addr env (tc_remote_host tc))"

definition trunk_user :: "rstring \<Rightarrow> trunk_config \<Rightarrow> rstring" where
  "trunk_user name tc = (if tc_username tc = [] then name else tc_username tc)"

definition terminate_to_trunk ::
  "sip_config \<Rightarrow> sip_env \<Rightarrow> socket_addr \<Rightarrow> sip_message \<Rightarrow> rstring \<Rightarrow> rstring \<Rightarrow> sdp \<Rightarrow> u8 list \<Rightarrow> rstring
     \<Rightarrow> sip_world \<Rightarrow> sip_world" where
  "terminate_to_trunk cfg env caller req trunk number offer payloads call_id w =
     (case fmlookup (zc_trunks cfg) trunk of
        None \<Rightarrow> refuse (z_hex env 0 12) req caller 404 ''Not Found'' call_id w
      | Some tc \<Rightarrow>
          (case trunk_peer env trunk tc (w_sip w) of
             None \<Rightarrow> refuse (z_hex env 0 12) req caller 502 ''Bad Gateway'' call_id w
           | Some peer_addr \<Rightarrow>
               (case alloc_pair env offer w of
                  (None, w1) \<Rightarrow> refuse (z_hex env 0 12) req caller 500 ''Server Internal Error'' call_id w1
                | (Some (a, b), w1) \<Rightarrow>
                    let uri = trunk_uri number tc;
                        aor = of_ascii ''<sip:'' @ trunk_user trunk tc @ of_ascii ''@'' @ zc_advertised_host cfg @ of_ascii ''>'';
                        invite = with_sdp cfg b payloads (push_header (of_ascii ''Contact'') aor
                          (dialog_request cfg (z_hex env 1 16) INVITE uri (aor @ of_ascii '';tag='' @ z_hex env 2 12)
                             (of_ascii ''<'' @ uri @ of_ascii ''>'') call_id ''1 INVITE''))
                    in connect_pair cfg env caller req invite peer_addr (a, b) payloads call_id (note_pair call_id a b w1))))"

definition dispatch_invite ::
  "sip_config \<Rightarrow> sip_env \<Rightarrow> socket_addr \<Rightarrow> sip_message \<Rightarrow> leg_endpoint \<Rightarrow> sdp \<Rightarrow> u8 list \<Rightarrow> rstring \<Rightarrow> sip_world \<Rightarrow> sip_world" where
  "dispatch_invite cfg env peer req dest offer payloads call_id w =
     (case dest of
        LegExtension aor \<Rightarrow> terminate_to_extension cfg env peer req aor offer payloads call_id w
      | LegTrunk trunk number \<Rightarrow> terminate_to_trunk cfg env peer req trunk number offer payloads call_id w
      | LegPrivate issi \<Rightarrow> sip_to_brew_private cfg env peer req issi offer payloads call_id w
      | LegGroup gssi \<Rightarrow> sip_to_brew_group cfg env peer req gssi offer payloads call_id w
      | LegExternal _ \<Rightarrow> respond env req peer 404 ''Not Found'' w)"

definition request_call_id :: "sip_message \<Rightarrow> rstring" where
  "request_call_id req = or_empty (call_id_of req)"

definition handle_invite :: "sip_config \<Rightarrow> sip_env \<Rightarrow> socket_addr \<Rightarrow> sip_message \<Rightarrow> sip_world \<Rightarrow> sip_world" where
  "handle_invite cfg env peer req w0 =
     (let call_id = request_call_id req;
          dialled = or_empty (uri_user (header_uri ''to'' req));
          w = respond env req peer 100 ''Trying'' w0
      in case invite_origin cfg env peer req w of
           Inl w1 \<Rightarrow> w1
         | Inr (origin, w1) \<Rightarrow>
             (case resolve (zc_routes cfg) origin dialled of
                None \<Rightarrow> respond env req peer 404 ''Not Found'' w1
              | Some (dest, _) \<Rightarrow>
                  (case sdp_parse (si_body req) of
                     None \<Rightarrow> respond env req peer 488 ''Not Acceptable Here'' w1
                   | Some offer \<Rightarrow>
                       let call = \<lparr>sk_call_id = call_id, sk_from = origin_leg origin, sk_to = dest,
                             sk_started_at_ms = ck_ms (z_clock env), sk_answered_at_ms = None,
                             sk_state = of_ascii ''routing'', sk_rtp_a_port = None, sk_rtp_b_port = None\<rparr>
                       in dispatch_invite cfg env peer req dest offer (negotiate_payloads (sd_payload_types offer))
                            call_id (on_sip (start_call call) w1))))"

section \<open>The end of a call\<close>

definition drop_call :: "sip_env \<Rightarrow> rstring \<Rightarrow> sip_world \<Rightarrow> sip_world" where
  "drop_call env call_id w =
     on_sip (sip_end_call call_id) (teardown env call_id (w\<lparr>w_relay_tasks := fmdrop call_id (w_relay_tasks w)\<rparr>))"

definition handle_bye :: "sip_env \<Rightarrow> socket_addr \<Rightarrow> sip_message \<Rightarrow> sip_world \<Rightarrow> sip_world" where
  "handle_bye env peer req w = respond env req peer 200 ''OK'' (drop_call env (request_call_id req) w)"

definition handle_cancel :: "sip_env \<Rightarrow> socket_addr \<Rightarrow> sip_message \<Rightarrow> sip_world \<Rightarrow> sip_world" where
  "handle_cancel env peer req w = respond env req peer 200 ''OK'' (drop_call env (request_call_id req) w)"

definition timed_out_calls :: "u64 \<Rightarrow> u64 \<Rightarrow> u64 \<Rightarrow> (nat \<Rightarrow> u64) \<Rightarrow> sip_state \<Rightarrow> rstring list" where
  "timed_out_calls limit idle now rx s =
     (let long = (if limit = 0 then []
            else map sk_call_id (filter (\<lambda>c. limit * 1000 \<le> saturating_sub now (sk_started_at_ms c)) (snapshot_calls s)));
          still = (if idle = 0 then [] else sip_idle_calls now rx (idle * 1000) s)
      in fold (\<lambda>cid out. if cid \<in> set out then out else out @ [cid]) still long)"

definition force_end_sip :: "sip_config \<Rightarrow> sip_env \<Rightarrow> rstring \<Rightarrow> sip_world \<Rightarrow> sip_world" where
  "force_end_sip cfg env call_id w =
     on_sip (sip_end_call call_id)
       (force_end_bridged cfg env call_id (w\<lparr>w_relay_tasks := fmdrop call_id (w_relay_tasks w)\<rparr>))"

text \<open>One turn of the sweep, \<open>limit\<close> and \<open>idle\<close> in seconds, zero for none.\<close>

definition sip_sweep :: "sip_config \<Rightarrow> sip_env \<Rightarrow> u64 \<Rightarrow> (nat \<Rightarrow> u64) \<Rightarrow> sip_world \<Rightarrow> sip_world" where
  "sip_sweep cfg env idle rx w =
     fold (force_end_sip cfg env)
       (timed_out_calls (zc_max_call_duration_seconds cfg) idle (ck_ms (z_clock env)) rx (w_sip w)) w"

section \<open>Datagrams\<close>

definition handle_response :: "sip_config \<Rightarrow> sip_env \<Rightarrow> socket_addr \<Rightarrow> sip_message \<Rightarrow> sip_world \<Rightarrow> sip_world" where
  "handle_response cfg env peer resp w =
     (case cseq resp of
        None \<Rightarrow> w
      | Some (_, method) \<Rightarrow>
          let code = (case status_code resp of Some c \<Rightarrow> c | None \<Rightarrow> 0); now = ck_ms (z_clock env) in
          if method = of_ascii ''REGISTER'' then
            (case trunk_for_peer peer (w_sip w) of
               None \<Rightarrow> w
             | Some trunk \<Rightarrow>
                 if code = 200 then on_sip (update_trunk_status now trunk TrunkUp (of_ascii ''200 OK'') (Some peer)) w
                 else if code = 401 \<or> code = 407 then w
                 else on_sip (update_trunk_status now trunk TrunkFailed (decimal (unat code)) (Some peer)) w)
          else if method = of_ascii ''INVITE'' then
            (case call_id_of resp of
               None \<Rightarrow> w
             | Some call_id \<Rightarrow>
                 on_sip_response cfg env call_id code (sip_header (of_ascii ''to'') resp) peer (si_body resp) w)
          else w)"

definition handle_request :: "sip_config \<Rightarrow> sip_env \<Rightarrow> socket_addr \<Rightarrow> sip_message \<Rightarrow> sip_world \<Rightarrow> sip_world" where
  "handle_request cfg env peer req w =
     (case sip_method_of req of
        Some REGISTER \<Rightarrow> handle_register cfg env peer req w
      | Some INVITE \<Rightarrow> handle_invite cfg env peer req w
      | Some ACK \<Rightarrow> w
      | Some BYE \<Rightarrow> handle_bye env peer req w
      | Some CANCEL \<Rightarrow> handle_cancel env peer req w
      | Some OPTIONS \<Rightarrow> respond env req peer 200 ''OK'' w
      | _ \<Rightarrow> respond env req peer 405 ''Method Not Allowed'' w)"

definition handle_datagram :: "sip_config \<Rightarrow> sip_env \<Rightarrow> socket_addr \<Rightarrow> bytes \<Rightarrow> sip_world \<Rightarrow> sip_world" where
  "handle_datagram cfg env peer data w =
     (case sip_parse data of
        None \<Rightarrow> w
      | Some msg \<Rightarrow>
          if is_request msg then handle_request cfg env peer msg w else handle_response cfg env peer msg w)"

section \<open>Outbound trunks\<close>

text \<open>A REGISTER as it is sent from a socket of its own, bound to \<open>local\<close>; \<open>n\<close> is the number of its
  random draws.\<close>

definition register_request ::
  "sip_config \<Rightarrow> sip_env \<Rightarrow> socket_addr \<Rightarrow> rstring \<Rightarrow> rstring \<Rightarrow> rstring \<Rightarrow> u32 \<Rightarrow> nat \<Rightarrow> (rstring \<times> rstring) option
     \<Rightarrow> sip_message" where
  "register_request cfg env local host user call_id cs n auth =
     (let aor = of_ascii ''<sip:'' @ user @ of_ascii ''@'' @ host @ of_ascii ''>'';
          m = fold (\<lambda>(h, v). push_header (of_ascii h) v)
                [(''Via'', of_ascii ''SIP/2.0/UDP '' @ local @ of_ascii '';branch=z9hG4bK'' @ z_hex env n 16),
                 (''Max-Forwards'', of_ascii ''70''),
                 (''From'', aor @ of_ascii '';tag='' @ z_hex env (n + 1) 12),
                 (''To'', aor),
                 (''Call-ID'', call_id),
                 (''CSeq'', decimal (unat cs) @ of_ascii '' REGISTER''),
                 (''Contact'', of_ascii ''<sip:'' @ user @ of_ascii ''@'' @ zc_advertised_host cfg @ of_ascii ''>''),
                 (''Expires'', of_ascii ''300'')]
                (new_request REGISTER (of_ascii ''sip:'' @ host))
      in case auth of Some (h, v) \<Rightarrow> push_header h v m | None \<Rightarrow> m)"

text \<open>The peer's side of a round: the datagram that comes back within three seconds, if any.\<close>

definition register_once :: "(sip_message \<Rightarrow> bytes option) \<Rightarrow> sip_message \<Rightarrow> sip_message option" where
  "register_once ask req = Option.bind (ask req) (\<lambda>data. sip_parse (take 65535 data))"

text \<open>One turn of \<open>outbound_register_loop\<close>, with the number of REGISTERs sent before it and after it.\<close>

definition register_round ::
  "sip_config \<Rightarrow> sip_env \<Rightarrow> socket_addr \<Rightarrow> (sip_message \<Rightarrow> bytes option) \<Rightarrow> rstring \<Rightarrow> trunk_config \<Rightarrow> socket_addr
     \<Rightarrow> u32 \<Rightarrow> sip_state \<Rightarrow> u32 \<times> sip_state" where
  "register_round cfg env local ask name tc peer cs s0 =
     (let host = host_part (tc_remote_host tc); user = trunk_user name tc;
          call_id = name @ of_ascii ''-'' @ z_hex env 0 8;
          status = (\<lambda>st detail. update_trunk_status (ck_ms (z_clock env)) name st detail (Some peer));
          s = status TrunkRegistering (of_ascii ''sending REGISTER'') s0;
          request = register_request cfg env local host user call_id;
          code_of = (\<lambda>r. decimal (unat (case status_code r of Some c \<Rightarrow> c | None \<Rightarrow> 0)))
      in case register_once ask (request cs 1 None) of
           None \<Rightarrow> (cs + 1, status TrunkFailed (of_ascii ''no response'') s)
         | Some r \<Rightarrow>
             if status_code r = Some 200 then (cs + 1, status TrunkUp (of_ascii ''200 OK'') s)
             else if status_code r = Some 401 \<or> status_code r = Some 407 then
               (case (case sip_header (of_ascii ''www-authenticate'') r of
                        Some v \<Rightarrow> Some v | None \<Rightarrow> sip_header (of_ascii ''proxy-authenticate'') r) of
                  None \<Rightarrow> (cs + 1, s)
                | Some header \<Rightarrow>
                    let authz = build_authorization (z_md5 env) (parse_params header) user (tc_password tc)
                          (of_ascii ''REGISTER'') (of_ascii ''sip:'' @ host) (z_hex env 3 16) 1;
                        h = of_ascii (if status_code r = Some 407 then ''Proxy-Authorization'' else ''Authorization'')
                    in (cs + 2,
                        case Option.bind (register_once ask (request (cs + 1) 4 (Some (h, authz)))) status_code of
                          None \<Rightarrow> status TrunkFailed (of_ascii ''no response to auth'') s
                        | Some c \<Rightarrow>
                            if c = 200 then status TrunkUp (of_ascii ''200 OK (auth)'') s
                            else status TrunkFailed (decimal (unat c) @ of_ascii '' after auth'') s))
             else (cs + 1, status TrunkFailed (code_of r) s))"

text \<open>The first step of the loop: an address that does not parse ends it.\<close>

definition start_outbound :: "sip_env \<Rightarrow> rstring \<Rightarrow> trunk_config \<Rightarrow> sip_state \<Rightarrow> socket_addr option \<times> sip_state" where
  "start_outbound env name tc s =
     (case z_addr env (tc_remote_host tc) of
        Some peer \<Rightarrow> (Some peer, s)
      | None \<Rightarrow> (None, update_trunk_status (ck_ms (z_clock env)) name TrunkFailed (of_ascii ''bad remote_host'') None s))"

section \<open>Start\<close>

definition rsplit_once :: "nat \<Rightarrow> rstring \<Rightarrow> (rstring \<times> rstring) option" where
  "rsplit_once c s = map_option (\<lambda>(a, b). (rev b, rev a)) (split_once c (rev s))"

text \<open>A port is cut off a configured host, an IPv6 literal is left alone.\<close>

definition sanitize_advertised_host :: "rstring \<Rightarrow> rstring" where
  "sanitize_advertised_host configured =
     (case rsplit_once (ch CHR '':'') configured of
        Some (host, port) \<Rightarrow>
          if ch CHR '':'' \<notin> set host \<and> parse_uint (2 ^ 16) port \<noteq> None then host else configured
      | None \<Rightarrow> configured)"

text \<open>\<open>detected\<close>: the address of the interface toward the outside, for a wildcard address.\<close>

definition advertised_host :: "sip_config \<Rightarrow> rstring \<Rightarrow> bool \<Rightarrow> rstring \<Rightarrow> rstring" where
  "advertised_host cfg local_ip wildcard detected =
     (if zc_advertised_host cfg = [] then if wildcard then detected else local_ip
      else sanitize_advertised_host (zc_advertised_host cfg))"

definition direction_text :: "trunk_direction \<Rightarrow> rstring" where
  "direction_text d = (case d of Inbound \<Rightarrow> of_ascii ''inbound'' | Outbound \<Rightarrow> of_ascii ''outbound''
     | StaticPeer \<Rightarrow> of_ascii ''peer'')"

definition seed_trunk :: "sip_env \<Rightarrow> rstring \<times> trunk_config \<Rightarrow> sip_state \<Rightarrow> sip_state" where
  "seed_trunk env = (\<lambda>(name, tc). set_trunk
     \<lparr>tk_name = name, tk_direction = direction_text (tc_direction tc), tk_remote_host = tc_remote_host tc,
      tk_status = TrunkDown, tk_peer_addr = z_addr env (tc_remote_host tc), tk_last_event_ms = ck_ms (z_clock env),
      tk_detail = (if tc_enabled tc then of_ascii ''provisioned'' else of_ascii ''disabled''), tk_active_calls = 0\<rparr>)"

definition sip_start :: "sip_config \<Rightarrow> sip_env \<Rightarrow> app \<Rightarrow> sip_world" where
  "sip_start cfg env st =
     \<lparr>w_app = st, w_sip = fold (seed_trunk env) (fm_items (zc_trunks cfg)) empty_sip,
      w_relay = new_relay (zc_rtp_port_min cfg) (zc_rtp_port_max cfg), w_nonces = fmempty, w_relay_tasks = fmempty,
      w_legs = fmempty, w_handshakes = fmempty, w_sent = []\<rparr>"

text \<open>The trunks that get a registration loop.\<close>

definition registers_out :: "trunk_config \<Rightarrow> bool" where
  "registers_out tc \<longleftrightarrow> tc_enabled tc \<and> tc_direction tc = Outbound \<and> tc_remote_host tc \<noteq> []"

end
