(* ===== verification/Sip_World.thy ===== *)
theory Sip_World
  imports Sip_Transport
begin

text \<open>
  The SIP side as a whole.  Every call it counts is carried by exactly one relay task or one bridged
  leg, a radio's answer is only awaited for a call that is bridged, and both hold after any sequence
  of datagrams, radio messages, Brew hang-ups and time-outs.
\<close>

section \<open>What the primitives leave alone\<close>

lemma send_sip_simps [simp]:
  "w_sip (send_sip a m w) = w_sip w" "w_app (send_sip a m w) = w_app w" "w_legs (send_sip a m w) = w_legs w"
  "w_relay_tasks (send_sip a m w) = w_relay_tasks w" "w_handshakes (send_sip a m w) = w_handshakes w"
  "w_relay (send_sip a m w) = w_relay w" "w_nonces (send_sip a m w) = w_nonces w"
  by (simp_all add: send_sip_def)

lemma on_app_simps [simp]:
  "w_sip (on_app f w) = w_sip w" "w_app (on_app f w) = f (w_app w)" "w_legs (on_app f w) = w_legs w"
  "w_relay_tasks (on_app f w) = w_relay_tasks w" "w_handshakes (on_app f w) = w_handshakes w"
  "w_relay (on_app f w) = w_relay w" "w_nonces (on_app f w) = w_nonces w"
  by (simp_all add: on_app_def)

lemma on_sip_simps [simp]:
  "w_sip (on_sip g w) = g (w_sip w)" "w_app (on_sip g w) = w_app w" "w_legs (on_sip g w) = w_legs w"
  "w_relay_tasks (on_sip g w) = w_relay_tasks w" "w_handshakes (on_sip g w) = w_handshakes w"
  "w_relay (on_sip g w) = w_relay w" "w_nonces (on_sip g w) = w_nonces w"
  by (simp_all add: on_sip_def)

lemma respond_simps [simp]:
  "w_sip (respond env req peer c r w) = w_sip w" "w_app (respond env req peer c r w) = w_app w"
  "w_legs (respond env req peer c r w) = w_legs w" "w_relay_tasks (respond env req peer c r w) = w_relay_tasks w"
  "w_handshakes (respond env req peer c r w) = w_handshakes w" "w_nonces (respond env req peer c r w) = w_nonces w"
  "w_relay (respond env req peer c r w) = w_relay w"
  by (simp_all add: respond_def)

lemma challenge_simps [simp]:
  "w_sip (challenge cfg env req peer c r h w) = w_sip w" "w_app (challenge cfg env req peer c r h w) = w_app w"
  "w_legs (challenge cfg env req peer c r h w) = w_legs w" "w_relay_tasks (challenge cfg env req peer c r h w) = w_relay_tasks w"
  "w_handshakes (challenge cfg env req peer c r h w) = w_handshakes w" "w_relay (challenge cfg env req peer c r h w) = w_relay w"
  by (simp_all add: challenge_def new_nonce_def Let_def)

lemma request_authed_simps [simp]:
  "w_sip (snd (request_authed env h p m w)) = w_sip w" "w_app (snd (request_authed env h p m w)) = w_app w"
  "w_legs (snd (request_authed env h p m w)) = w_legs w" "w_relay_tasks (snd (request_authed env h p m w)) = w_relay_tasks w"
  "w_handshakes (snd (request_authed env h p m w)) = w_handshakes w" "w_relay (snd (request_authed env h p m w)) = w_relay w"
  by (simp_all add: request_authed_def nonce_valid_def Let_def split: option.split)

lemma alloc_world_leg_simps [simp]:
  "w_sip (snd (alloc_world_leg env w)) = w_sip w" "w_app (snd (alloc_world_leg env w)) = w_app w"
  "w_legs (snd (alloc_world_leg env w)) = w_legs w" "w_relay_tasks (snd (alloc_world_leg env w)) = w_relay_tasks w"
  "w_handshakes (snd (alloc_world_leg env w)) = w_handshakes w"
  by (simp_all add: alloc_world_leg_def split: prod.split)

lemma alloc_pair_simps [simp]:
  "w_sip (snd (alloc_pair env offer w)) = w_sip w" "w_app (snd (alloc_pair env offer w)) = w_app w"
  "w_legs (snd (alloc_pair env offer w)) = w_legs w" "w_relay_tasks (snd (alloc_pair env offer w)) = w_relay_tasks w"
  "w_handshakes (snd (alloc_pair env offer w)) = w_handshakes w"
  by (simp_all add: alloc_pair_def split: prod.split)
    (metis alloc_world_leg_simps snd_conv)+

lemma teardown_simps [simp]:
  "w_sip (teardown env cid w) = w_sip w" "w_legs (teardown env cid w) = fmdrop cid (w_legs w)"
  "w_relay_tasks (teardown env cid w) = w_relay_tasks w"
  by (auto simp: teardown_def split: option.split intro: fmap_ext)

lemma send_stored_bye_simps [simp]:
  "w_sip (send_stored_bye cfg env cid w) = w_sip w" "w_app (send_stored_bye cfg env cid w) = w_app w"
  "w_legs (send_stored_bye cfg env cid w) = w_legs w" "w_relay_tasks (send_stored_bye cfg env cid w) = w_relay_tasks w"
  "w_handshakes (send_stored_bye cfg env cid w) = w_handshakes w"
  by (simp_all add: send_stored_bye_def send_bye_def split: option.split)

lemma calls_dom [simp]:
  "fmdom (sp_calls (sip_end_call cid s)) = fmdom (sp_calls s) |-| {|cid|}"
  "fmdom (sp_calls (answer_call now cid s)) = fmdom (sp_calls s)"
  "fmdom (sp_calls (set_call_rtp cid a b s)) = fmdom (sp_calls s)"
  "fmdom (sp_calls (track_media cid n s)) = fmdom (sp_calls s)"
  "fmdom (sp_calls (start_call c s)) = finsert (sk_call_id c) (fmdom (sp_calls s))"
  "fmdom (sp_calls (update_trunk_status now nm st d p s)) = fmdom (sp_calls s)"
  "fmdom (sp_calls (snd (upsert_registration r s))) = fmdom (sp_calls s)"
  "fmdom (sp_calls (remove_registration aor s)) = fmdom (sp_calls s)"
  "fmdom (sp_calls (purge_expired now s)) = fmdom (sp_calls s)"
  by (auto simp: sip_end_call_def answer_call_def set_call_rtp_def track_media_def start_call_def update_trunk_status_def
      upsert_registration_def remove_registration_def purge_expired_def Let_def fmdom_notI split: option.split)

section \<open>Calls and what carries them\<close>

text \<open>\<open>sip_ok\<close>: a counted call has one carrier, and a pending handshake belongs to a bridged leg.
  \<open>sip_pending cid\<close>: so it is but for the call \<open>cid\<close>, which is counted and not carried yet.\<close>

definition carried :: "sip_world \<Rightarrow> rstring fset" where
  "carried w = fmdom (w_relay_tasks w) |\<union>| fmdom (w_legs w)"

definition handshakes_ok :: "sip_world \<Rightarrow> bool" where
  "handshakes_ok w \<longleftrightarrow> (\<forall>uid h. fmlookup (w_handshakes w) uid = Some h \<longrightarrow>
     map_option bl_brew_call_id (fmlookup (w_legs w) (hs_call_id h)) = Some uid)"

definition one_carrier :: "sip_world \<Rightarrow> bool" where
  "one_carrier w \<longleftrightarrow> fmdom (w_relay_tasks w) |\<inter>| fmdom (w_legs w) = {||}"

definition sip_ok :: "sip_world \<Rightarrow> bool" where
  "sip_ok w \<longleftrightarrow> fmdom (sp_calls (w_sip w)) = carried w \<and> one_carrier w \<and> handshakes_ok w"

definition sip_pending :: "rstring \<Rightarrow> sip_world \<Rightarrow> bool" where
  "sip_pending cid w \<longleftrightarrow> fmdom (sp_calls (w_sip w)) = finsert cid (carried w) \<and> cid |\<notin>| carried w
     \<and> one_carrier w \<and> handshakes_ok w"

lemmas sip_ok_defs = sip_ok_def sip_pending_def carried_def one_carrier_def

text \<open>Both depend on four things only.\<close>

definition shape :: "sip_world \<Rightarrow> rstring fset \<times> rstring fset \<times> (rstring, uuid) fmap \<times> (uuid, rstring) fmap" where
  "shape w = (fmdom (sp_calls (w_sip w)), fmdom (w_relay_tasks w), fmmap bl_brew_call_id (w_legs w),
     fmmap hs_call_id (w_handshakes w))"

lemma handshakes_ok_shape:
  "handshakes_ok w \<longleftrightarrow> (\<forall>uid cid. fmlookup (fmmap hs_call_id (w_handshakes w)) uid = Some cid \<longrightarrow>
     fmlookup (fmmap bl_brew_call_id (w_legs w)) cid = Some uid)"
  by (auto simp: handshakes_ok_def)

lemma shape_eq:
  assumes "shape w' = shape w"
  shows "sip_ok w' \<longleftrightarrow> sip_ok w" "sip_pending cid w' \<longleftrightarrow> sip_pending cid w"
proof -
  from assms have calls: "fmdom (sp_calls (w_sip w')) = fmdom (sp_calls (w_sip w))"
    and tasks: "fmdom (w_relay_tasks w') = fmdom (w_relay_tasks w)"
    and legs: "fmmap bl_brew_call_id (w_legs w') = fmmap bl_brew_call_id (w_legs w)"
    and hands: "fmmap hs_call_id (w_handshakes w') = fmmap hs_call_id (w_handshakes w)"
    by (simp_all add: shape_def)
  have dom: "fmdom (w_legs w') = fmdom (w_legs w)" using arg_cong [OF legs, of fmdom] by simp
  have "handshakes_ok w' = handshakes_ok w" unfolding handshakes_ok_shape legs hands ..
  then show "sip_ok w' \<longleftrightarrow> sip_ok w" "sip_pending cid w' \<longleftrightarrow> sip_pending cid w"
    unfolding sip_ok_defs calls tasks dom by simp_all
qed

lemma shape_keeps: "shape w' = shape w \<Longrightarrow> sip_ok w \<Longrightarrow> sip_ok w'"
  using shape_eq(1) by blast

lemma fmmap_update_same: "(\<And>v. g (f v) = g v) \<Longrightarrow> fmmap g (fm_update k f m) = fmmap g m"
  by (intro fmap_ext) (auto simp: fm_update_def split: option.split)

lemma shape_mark: "(\<And>l. bl_brew_call_id (f l) = bl_brew_call_id l) \<Longrightarrow> shape (mark_leg cid f w) = shape w"
  by (simp add: shape_def mark_leg_def fmmap_update_same)

lemma shape_simps [simp]:
  "shape (send_sip a m w) = shape w" "shape (on_app f w) = shape w" "shape (respond env req peer c r w) = shape w"
  "shape (challenge cfg env req peer c r h w) = shape w" "shape (snd (request_authed env auth p meth w)) = shape w"
  "shape (on_sip (answer_call now cid) w) = shape w"
  "shape (on_sip (update_trunk_status now nm st d p') w) = shape w"
  by (simp_all add: shape_def)

lemma shape_pending_media [simp]: "shape (start_pending_media env cid body w) = shape w"
proof -
  have "fmmap bl_brew_call_id (fmupd cid l' (w_legs w)) = fmmap bl_brew_call_id (w_legs w)"
    if "fmlookup (w_legs w) cid = Some l" "bl_brew_call_id l' = bl_brew_call_id l" for l l'
    using that by (intro fmap_ext) auto
  then show ?thesis by (auto simp: start_pending_media_def shape_def split: option.split prod.split)
qed

section \<open>Ending\<close>

lemma handshakes_teardown:
  assumes "handshakes_ok w" shows "handshakes_ok (teardown env cid w)"
proof (cases "fmlookup (w_legs w) cid")
  case (Some leg)
  then have hs: "w_handshakes (teardown env cid w) = fmdrop (bl_brew_call_id leg) (w_handshakes w)"
    by (simp add: teardown_def)
  show ?thesis
    unfolding handshakes_ok_def
  proof (intro allI impI)
    fix uid h assume "fmlookup (w_handshakes (teardown env cid w)) uid = Some h"
    then have "uid \<noteq> bl_brew_call_id leg" and h: "fmlookup (w_handshakes w) uid = Some h"
      by (simp_all add: hs split: if_splits)
    moreover have "map_option bl_brew_call_id (fmlookup (w_legs w) (hs_call_id h)) = Some uid"
      using assms h by (simp add: handshakes_ok_def)
    ultimately show "map_option bl_brew_call_id (fmlookup (w_legs (teardown env cid w)) (hs_call_id h)) = Some uid"
      using Some by auto
  qed
qed (use assms in \<open>simp add: teardown_def\<close>)

text \<open>Ending a call without a relay task, or with the task taken out first.\<close>

lemma sip_ok_teardown:
  assumes "sip_ok w" "cid |\<notin>| fmdom (w_relay_tasks w)"
  shows "sip_ok (on_sip (sip_end_call cid) (teardown env cid w))"
proof -
  have "handshakes_ok (on_sip (sip_end_call cid) (teardown env cid w)) = handshakes_ok (teardown env cid w)"
    by (simp add: handshakes_ok_def)
  then show ?thesis using assms handshakes_teardown [of w env cid] by (auto simp: sip_ok_defs)
qed

lemma sip_ok_end_task:
  assumes "sip_ok w"
  shows "sip_ok (on_sip (sip_end_call cid) (teardown env cid (w\<lparr>w_relay_tasks := fmdrop cid (w_relay_tasks w)\<rparr>)))"
proof -
  let ?w = "w\<lparr>w_relay_tasks := fmdrop cid (w_relay_tasks w)\<rparr>"
  have "handshakes_ok ?w" using assms by (simp add: sip_ok_def handshakes_ok_def)
  then have "handshakes_ok (on_sip (sip_end_call cid) (teardown env cid ?w))"
    using handshakes_teardown [of ?w env cid] by (simp add: handshakes_ok_def)
  then show ?thesis using assms by (auto simp: sip_ok_defs)
qed

lemma sip_ok_drop_call: "sip_ok w \<Longrightarrow> sip_ok (drop_call env cid w)"
  unfolding drop_call_def by (rule sip_ok_end_task)

lemma sip_ok_bye: "sip_ok w \<Longrightarrow> sip_ok (handle_bye env peer req w)" "sip_ok w \<Longrightarrow> sip_ok (handle_cancel env peer req w)"
  unfolding handle_bye_def handle_cancel_def by (simp_all add: shape_eq [OF shape_simps(3)] sip_ok_drop_call)

lemma sip_ok_force_end: assumes "sip_ok w" shows "sip_ok (force_end_sip cfg env cid w)"
proof -
  let ?d = "\<lambda>w. w\<lparr>w_relay_tasks := fmdrop cid (w_relay_tasks w)\<rparr>"
  have swap: "send_stored_bye cfg env cid (?d w) = ?d (send_stored_bye cfg env cid w)"
    by (auto simp: send_stored_bye_def send_bye_def send_sip_def split: option.split)
  have "sip_ok (send_stored_bye cfg env cid w)"
    by (rule shape_keeps [OF _ assms]) (simp add: shape_def)
  from sip_ok_end_task [OF this] show ?thesis
    unfolding force_end_sip_def force_end_bridged_def swap by simp
qed

lemma sip_ok_sweep: assumes "sip_ok w" shows "sip_ok (sip_sweep cfg env idle rx w)"
proof -
  have "sip_ok (fold (force_end_sip cfg env) cids w)" for cids
    using assms by (induction cids arbitrary: w) (simp_all add: sip_ok_force_end)
  then show ?thesis by (simp add: sip_sweep_def)
qed

lemma leg_of_brew_call_leg:
  assumes "leg_of_brew_call uid w = Some cid" shows "cid |\<in>| fmdom (w_legs w)"
proof -
  from assms obtain l where "find (\<lambda>(_, l). bl_brew_call_id l = uid) (fm_items (w_legs w)) = Some (cid, l)"
    by (auto simp: leg_of_brew_call_def)
  then have "(cid, l) \<in> set (fm_items (w_legs w))" by (metis find_Some_iff nth_mem)
  then show ?thesis by (auto simp: fm_items_def sorted_list_of_fset.rep_eq)
qed

lemma sip_ok_brew_ended: assumes "sip_ok w" shows "sip_ok (teardown_by_brew_call cfg env uid w)"
proof (cases "leg_of_brew_call uid w")
  case (Some cid)
  have ok: "sip_ok (send_stored_bye cfg env cid w)" by (rule shape_keeps [OF _ assms]) (simp add: shape_def)
  have "cid |\<notin>| fmdom (w_relay_tasks w)"
    using leg_of_brew_call_leg [OF Some] assms by (auto simp: sip_ok_defs)
  then show ?thesis using Some sip_ok_teardown [OF ok, of cid env] by (simp add: teardown_by_brew_call_def)
qed (simp add: teardown_by_brew_call_def assms)

section \<open>Taking a call\<close>

lemma shape_notes [simp]:
  "shape (note_leg cid leg w) = shape w" "shape (note_pair cid a b w) = shape w"
  "shape (snd (alloc_world_leg env w)) = shape w" "shape (snd (alloc_pair env offer w)) = shape w"
  by (simp_all add: shape_def note_leg_def note_pair_def)

lemma pending_start:
  assumes "sip_ok w" "sk_call_id call |\<notin>| fmdom (sp_calls (w_sip w))"
  shows "sip_pending (sk_call_id call) (on_sip (start_call call) w)"
proof -
  have "handshakes_ok (on_sip (start_call call) w) = handshakes_ok w" by (simp add: handshakes_ok_def)
  then show ?thesis using assms by (simp add: sip_ok_defs)
qed

lemma pending_refuse: assumes "sip_pending cid w" shows "sip_ok (refuse tag req caller code reason cid w)"
proof -
  have "handshakes_ok (refuse tag req caller code reason cid w) = handshakes_ok w"
    by (simp add: handshakes_ok_def refuse_def)
  then show ?thesis using assms by (auto simp: sip_ok_defs refuse_def)
qed

lemma pending_task:
  assumes "sip_pending cid w" shows "sip_ok (w\<lparr>w_relay_tasks := fmupd cid legs (w_relay_tasks w)\<rparr>)"
proof -
  have "handshakes_ok (w\<lparr>w_relay_tasks := fmupd cid legs (w_relay_tasks w)\<rparr>) = handshakes_ok w"
    by (simp add: handshakes_ok_def)
  then show ?thesis using assms by (auto simp: sip_ok_defs)
qed

lemma pending_leg:
  assumes "sip_pending cid w" shows "sip_ok (w\<lparr>w_legs := fmupd cid l (w_legs w)\<rparr>)"
proof -
  have "fmlookup (w_legs w) cid = None" using assms by (auto simp: sip_ok_defs fmlookup_dom_iff)
  then have "handshakes_ok (w\<lparr>w_legs := fmupd cid l (w_legs w)\<rparr>)"
    using assms by (fastforce simp: sip_pending_def handshakes_ok_def)
  then show ?thesis using assms by (auto simp: sip_ok_defs)
qed

lemma sip_ok_handshake:
  assumes "sip_ok w" "fmlookup (w_legs w) (hs_call_id h) = Some l" "bl_brew_call_id l = uid"
  shows "sip_ok (w\<lparr>w_handshakes := fmupd uid h (w_handshakes w)\<rparr>)"
proof -
  have "handshakes_ok (w\<lparr>w_handshakes := fmupd uid h (w_handshakes w)\<rparr>)"
    using assms by (auto simp: sip_ok_def handshakes_ok_def)
  then show ?thesis using assms(1) by (simp add: sip_ok_defs)
qed

lemma sip_ok_handshake_over:
  "sip_ok w \<Longrightarrow> sip_ok (handshake_over uid w)"
  by (auto simp: sip_ok_defs handshakes_ok_def handshake_over_def)

lemma pending_keeps: "shape w' = shape w \<Longrightarrow> sip_pending cid w \<Longrightarrow> sip_pending cid w'"
  using shape_eq(2) by blast

lemma pending_alloc:
  "sip_pending cid w \<Longrightarrow> alloc_world_leg env w = (r, w1) \<Longrightarrow> sip_pending cid w1"
  "sip_pending cid w \<Longrightarrow> alloc_pair env offer w = (r', w1) \<Longrightarrow> sip_pending cid w1"
  using pending_keeps [of w1 w cid] shape_notes(3) [of env w] shape_notes(4) [of env offer w] by simp_all

lemma pending_private:
  assumes "sip_pending cid w" shows "sip_ok (sip_to_brew_private cfg env caller req issi offer payloads cid w)"
proof -
  have placed: "sip_ok (w2\<lparr>w_legs := fmupd cid (answered_leg vc uid None task bye) ls, w_handshakes := fmupd uid h hs\<rparr>)"
    if "sip_pending cid w2" "hs_call_id h = cid" "ls = w_legs w2" "hs = w_handshakes w2" for w2 vc uid task bye h ls hs
    using sip_ok_handshake [OF pending_leg [OF that(1), of "answered_leg vc uid None task bye"], of h _ uid] that(2-)
    by (simp add: answered_leg_def)
  have ringing: "sip_pending cid (on_app f (note_leg cid leg w1))"
    if "sip_pending cid w1" for f leg w1 using that by (rule pending_keeps [rotated]) simp
  show ?thesis
    using assms
    by (auto simp: sip_to_brew_private_def Let_def pending_refuse intro!: placed ringing
        dest: pending_alloc split: option.split prod.split)
qed

lemma pending_group:
  assumes "sip_pending cid w" shows "sip_ok (sip_to_brew_group cfg env caller req gssi offer payloads cid w)"
proof -
  have placed: "sip_ok (on_sip (answer_call now cid) (send_sip caller ok
      (w2\<lparr>w_legs := fmupd cid l ls\<rparr>)))" if "sip_pending cid w2" "ls = w_legs w2" for now ok w2 l ls
    unfolding that(2) by (rule shape_keeps [OF _ pending_leg [OF that(1), of l]]) simp
  have ringing: "sip_pending cid (on_app f (note_leg cid leg w1))"
    if "sip_pending cid w1" for f leg w1 using that by (rule pending_keeps [rotated]) simp
  show ?thesis
    using assms
    by (auto simp: sip_to_brew_group_def Let_def pending_refuse intro!: placed ringing
        dest: pending_alloc split: option.split prod.split)
qed

lemma pending_connect:
  assumes "sip_pending cid w"
  shows "sip_ok (connect_pair cfg env caller req invite callee legs payloads cid (note_pair cid a b w))"
proof -
  have "sip_pending cid (note_pair cid a b w)" by (rule pending_keeps [OF _ assms]) simp
  from pending_task [OF this, of legs] show ?thesis
    unfolding connect_pair_def Let_def by (rule shape_keeps [rotated]) simp
qed

lemma pending_dispatch:
  assumes "sip_pending cid w" "\<And>uri. dest \<noteq> LegExternal uri"
  shows "sip_ok (dispatch_invite cfg env peer req dest offer payloads cid w)"
  using assms
  by (auto simp: dispatch_invite_def terminate_to_extension_def terminate_to_trunk_def Let_def pending_refuse
      pending_private pending_group intro!: pending_connect dest: pending_alloc
      split: leg_endpoint.split option.split prod.split)

lemma invite_origin_shape:
  "invite_origin cfg env peer req w = Inl w1 \<Longrightarrow> shape w1 = shape w"
  "invite_origin cfg env peer req w = Inr (origin, w1) \<Longrightarrow> shape w1 = shape w \<and> w_sip w1 = w_sip w \<and> w_app w1 = w_app w"
  by (auto simp: invite_origin_def Let_def split: option.splits if_splits prod.splits)
    (metis request_authed_simps shape_simps snd_conv)+

lemma sip_ok_invite:
  assumes "sip_ok w" "request_call_id req |\<notin>| fmdom (sp_calls (w_sip w))"
  shows "sip_ok (handle_invite cfg env peer req w)"
proof -
  let ?w = "respond env req peer 100 ''Trying'' w"
  show ?thesis
  proof (cases "invite_origin cfg env peer req ?w")
    case (Inl w1)
    then show ?thesis using assms(1) invite_origin_shape(1) [OF Inl]
      by (simp add: handle_invite_def shape_keeps [of w1 w])
  next
    case (Inr a)
    then obtain origin w1 where org: "invite_origin cfg env peer req ?w = Inr (origin, w1)" by (cases a) simp
    note keeps = invite_origin_shape(2) [OF org]
    have ok: "sip_ok w1" using keeps assms(1) by (simp add: shape_keeps [of w1 w])
    show ?thesis
    proof (cases "resolve (zc_routes cfg) origin (or_empty (uri_user (header_uri ''to'' req)))")
      case None
      then show ?thesis using ok org by (simp add: handle_invite_def Let_def shape_eq [OF shape_simps(3)])
    next
      case (Some dr)
      then obtain dest r where dr: "resolve (zc_routes cfg) origin (or_empty (uri_user (header_uri ''to'' req))) = Some (dest, r)"
        by (cases dr) simp
      show ?thesis
      proof (cases "sdp_parse (si_body req)")
        case None
        then show ?thesis using ok org dr by (simp add: handle_invite_def Let_def shape_eq [OF shape_simps(3)])
      next
        case (Some offer)
        have "sip_ok (dispatch_invite cfg env peer req dest offer pay (sk_call_id call) (on_sip (start_call call) w1))"
          if "sk_call_id call = request_call_id req" for call pay
          using resolve_not_external dr ok keeps assms(2) that
          by (intro pending_dispatch pending_start) auto
        then show ?thesis using org dr Some by (simp add: handle_invite_def Let_def)
      qed
    qed
  qed
qed

section \<open>Answers\<close>

lemma sip_ok_end_leg:
  assumes "sip_ok w" "fmlookup (w_legs w) cid = Some leg"
  shows "sip_ok (on_sip (sip_end_call cid) (teardown env cid w))"
proof -
  have "cid |\<in>| fmdom (w_legs w)" using assms(2) by (rule fmdomI)
  then have "cid |\<notin>| fmdom (w_relay_tasks w)" using assms(1) by (auto simp: sip_ok_defs)
  then show ?thesis by (rule sip_ok_teardown [OF assms(1)])
qed

lemma sip_ok_response: assumes "sip_ok w" shows "sip_ok (on_sip_response cfg env cid code th peer body w)"
proof (cases "fmlookup (w_legs w) cid")
  case (Some leg)
  have mark: "shape (mark_leg cid f w1) = shape w1" if "\<And>l. bl_brew_call_id (f l) = bl_brew_call_id l" for f w1
    using that by (rule shape_mark)
  have rest: "sip_ok (on_app g (mark_leg cid (\<lambda>l. l\<lparr>bl_rang := True\<rparr>) w))"
    "sip_ok (send_ack cfg env cid d th peer (start_pending_media env cid body
       (on_sip (answer_call now cid) (on_app g (mark_leg cid (\<lambda>l. l\<lparr>bl_connected := True\<rparr>) w)))))"
    "sip_ok (start_pending_media env cid body
       (on_sip (answer_call now cid) (on_app g (mark_leg cid (\<lambda>l. l\<lparr>bl_connected := True\<rparr>) w))))" for g d now
    by (rule shape_keeps [OF _ assms]; simp add: send_ack_def mark)+
  have failed: "sip_ok (on_sip (sip_end_call cid) (teardown env cid (on_app g (mark_leg cid (\<lambda>l. l\<lparr>bl_connected := True\<rparr>) w))))"
    for g
  proof (rule sip_ok_end_leg)
    show "sip_ok (on_app g (mark_leg cid (\<lambda>l. l\<lparr>bl_connected := True\<rparr>) w))" by (rule shape_keeps [OF _ assms]) (simp add: mark)
    show "fmlookup (w_legs (on_app g (mark_leg cid (\<lambda>l. l\<lparr>bl_connected := True\<rparr>) w))) cid = Some (leg\<lparr>bl_connected := True\<rparr>)"
      using Some by (simp add: mark_leg_def fm_update_def)
  qed
  show ?thesis using Some assms rest failed
    by (simp add: on_sip_response_def Let_def split: option.split)
qed (simp add: on_sip_response_def assms)

lemma sip_ok_control: assumes "sip_ok w" shows "sip_ok (private_control env uid raw w)"
proof (cases "fmlookup (w_handshakes w) uid")
  case (Some h)
  obtain leg where leg: "fmlookup (w_legs w) (hs_call_id h) = Some leg" "bl_brew_call_id leg = uid"
    using assms Some by (auto simp: sip_ok_def handshakes_ok_def)
  have rang: "sip_ok (send_sip a m (w\<lparr>w_handshakes := fmupd uid (h\<lparr>hs_rang := True\<rparr>) (w_handshakes w)\<rparr>))" for a m
    using leg by (intro shape_keeps [OF shape_simps(1)] sip_ok_handshake [OF assms]) simp_all
  have answered: "sip_ok (handshake_over uid (on_sip (answer_call now (hs_call_id h)) (send_sip a m (on_app g w))))"
    "sip_ok (handshake_over uid (on_sip (answer_call now (hs_call_id h)) (send_sip a m w)))" for now a m g
    by (intro sip_ok_handshake_over shape_keeps [OF _ assms]; simp)+
  have refused: "sip_ok (on_sip (sip_end_call (hs_call_id h)) (teardown env (hs_call_id h) (send_sip a m w)))" for a m
  proof (rule sip_ok_end_leg)
    show "sip_ok (send_sip a m w)" by (rule shape_keeps [OF _ assms]) simp
    show "fmlookup (w_legs (send_sip a m w)) (hs_call_id h) = Some leg" using leg by simp
  qed
  show ?thesis
    using assms by (simp add: private_control_def Some Let_def rang answered refused sip_ok_handshake_over split: option.split)
qed (simp add: private_control_def assms)

lemma sip_ok_place:
  assumes "sip_ok w" "cid |\<notin>| fmdom (sp_calls (w_sip w))"
  shows "sip_ok (place_outbound cfg env cid from_leg to_leg uri addr link w)"
proof (cases "alloc_world_leg env w")
  case (Pair r w1)
  have ok: "sip_ok w1" and fresh: "cid |\<notin>| fmdom (sp_calls (w_sip w1))"
    using shape_keeps [OF shape_notes(3) assms(1), of env] alloc_world_leg_simps(1) [of env w] assms(2) Pair by simp_all
  have placed: "sip_ok (send_sip addr invite ((on_app f (on_sip (track_media cid n \<circ> start_call call) w1))
      \<lparr>w_legs := fmupd cid l ls\<rparr>))"
    if "sk_call_id call = cid" "ls = w_legs w1" for invite f n call l ls
  proof -
    have "sip_pending cid (on_sip (start_call call) w1)" using pending_start [OF ok] fresh that by auto
    moreover have "shape (on_app f (on_sip (track_media cid n \<circ> start_call call) w1)) = shape (on_sip (start_call call) w1)"
      by (simp add: shape_def)
    ultimately have "sip_pending cid (on_app f (on_sip (track_media cid n \<circ> start_call call) w1))"
      using pending_keeps by blast
    from pending_leg [OF this, of l] show ?thesis using that(2) shape_keeps [OF shape_simps(1)] by simp
  qed
  show ?thesis
    unfolding place_outbound_def Pair Let_def by (auto simp: ok intro!: placed split: option.split)
qed

lemma sip_ok_brew_to_sip:
  assumes "sip_ok w" "of_ascii ''brew-'' @ uuid_simple (z_uuid env 0) |\<notin>| fmdom (sp_calls (w_sip w))"
  shows "sip_ok (snd (brew_to_sip cfg env origin dialled link w))"
  using assms by (auto simp: brew_to_sip_def Let_def sip_ok_place split: option.split prod.split leg_endpoint.split)

section \<open>The SIP state moves by its own steps\<close>

lemma moves:
  "sip_step\<^sup>*\<^sup>* s t \<Longrightarrow> sip_step\<^sup>*\<^sup>* s (answer_call now cid t)"
  "sip_step\<^sup>*\<^sup>* s t \<Longrightarrow> sip_step\<^sup>*\<^sup>* s (set_call_rtp cid a b t)"
  "sip_step\<^sup>*\<^sup>* s t \<Longrightarrow> sip_step\<^sup>*\<^sup>* s (track_media cid n t)"
  "sip_step\<^sup>*\<^sup>* s t \<Longrightarrow> sip_step\<^sup>*\<^sup>* s (sip_end_call cid t)"
  "sip_step\<^sup>*\<^sup>* s t \<Longrightarrow> sip_step\<^sup>*\<^sup>* s (update_trunk_status now nm st d p t)"
  "sip_step\<^sup>*\<^sup>* s t \<Longrightarrow> sip_step\<^sup>*\<^sup>* s (snd (upsert_registration r t))"
  "sip_step\<^sup>*\<^sup>* s t \<Longrightarrow> sip_step\<^sup>*\<^sup>* s (remove_registration aor t)"
  "sip_step\<^sup>*\<^sup>* s t \<Longrightarrow> sip_step\<^sup>*\<^sup>* s (purge_expired now t)"
  by (blast intro: rtranclp.rtrancl_into_rtrancl sip_step.intros)+

lemma w_sip_notes [simp]:
  "w_sip (note_leg cid leg w) = track_media cid (leg_clock leg) (set_call_rtp cid (Some (rt_local_port leg)) None (w_sip w))"
  "w_sip (note_pair cid a b w) = track_media cid (leg_clock b) (track_media cid (leg_clock a)
     (set_call_rtp cid (Some (rt_local_port a)) (Some (rt_local_port b)) (w_sip w)))"
  "w_sip (refuse tag req caller code reason cid w) = sip_end_call cid (w_sip w)"
  "w_sip (start_pending_media env cid body w) = w_sip w" "w_sip (mark_leg cid f w) = w_sip w"
  "w_sip (send_ack cfg env cid d th peer w) = w_sip w" "w_sip (handshake_over uid w) = w_sip w"
  by (auto simp: note_leg_def note_pair_def refuse_def start_pending_media_def mark_leg_def send_ack_def handshake_over_def
      split: option.split prod.split)

lemma w_sip_alloc: "alloc_world_leg env w = (r, w1) \<Longrightarrow> w_sip w1 = w_sip w" "alloc_pair env offer w = (q, w1) \<Longrightarrow> w_sip w1 = w_sip w"
  using alloc_world_leg_simps(1) [of env w] alloc_pair_simps(1) [of env offer w] by simp_all

lemma dispatch_moves: "sip_step\<^sup>*\<^sup>* (w_sip w) (w_sip (dispatch_invite cfg env peer req dest offer payloads cid w))"
  by (auto simp: dispatch_invite_def terminate_to_extension_def terminate_to_trunk_def sip_to_brew_private_def
      sip_to_brew_group_def connect_pair_def Let_def w_sip_alloc intro!: moves
      split: leg_endpoint.split option.split prod.split)

definition room_for_call :: "sip_world \<Rightarrow> bool" where
  "room_for_call w \<longleftrightarrow> 2 * fcard (fmdom (sp_calls (w_sip w))) + 2 < 2 ^ 32"

lemma begun_move: "sk_call_id call |\<notin>| fmdom (sp_calls (w_sip w)) \<Longrightarrow> room_for_call w \<Longrightarrow> sip_step (w_sip w) (start_call call (w_sip w))"
  by (rule sip_step.begun) (simp_all add: fmdom_notD room_for_call_def)

lemma invite_moves:
  assumes "request_call_id req |\<notin>| fmdom (sp_calls (w_sip w))" "room_for_call w"
  shows "sip_step\<^sup>*\<^sup>* (w_sip w) (w_sip (handle_invite cfg env peer req w))"
proof -
  let ?w = "respond env req peer 100 ''Trying'' w"
  have refused: "w_sip w1 = w_sip w" if "invite_origin cfg env peer req ?w = Inl w1" for w1
    using that by (auto simp: invite_origin_def Let_def split: option.splits if_splits prod.splits)
      (metis request_authed_simps(1) respond_simps(1) snd_conv)+
  have taken: "sip_step\<^sup>*\<^sup>* (w_sip w) (w_sip (dispatch_invite cfg env peer req dest offer pay cid (on_sip (start_call call) w1)))"
    if "w_sip w1 = w_sip w" "sk_call_id call = request_call_id req" for w1 call dest offer pay cid
  proof -
    have "sip_step (w_sip w) (w_sip (on_sip (start_call call) w1))" using begun_move [of call w] assms that by simp
    then show ?thesis using dispatch_moves by (rule converse_rtranclp_into_rtranclp)
  qed
  show ?thesis
    by (auto simp: handle_invite_def Let_def refused taken dest!: invite_origin_shape(2)
        split: sum.split option.split prod.split)
qed

lemma teardown_moves: "sip_step\<^sup>*\<^sup>* (w_sip w) (w_sip (on_sip (sip_end_call cid) (teardown env cid w)))"
  by (auto intro!: moves)

lemma control_moves: "sip_step\<^sup>*\<^sup>* (w_sip w) (w_sip (private_control env uid raw w))"
  by (auto simp: private_control_def Let_def intro!: moves split: option.split)

lemma response_moves: "sip_step\<^sup>*\<^sup>* (w_sip w) (w_sip (on_sip_response cfg env cid code th peer body w))"
  by (auto simp: on_sip_response_def Let_def intro!: moves split: option.split)

lemma sweep_moves: "sip_step\<^sup>*\<^sup>* (w_sip w) (w_sip (sip_sweep cfg env idle rx w))"
proof -
  have "sip_step\<^sup>*\<^sup>* (w_sip w) (w_sip (fold (force_end_sip cfg env) cids v))" if "sip_step\<^sup>*\<^sup>* (w_sip w) (w_sip v)" for cids v
    using that by (induction cids arbitrary: v) (simp_all add: force_end_sip_def force_end_bridged_def moves)
  then show ?thesis by (simp add: sip_sweep_def)
qed

lemma register_moves: "sip_step\<^sup>*\<^sup>* (w_sip w) (w_sip (handle_register cfg env peer req w))"
proof -
  have "w_sip w1 = w_sip w" if "request_authed env h p m w = (b, w1)" for h p m b w1
    using that request_authed_simps(1) [of env h p m w] by simp
  then show ?thesis
    by (auto simp: handle_register_def bind_contact_def Let_def intro!: moves split: option.split prod.split)
qed

lemma brew_call_moves:
  assumes "of_ascii ''brew-'' @ uuid_simple (z_uuid env 0) |\<notin>| fmdom (sp_calls (w_sip w))" "room_for_call w"
  shows "sip_step\<^sup>*\<^sup>* (w_sip w) (w_sip (snd (brew_to_sip cfg env origin dialled link w)))"
proof -
  have "sip_step\<^sup>*\<^sup>* (w_sip w) (start_call call (w_sip w))"
    if "sk_call_id call = of_ascii ''brew-'' @ uuid_simple (z_uuid env 0)" for call
    using begun_move [of call w] assms that by auto
  then show ?thesis
    by (auto simp: brew_to_sip_def place_outbound_def Let_def w_sip_alloc intro!: moves
        split: option.split prod.split leg_endpoint.split)
qed

section \<open>Whole executions\<close>

text \<open>A turn of the SIP side.  An INVITE comes under a Call-ID that no call in progress has.\<close>

definition new_invite :: "bytes \<Rightarrow> sip_world \<Rightarrow> bool" where
  "new_invite data w \<longleftrightarrow> (case sip_parse data of
     Some m \<Rightarrow> sip_method_of m = Some INVITE \<longrightarrow> request_call_id m |\<notin>| fmdom (sp_calls (w_sip w)) | None \<Rightarrow> True)"

inductive sip_turn :: "sip_config \<Rightarrow> sip_world \<Rightarrow> sip_world \<Rightarrow> bool" for cfg where
  datagram: "new_invite data w \<Longrightarrow> room_for_call w \<Longrightarrow> sip_turn cfg w (handle_datagram cfg env peer data w)"
| radio: "sip_turn cfg w (private_control env uid raw w)"
| brew_ended: "sip_turn cfg w (teardown_by_brew_call cfg env uid w)"
| brew_called: "of_ascii ''brew-'' @ uuid_simple (z_uuid env 0) |\<notin>| fmdom (sp_calls (w_sip w)) \<Longrightarrow> room_for_call w \<Longrightarrow>
    sip_turn cfg w (snd (brew_to_sip cfg env origin dialled link w))"
| timed: "sip_turn cfg w (sip_sweep cfg env idle rx w)"
| expired: "sip_turn cfg w (on_sip (purge_expired now) w)"
| trunk_started: "sip_turn cfg w (on_sip (\<lambda>s. snd (start_outbound env nm tc s)) w)"
| trunk_round: "sip_turn cfg w (on_sip (\<lambda>s. snd (register_round cfg env local ask nm tc p cs s)) w)"
| brew_moved: "sip_turn cfg w (on_app f w)"

lemma round_calls:
  "fmdom (sp_calls (snd (register_round cfg env local ask nm tc p cs s))) = fmdom (sp_calls s)"
  "sip_step\<^sup>*\<^sup>* s (snd (register_round cfg env local ask nm tc p cs s))"
  by (auto simp: register_round_def Let_def intro!: moves split: option.split)

lemma outbound_calls:
  "fmdom (sp_calls (snd (start_outbound env nm tc s))) = fmdom (sp_calls s)"
  "sip_step\<^sup>*\<^sup>* s (snd (start_outbound env nm tc s))"
  by (auto simp: start_outbound_def intro!: moves split: option.split)

lemma shape_on_sip: "fmdom (sp_calls (f (w_sip w))) = fmdom (sp_calls (w_sip w)) \<Longrightarrow> shape (on_sip f w) = shape w"
  by (simp add: shape_def)

lemma shape_register: "shape (handle_register cfg env peer req w) = shape w"
proof -
  have "shape w1 = shape w" if "request_authed env h p m w = (b, w1)" for h p m b w1
    using that shape_simps(5) [of env h p m w] by simp
  then show ?thesis
    by (auto simp: handle_register_def bind_contact_def Let_def shape_on_sip split: option.split prod.split)
qed

lemma sip_ok_datagram:
  assumes "sip_ok w" "new_invite data w" shows "sip_ok (handle_datagram cfg env peer data w)"
proof (cases "sip_parse data")
  case (Some m)
  have response: "sip_ok (handle_response cfg env peer m w)"
    using assms(1) by (simp add: handle_response_def Let_def sip_ok_response shape_eq [OF shape_simps(7)] split: option.split prod.split)
  have request: "sip_ok (handle_request cfg env peer m w)"
    using assms Some
    by (simp add: handle_request_def new_invite_def sip_ok_invite sip_ok_bye shape_keeps [OF shape_register]
        shape_eq [OF shape_simps(3)] split: option.split sip_method.split)
  from response request Some show ?thesis by (simp add: handle_datagram_def)
qed (simp add: handle_datagram_def assms)

lemma datagram_moves:
  assumes "new_invite data w" "room_for_call w"
  shows "sip_step\<^sup>*\<^sup>* (w_sip w) (w_sip (handle_datagram cfg env peer data w))"
proof (cases "sip_parse data")
  case (Some m)
  have "sip_step\<^sup>*\<^sup>* (w_sip w) (w_sip (handle_response cfg env peer m w))"
    by (simp add: handle_response_def Let_def response_moves moves split: option.split prod.split)
  moreover have "sip_step\<^sup>*\<^sup>* (w_sip w) (w_sip (handle_request cfg env peer m w))"
    using assms Some
    by (simp add: handle_request_def new_invite_def invite_moves register_moves handle_bye_def handle_cancel_def
        drop_call_def moves split: option.split sip_method.split)
  ultimately show ?thesis using Some by (simp add: handle_datagram_def)
qed (simp add: handle_datagram_def)

lemma sip_turn_ok: "sip_turn cfg w w' \<Longrightarrow> sip_ok w \<Longrightarrow> sip_ok w'"
  by (induction rule: sip_turn.induct)
    (auto simp: sip_ok_datagram sip_ok_control sip_ok_brew_ended sip_ok_brew_to_sip sip_ok_sweep
      intro: shape_keeps [OF shape_on_sip] shape_keeps [OF shape_simps(2)] simp: round_calls outbound_calls)

lemma sip_turn_moves: "sip_turn cfg w w' \<Longrightarrow> sip_step\<^sup>*\<^sup>* (w_sip w) (w_sip w')"
  by (induction rule: sip_turn.induct)
    (auto simp: datagram_moves control_moves brew_call_moves sweep_moves round_calls outbound_calls moves
      teardown_by_brew_call_def split: option.split)

lemma sip_start_ok: "sip_ok (sip_start cfg env st)" "counts_ok (w_sip (sip_start cfg env st))"
proof -
  have seeded: "sp_calls (fold (seed_trunk env) ts s) = fmempty \<and> counts_ok (fold (seed_trunk env) ts s)"
    if "sp_calls s = fmempty" "counts_ok s" for ts s
    using that
  proof (induction ts arbitrary: s)
    case (Cons t ts)
    have "counts_ok (seed_trunk env t s)" "sp_calls (seed_trunk env t s) = fmempty"
      using Cons.prems by (auto simp: seed_trunk_def set_trunk_def counts_ok_def legs_on_def split: prod.split)
    then show ?case using Cons.IH by simp
  qed simp
  have start: "sp_calls (w_sip (sip_start cfg env st)) = fmempty \<and> counts_ok (w_sip (sip_start cfg env st))"
    unfolding sip_start_def sip_world.simps by (rule seeded) (simp_all add: empty_sip_def counts_ok_def)
  then show "counts_ok (w_sip (sip_start cfg env st))" by simp
  from start show "sip_ok (sip_start cfg env st)"
    by (simp add: sip_ok_defs handshakes_ok_def sip_start_def)
qed

end
