(* ===== verification/Sip_Props.thy ===== *)
theory Sip_Props
  imports Sip_World
begin

text \<open>
  The account of SIP calls over whole executions, with an example call that Brew placed on a trunk, and
  who may register and call: extensions that proved their password, and trunk peers.
\<close>

section \<open>An example\<close>

definition demo_trunk :: trunk_config where
  "demo_trunk = \<lparr>tc_direction = StaticPeer, tc_remote_host = [104], tc_username = [], tc_password = [], tc_realm = [],
     tc_register_interval_seconds = 300, tc_enabled = True\<rparr>"

definition demo_extension :: extension_config where
  "demo_extension = \<lparr>xc_password = [], xc_display_name = [], xc_issi = 0, xc_allow_outbound = True\<rparr>"

definition demo_cfg :: sip_config where
  "demo_cfg = \<lparr>zc_enabled = True, zc_listen = [], zc_advertised_host = [115], zc_rtp_port_min = 16000, zc_rtp_port_max = 17000,
     zc_realm = [114], zc_registration_ttl_seconds = 3600, zc_max_call_duration_seconds = 0,
     zc_extensions = fmupd [49] demo_extension fmempty, zc_trunks = fmupd [112] demo_trunk fmempty,
     zc_routes = [\<lparr>vr_name = [], vr_match_pattern = of_ascii ''*'', vr_to = Some (TrunkEnd [112] []), vr_from = None,
       vr_strip_prefix = [], vr_enabled = True\<rparr>]\<rparr>"

definition demo_env :: sip_env where
  "demo_env = \<lparr>z_clock = \<lparr>ck_now = 0, ck_ms = 5\<rparr>, z_hex = (\<lambda>_ _. [97]), z_uuid = of_nat, z_free = (\<lambda>_. True),
     z_addr = (\<lambda>s. Some s), z_md5 = (\<lambda>_. [])\<rparr>"

text \<open>Radio 7 behind connection 9 dials 5, which the route takes to the trunk.\<close>

definition demo_world :: "app \<Rightarrow> sip_world" where
  "demo_world st = snd (brew_to_sip demo_cfg demo_env (FromPrivate 7) [53]
     \<lparr>bk_call_id = 3, bk_client = 9, bk_source_issi = 7\<rparr> (sip_start demo_cfg demo_env st))"

lemma demo_reached: "(sip_turn demo_cfg)\<^sup>*\<^sup>* (sip_start demo_cfg demo_env st) (demo_world st)"
proof -
  have none: "fmdom (sp_calls (w_sip (sip_start demo_cfg demo_env st))) = {||}"
    using sip_start_ok(1) [of demo_cfg demo_env st] by (simp add: sip_ok_defs sip_start_def)
  have "sip_turn demo_cfg (sip_start demo_cfg demo_env st) (demo_world st)"
    unfolding demo_world_def
    by (rule brew_called) (simp_all add: none room_for_call_def fcard_fempty)
  then show ?thesis by blast
qed


lemma demo_trunks: "fm_items (zc_trunks demo_cfg) = [([112], demo_trunk)]"
  by (simp add: demo_cfg_def fm_items_def sorted_list_of_fset.rep_eq)

lemma demo_alloc:
  "alloc_world_leg demo_env (sip_start demo_cfg demo_env st) =
     (Some (new_leg 16000), (sip_start demo_cfg demo_env st)\<lparr>w_relay := \<lparr>rl_port_min = 16000, rl_port_max = 17000, rl_next_port = 16002\<rparr>\<rparr>)"
  by (simp add: alloc_world_leg_def alloc_leg_def alloc_from.simps [of _ 0] sip_start_def new_relay_def demo_cfg_def demo_env_def
      port_after_def Let_def)

lemma demo_placed:
  "demo_world st = place_outbound demo_cfg demo_env (of_ascii ''brew-'' @ uuid_simple 0) (LegPrivate 7) (LegTrunk [112] [53])
     (trunk_uri [53] demo_trunk) [104] \<lparr>bk_call_id = 3, bk_client = 9, bk_source_issi = 7\<rparr> (sip_start demo_cfg demo_env st)"
  by (simp add: demo_world_def brew_to_sip_def Let_def origin_leg_def demo_cfg_def demo_env_def demo_trunk_def
      pattern_matches_def resolve_endpoint_def)

lemma demo_carried:
  "fmdom (w_legs (demo_world st)) = {|of_ascii ''brew-'' @ uuid_simple 0|}" "w_relay_tasks (demo_world st) = fmempty"
  "fmlookup (sp_trunks (w_sip (demo_world st))) [112] =
     Some \<lparr>tk_name = [112], tk_direction = of_ascii ''peer'', tk_remote_host = [104], tk_status = TrunkDown,
       tk_peer_addr = Some [104], tk_last_event_ms = 5, tk_detail = of_ascii ''provisioned'', tk_active_calls = 1\<rparr>"
  by (simp_all add: demo_placed place_outbound_def demo_alloc Let_def)
    (simp_all add: sip_start_def demo_trunks track_media_def start_call_def count_leg_def fm_update_def seed_trunk_def
      set_trunk_def empty_sip_def demo_trunk_def demo_env_def direction_text_def)

text \<open>C11. SIP calls are accounted for.  From the start, through any sequence of datagrams (INVITEs under new
  Call-IDs), radio answers, hang-ups, time-outs and trunk registrations: the calls in progress are
  exactly those that a relay task or a bridged leg carries, never both; a trunk's number of active
  calls is the number of their legs on it; and an answer of a radio is awaited only for a call that
  is still bridged.\<close>

theorem sip_calls_tracked:
  assumes "(sip_turn cfg)\<^sup>*\<^sup>* (sip_start cfg env st) w"
  shows "fmdom (sp_calls (w_sip w)) = fmdom (w_relay_tasks w) |\<union>| fmdom (w_legs w) \<and>
    fmdom (w_relay_tasks w) |\<inter>| fmdom (w_legs w) = {||} \<and>
    (\<forall>name t. fmlookup (sp_trunks (w_sip w)) name = Some t \<longrightarrow> unat (tk_active_calls t) = legs_on name (sp_calls (w_sip w))) \<and>
    (\<forall>uid h. fmlookup (w_handshakes w) uid = Some h \<longrightarrow>
       map_option bl_brew_call_id (fmlookup (w_legs w) (hs_call_id h)) = Some uid)"
proof -
  have "sip_ok w \<and> counts_ok (w_sip w)"
    using assms
  proof (induction rule: rtranclp_induct)
    case (step v w)
    have "counts_ok (w_sip w)"
      using sip_turn_moves [OF step.hyps(2)] step.IH
      by (induction rule: rtranclp_induct) (auto simp: counts_step)
    with step show ?case by (auto simp: sip_turn_ok)
  qed (simp add: sip_start_ok)
  then show ?thesis by (simp add: sip_ok_def carried_def one_carrier_def handshakes_ok_def counts_ok_def)
qed

theorem sip_calls_tracked_witness:
  "\<forall>st. fmdom (sp_calls (w_sip (demo_world st))) = {|of_ascii ''brew-'' @ uuid_simple 0|} \<and>
     legs_on [112] (sp_calls (w_sip (demo_world st))) = 1"
proof
  fix st
  note facts = sip_calls_tracked [OF demo_reached [of st]]
  have "unat (1 :: u32) = legs_on [112] (sp_calls (w_sip (demo_world st)))"
    using facts demo_carried(3) [of st] by fastforce
  then show "fmdom (sp_calls (w_sip (demo_world st))) = {|of_ascii ''brew-'' @ uuid_simple 0|} \<and>
     legs_on [112] (sp_calls (w_sip (demo_world st))) = 1"
    using facts demo_carried(1,2) [of st] by simp
qed

section \<open>Who may register and call\<close>

text \<open>The requester proves the password of an extension: it has none, or the request carries a digest
  of it under a nonce issued less than two minutes ago.\<close>

definition proves_password :: "sip_env \<Rightarrow> extension_config \<Rightarrow> string \<Rightarrow> rstring option \<Rightarrow> sip_world \<Rightarrow> bool" where
  "proves_password env ext method auth_header w \<longleftrightarrow> xc_password ext = [] \<or>
     (\<exists>h at. auth_header = Some h \<and>
        fmlookup (w_nonces w) (or_empty (fmlookup (parse_params h) (of_ascii ''nonce''))) = Some at \<and>
        ck_now (z_clock env) - at < 120000 \<and>
        verify_authorization (z_md5 env) h (xc_password ext) (of_ascii method)
          (or_empty (fmlookup (parse_params h) (of_ascii ''nonce''))))"

lemma request_authed_proves:
  "request_authed env auth (xc_password ext) meth w = (True, w1) \<Longrightarrow> proves_password env ext meth auth w"
  by (auto simp: request_authed_def nonce_valid_def proves_password_def Let_def fmlookup_dom_iff split: option.splits if_splits)

definition may_register :: "sip_config \<Rightarrow> sip_env \<Rightarrow> sip_message \<Rightarrow> sip_world \<Rightarrow> bool" where
  "may_register cfg env req w \<longleftrightarrow> (\<exists>aor ext. uri_user (header_uri ''to'' req) = Some aor \<and>
     fmlookup (zc_extensions cfg) aor = Some ext \<and>
     proves_password env ext ''REGISTER'' (sip_header (of_ascii ''authorization'') req) w)"

definition may_call :: "sip_config \<Rightarrow> sip_env \<Rightarrow> socket_addr \<Rightarrow> sip_message \<Rightarrow> sip_world \<Rightarrow> bool" where
  "may_call cfg env peer req w \<longleftrightarrow> (\<exists>trunk. trunk_for_peer peer (w_sip w) = Some trunk) \<or>
     (\<exists>ext. fmlookup (zc_extensions cfg) (or_empty (uri_user (header_uri ''from'' req))) = Some ext \<and>
        xc_allow_outbound ext \<and>
        proves_password env ext ''INVITE''
          (case sip_header (of_ascii ''authorization'') req of
             Some h \<Rightarrow> Some h | None \<Rightarrow> sip_header (of_ascii ''proxy-authorization'') req) w)"

lemma registered_proves:
  assumes "sp_registrations (w_sip (handle_register cfg env peer req w)) \<noteq> sp_registrations (w_sip w)"
  shows "may_register cfg env req w"
proof -
  have unchanged: "w_sip w1 = w_sip w" if "request_authed env h p m w = (b, w1)" for h p m b w1
    using that request_authed_simps(1) [of env h p m w] by simp
  show ?thesis
    using assms
    by (auto simp: handle_register_def may_register_def Let_def unchanged dest: request_authed_proves
        split: option.splits if_splits prod.splits)
      (auto simp: proves_password_def)
qed

lemma origin_proves:
  assumes "invite_origin cfg env peer req w = Inr (origin, w1)" shows "may_call cfg env peer req w"
  using assms
  by (auto simp: invite_origin_def may_call_def Let_def dest: request_authed_proves
      split: option.splits if_splits prod.splits)
    (auto simp: proves_password_def)


lemma may_call_respond [simp]: "may_call cfg env peer req (respond env req' peer' c r w) = may_call cfg env peer req w"
  by (simp add: may_call_def proves_password_def)

lemma invite_refused:
  assumes "invite_origin cfg env peer req w = Inl w1" shows "w_sip w1 = w_sip w" "w_app w1 = w_app w"
proof -
  have same: "w_sip v = w_sip w" "w_app v = w_app w" if "request_authed env h p m w = (b, v)" for h p m b v
    using that request_authed_simps(1,2) [of env h p m w] by simp_all
  show "w_sip w1 = w_sip w" "w_app w1 = w_app w"
    using assms by (auto simp: invite_origin_def Let_def dest: same split: option.splits if_splits prod.splits)
qed

lemma invited_proves:
  assumes "fmdom (sp_calls (w_sip (handle_invite cfg env peer req w))) \<noteq> fmdom (sp_calls (w_sip w)) \<or>
      sp_registrations (w_sip (handle_invite cfg env peer req w)) \<noteq> sp_registrations (w_sip w) \<or>
      w_app (handle_invite cfg env peer req w) \<noteq> w_app w"
  shows "may_call cfg env peer req w"
proof (cases "invite_origin cfg env peer req (respond env req peer 100 ''Trying'' w)")
  case (Inl w1)
  with assms invite_refused [OF Inl] show ?thesis by (simp add: handle_invite_def)
next
  case (Inr a)
  then obtain origin w1 where "invite_origin cfg env peer req (respond env req peer 100 ''Trying'' w) = Inr (origin, w1)"
    by (cases a) simp
  from origin_proves [OF this] show ?thesis by simp
qed

lemma drop_call_registrations: "sp_registrations (w_sip (drop_call env cid w)) = sp_registrations (w_sip w)"
  by (simp add: drop_call_def sip_end_call_def Let_def split: option.split)


definition demo_register :: sip_message where
  "demo_register = push_header (of_ascii ''To'') (of_ascii ''<sip:1@h>'') (new_request REGISTER (of_ascii ''sip:h''))"


end
