(* ===== verification/Sip_Findings.thy ===== *)
theory Sip_Findings
  imports Sip_Props
begin

text \<open>
  What a BYE leaves behind, and the places where the gateway and the rest of the server disagree: an
  outbound call dropped without a word, a failed call released twice, a group call that takes an
  occupied floor, trunks that are disabled or that register with the server, a BYE from anybody.
\<close>

section \<open>BYE\<close>



text \<open>A leg as it is while radio 5 is called.\<close>

definition demo_called :: "app \<Rightarrow> sip_world" where
  "demo_called st = \<lparr>w_app = on_inner (ring_private \<lparr>ck_now = 0, ck_ms = 0\<rparr> 3 4 5 9) st,
   w_sip = empty_sip, w_relay = new_relay 16000 17000, w_nonces = fmempty, w_relay_tasks = fmempty,
   w_legs = fmupd [99] (answered_leg 4 3 None (new_leg 16000, 0, {|9|}) None) fmempty, w_handshakes = fmempty, w_sent = []\<rparr>"

definition demo_bye :: sip_message where
  "demo_bye = push_header (of_ascii ''Call-ID'') [99] (new_request BYE (of_ascii ''sip:h''))"


section \<open>Disagreements\<close>

text \<open>No request of a peer changes what is known of the trunks but the calls on them: a trunk that
  registers with the server never makes its address known.\<close>

lemma register_leaves_trunks: "sp_trunks (w_sip (handle_register cfg env peer req w)) = sp_trunks (w_sip w)"
proof -
  have "w_sip w1 = w_sip w" if "request_authed env h p m w = (b, w1)" for h p m b w1
    using that request_authed_simps(1) [of env h p m w] by simp
  then show ?thesis
    by (auto simp: handle_register_def bind_contact_def remove_registration_def upsert_registration_def Let_def
        split: option.split prod.split)
qed

text \<open>A BYE is obeyed whoever sends it.\<close>

lemma bye_from_anyone: "w_app (handle_bye env peer req w) = w_app (handle_bye env peer' req w) \<and>
    w_sip (handle_bye env peer req w) = w_sip (handle_bye env peer' req w)"
  by (simp add: handle_bye_def)

text \<open>Without a free port an outbound call is reported as placed and nothing is done for it.\<close>

lemma brew_call_swallowed:
  assumes "resolve (zc_routes cfg) origin dialled = Some (LegExtension aor, route)"
    and "lookup_registration aor (w_sip w) = Some reg" "alloc_world_leg env w = (None, w1)"
  shows "brew_to_sip cfg env origin dialled link w = (True, w1) \<and> w_app w1 = w_app w \<and> w_sent w1 = w_sent w"
proof -
  have "w_app w1 = w_app w \<and> w_sent w1 = w_sent w"
    using assms(3) by (auto simp: alloc_world_leg_def split: prod.splits)
  with assms show ?thesis by (simp add: brew_to_sip_def place_outbound_def)
qed

text \<open>The peer of a disabled trunk is taken for the trunk and calls without a password.\<close>

lemma disabled_trunk_accepted:
  assumes "zc_trunks cfg = fmupd name tc fmempty" "z_addr env (tc_remote_host tc) = Some peer"
  shows "invite_origin cfg env' peer req (sip_start cfg env st) = Inr (FromTrunk name, sip_start cfg env st)"
proof -
  have "trunk_for_peer peer (w_sip (sip_start cfg env st)) = Some name"
    using assms by (simp add: trunk_for_peer_def sip_start_def seed_trunk_def set_trunk_def empty_sip_def fm_items_def
        sorted_list_of_fset.rep_eq)
  then show ?thesis by (simp add: invite_origin_def)
qed

text \<open>A group call from SIP takes the floor of the call in progress, which stays: two calls in one
  group, whatever the configuration says.\<close>

lemma sip_group_takes_floor:
  assumes "fmlookup (group_floor i) gssi = Some old" "fmlookup (calls i) old = Some call" "uid \<noteq> old"
  shows "fmlookup (group_floor (seize_group ck uid vc gssi i)) gssi = Some uid \<and>
    fmlookup (calls (seize_group ck uid vc gssi i)) old = Some call \<and>
    fmlookup (calls (seize_group ck uid vc gssi i)) uid \<noteq> None"
  using assms by (simp add: seize_group_def Let_def send_all_def push_each_def)

text \<open>A failed outbound call is released twice.\<close>

lemma failed_call_released_twice:
  assumes "fmlookup (w_legs w) cid = Some leg" "bl_subscriber leg = Some c" "\<not> bl_connected leg" "bl_group leg = None"
    and "connected (st_inner (w_app w)) c" "c \<noteq> bl_virtual_client leg" "400 \<le> code"
    and "fmlookup (calls (st_inner (w_app w))) (bl_brew_call_id leg) = Some call" "ac_owner call = c" "ac_kind call = PrivateCall"
  shows "queue (st_inner (w_app (on_sip_response cfg env cid code th peer body w))) c =
    queue (st_inner (w_app w)) c @ replicate 2 (build_call_cause CALL_RELEASE (bl_brew_call_id leg) 0)"
proof -
  have "code \<noteq> 180" "code \<noteq> 183" "code \<noteq> 200" using assms(7) by auto
  then show ?thesis
    using assms
    by (simp add: on_sip_response_def Let_def teardown_def mark_leg_def fm_update_def teardown_inner_def leave_bridged_group_def
        queue_send_all send_to_def numeral_2_eq_2)
      (simp add: queue_def connected_def send_all_def push_each_def split: option.split)
qed

end
