(* ===== verification/Transcode_Task.thy ===== *)
theory Transcode_Task
  imports Builders G711 Sip_Media
begin

text \<open>
  The transcoder between the RTP of a SIP party and the voice frames of Brew
  (\<open>src/src/transcode/task.rs\<close>).  The ACELP codec is a C library and a parameter.  One turn of the
  task takes a datagram, a message of the virtual connection, or a tick of one of the two timers; what
  it emits is listed.  Main fact: no turn panics, and in both directions what comes out is exactly the
  audio that came in, in order, cut into blocks.
\<close>

section \<open>RTP\<close>

abbreviation (input) ACELP_PCM_SAMPLES :: nat where "ACELP_PCM_SAMPLES \<equiv> 240"
abbreviation (input) RTP_SAMPLES_PER_PACKET :: nat where "RTP_SAMPLES_PER_PACKET \<equiv> 160"
abbreviation (input) TELEPHONE_EVENT_PT :: u8 where "TELEPHONE_EVENT_PT \<equiv> 101"

definition be_bytes :: "nat \<Rightarrow> 'a::len word \<Rightarrow> bytes" where
  "be_bytes n w = rev (le_bytes n w)"

definition decode_sample :: "u8 \<Rightarrow> u8 \<Rightarrow> i16" where
  "decode_sample payload_type byte = (if payload_type = 8 then alaw_decode byte else ulaw_decode byte)"

definition encode_sample :: "u8 \<Rightarrow> i16 \<Rightarrow> u8" where
  "encode_sample payload_type pcm = (if payload_type = 8 then alaw_encode pcm else ulaw_encode pcm)"

text \<open>The G.711 bytes of a received datagram, \<open>None\<close> when it is skipped: the header is 12 bytes, a list of
  CSRCs and possibly an extension.\<close>

definition rtp_audio :: "u8 \<Rightarrow> bytes \<Rightarrow> bytes option panics" where
  "rtp_audio payload_type buf =
     (let n = length buf in
      if n \<le> 12 then Some None
      else do {
        b0 \<leftarrow> index_at buf 0;
        b1 \<leftarrow> index_at buf 1;
        let offset0 = 12 + unat (b0 AND 0x0F) * 4;
        if b0 AND 0x10 \<noteq> 0 \<and> n < offset0 + 4 then Some None
        else do {
          offset \<leftarrow> (if b0 AND 0x10 \<noteq> 0 then do {
                       hi \<leftarrow> index_at buf (offset0 + 2);
                       lo \<leftarrow> index_at buf (offset0 + 3);
                       Some (offset0 + 4 + (unat hi * 256 + unat lo) * 4)
                     } else Some offset0);
          if n < offset then Some None
          else if b1 AND 0x7F \<noteq> payload_type then Some None
          else map_option Some (slice buf offset n)
        }
      })"

definition rtp_packet :: "u8 \<Rightarrow> u16 \<Rightarrow> u32 \<Rightarrow> u32 \<Rightarrow> bytes \<Rightarrow> bytes" where
  "rtp_packet payload_type seq timestamp ssrc payload =
     [0x80, payload_type AND 0x7F] @ be_bytes 2 seq @ be_bytes 4 timestamp @ be_bytes 4 ssrc @ payload"

definition dtmf_ascii_to_event :: "u8 \<Rightarrow> u8 option" where
  "dtmf_ascii_to_event digit =
     (if 48 \<le> digit \<and> digit \<le> 57 then Some (digit - 48)
      else if digit = 42 then Some 10
      else if digit = 35 then Some 11
      else if 65 \<le> digit \<and> digit \<le> 68 then Some (12 + (digit - 65))
      else if 97 \<le> digit \<and> digit \<le> 100 then Some (12 + (digit - 97))
      else None)"

text \<open>One digit as a start packet, with the marker, and two end packets.\<close>

definition dtmf_packet :: "u8 \<Rightarrow> u16 \<Rightarrow> u32 \<Rightarrow> u32 \<Rightarrow> u16 \<Rightarrow> bool \<Rightarrow> bytes" where
  "dtmf_packet event start_seq ts ssrc seq over =
     [0x80, (if seq = start_seq then 0x80 else 0) OR (TELEPHONE_EVENT_PT AND 0x7F)]
       @ be_bytes 2 seq @ be_bytes 4 ts @ be_bytes 4 ssrc
       @ [event, (if over then 0x80 else 0) OR 10] @ be_bytes 2 (1600 :: u16)"

definition send_dtmf_event :: "u8 \<Rightarrow> u16 \<Rightarrow> u32 \<Rightarrow> u32 \<Rightarrow> bytes list" where
  "send_dtmf_event event start_seq ts ssrc =
     [dtmf_packet event start_seq ts ssrc start_seq False,
      dtmf_packet event start_seq ts ssrc (start_seq + 1) True,
      dtmf_packet event start_seq ts ssrc (start_seq + 2) True]"

section \<open>The task\<close>

record ('e, 'd) codec =
  cx_encode :: "'e \<Rightarrow> i16 list \<Rightarrow> bytes \<times> 'e"
  cx_decode :: "'d \<Rightarrow> bytes \<Rightarrow> bool \<Rightarrow> i16 list \<times> 'd"

record ('e, 'd) transcoder =
  tz_leg :: rtp_leg
  tz_payload_type :: u8
  tz_call_id :: uuid
  tz_encoder :: 'e
  tz_decoder :: 'd
  tz_from_sip :: "i16 list"
  tz_from_brew :: "i16 list"
  tz_seq :: u16
  tz_timestamp :: u32

definition tz_ssrc :: "('e, 'd) transcoder \<Rightarrow> u32" where
  "tz_ssrc t = ucast (tz_call_id t)"

definition new_transcoder :: "rtp_leg \<Rightarrow> u8 \<Rightarrow> uuid \<Rightarrow> 'e \<Rightarrow> 'd \<Rightarrow> ('e, 'd) transcoder" where
  "new_transcoder leg payload_type call_id enc dec =
     \<lparr>tz_leg = leg, tz_payload_type = payload_type, tz_call_id = call_id, tz_encoder = enc, tz_decoder = dec,
      tz_from_sip = [], tz_from_brew = [], tz_seq = 0, tz_timestamp = 0\<rparr>"

text \<open>What a turn emits: packets handed to the leg, a voice frame for every Brew target, a message for
  the control task.\<close>

datatype task_output = ToSip bytes | ToBrew bytes | ToControl bytes

datatype task_event = RtpIn u64 socket_addr bytes | BrewIn bytes | AcelpTick | RtpTick

definition rtp_in :: "u64 \<Rightarrow> socket_addr \<Rightarrow> bytes \<Rightarrow> ('e, 'd) transcoder \<Rightarrow> (task_output list \<times> ('e, 'd) transcoder) panics" where
  "rtp_in now sender datagram t = do {
     let t1 = t\<lparr>tz_leg := leg_recv now sender (tz_leg t)\<rparr>;
     audio \<leftarrow> rtp_audio (tz_payload_type t) (take 2048 datagram);
     Some ([], case audio of
        None \<Rightarrow> t1
      | Some bs \<Rightarrow> t1\<lparr>tz_from_sip := tz_from_sip t @ map (decode_sample (tz_payload_type t)) bs\<rparr>)
   }"

definition brew_in :: "('e, 'd) codec \<Rightarrow> bytes \<Rightarrow> ('e, 'd) transcoder \<Rightarrow> (task_output list \<times> ('e, 'd) transcoder) panics" where
  "brew_in cx raw t =
     (if 21 \<le> length raw \<and> raw ! 0 = CLASS_FRAME \<and> raw ! 1 = FRAME_DTMF then do {
        digit \<leftarrow> index_at raw 20;
        Some (case dtmf_ascii_to_event digit of
            Some event \<Rightarrow> (map ToSip (send_dtmf_event event (tz_seq t) (tz_timestamp t) (tz_ssrc t)), t\<lparr>tz_seq := tz_seq t + 3\<rparr>)
          | None \<Rightarrow> ([], t))
      }
      else if length raw < 20 + STE_VOICE_PAYLOAD_BYTES \<or> raw ! 0 \<noteq> CLASS_FRAME \<or> raw ! 1 \<noteq> FRAME_TRAFFIC_CHANNEL
      then Some ([ToControl raw], t)
      else do {
        payload \<leftarrow> slice raw 20 (20 + STE_VOICE_PAYLOAD_BYTES);
        (sub1, sub2) \<leftarrow> unpack_ste_voice_payload payload;
        let (pcm1, d1) = cx_decode cx (tz_decoder t) sub1 False;
        let (pcm2, d2) = cx_decode cx d1 sub2 False;
        Some ([], t\<lparr>tz_from_brew := tz_from_brew t @ pcm1 @ pcm2, tz_decoder := d2\<rparr>)
      })"

definition acelp_tick :: "('e, 'd) codec \<Rightarrow> ('e, 'd) transcoder \<Rightarrow> (task_output list \<times> ('e, 'd) transcoder) panics" where
  "acelp_tick cx t =
     (if 2 * ACELP_PCM_SAMPLES \<le> length (tz_from_sip t) then do {
        let (sub1, e1) = cx_encode cx (tz_encoder t) (take ACELP_PCM_SAMPLES (tz_from_sip t));
        let (sub2, e2) = cx_encode cx e1 (take ACELP_PCM_SAMPLES (drop ACELP_PCM_SAMPLES (tz_from_sip t)));
        packet \<leftarrow> build_traffic_frame (tz_call_id t) sub1 sub2;
        Some ([ToBrew packet], t\<lparr>tz_from_sip := drop (2 * ACELP_PCM_SAMPLES) (tz_from_sip t), tz_encoder := e2\<rparr>)
      }
      else Some ([], t))"

definition rtp_tick :: "('e, 'd) transcoder \<Rightarrow> (task_output list \<times> ('e, 'd) transcoder) panics" where
  "rtp_tick t =
     Some (if RTP_SAMPLES_PER_PACKET \<le> length (tz_from_brew t) then
         ([ToSip (rtp_packet (tz_payload_type t) (tz_seq t) (tz_timestamp t) (tz_ssrc t)
             (map (encode_sample (tz_payload_type t)) (take RTP_SAMPLES_PER_PACKET (tz_from_brew t))))],
          t\<lparr>tz_from_brew := drop RTP_SAMPLES_PER_PACKET (tz_from_brew t), tz_seq := tz_seq t + 1,
            tz_timestamp := tz_timestamp t + of_nat RTP_SAMPLES_PER_PACKET\<rparr>)
       else ([], t))"

definition task_turn :: "('e, 'd) codec \<Rightarrow> task_event \<Rightarrow> ('e, 'd) transcoder \<Rightarrow> (task_output list \<times> ('e, 'd) transcoder) panics" where
  "task_turn cx ev t =
     (case ev of RtpIn now sender d \<Rightarrow> rtp_in now sender d t | BrewIn raw \<Rightarrow> brew_in cx raw t
      | AcelpTick \<Rightarrow> acelp_tick cx t | RtpTick \<Rightarrow> rtp_tick t)"

text \<open>Every turn of a task in order, with all it emitted.\<close>

fun task_run :: "('e, 'd) codec \<Rightarrow> task_event list \<Rightarrow> ('e, 'd) transcoder \<Rightarrow> (task_output list \<times> ('e, 'd) transcoder) panics" where
  "task_run cx [] t = Some ([], t)"
| "task_run cx (ev # evs) t = do {
     (out1, t1) \<leftarrow> task_turn cx ev t;
     (out2, t2) \<leftarrow> task_run cx evs t1;
     Some (out1 @ out2, t2)
   }"

section \<open>What comes out is what came in\<close>

definition is_voice :: "bytes \<Rightarrow> bool" where
  "is_voice raw \<longleftrightarrow> 20 + STE_VOICE_PAYLOAD_BYTES \<le> length raw \<and> raw ! 0 = CLASS_FRAME \<and> raw ! 1 = FRAME_TRAFFIC_CHANNEL"

text \<open>The samples that reach the task from each side.\<close>

definition sip_block :: "u8 \<Rightarrow> task_event \<Rightarrow> i16 list" where
  "sip_block payload_type ev =
     (case ev of
        RtpIn _ _ d \<Rightarrow> (case rtp_audio payload_type (take 2048 d) of
            Some (Some bs) \<Rightarrow> map (decode_sample payload_type) bs | _ \<Rightarrow> [])
      | _ \<Rightarrow> [])"

definition sip_samples :: "u8 \<Rightarrow> task_event list \<Rightarrow> i16 list" where
  "sip_samples payload_type evs = concat (map (sip_block payload_type) evs)"

definition voice_block :: "('e, 'd) codec \<Rightarrow> 'd \<Rightarrow> bytes \<Rightarrow> i16 list \<times> 'd" where
  "voice_block cx d raw =
     (case unpack_ste_voice_payload (take STE_VOICE_PAYLOAD_BYTES (drop 20 raw)) of
        None \<Rightarrow> ([], d)
      | Some (sub1, sub2) \<Rightarrow>
          let (pcm1, d1) = cx_decode cx d sub1 False; (pcm2, d2) = cx_decode cx d1 sub2 False in (pcm1 @ pcm2, d2))"

fun brew_samples :: "('e, 'd) codec \<Rightarrow> 'd \<Rightarrow> task_event list \<Rightarrow> i16 list" where
  "brew_samples cx d [] = []"
| "brew_samples cx d (ev # evs) =
     (case ev of
        BrewIn raw \<Rightarrow>
          if is_voice raw then fst (voice_block cx d raw) @ brew_samples cx (snd (voice_block cx d raw)) evs
          else brew_samples cx d evs
      | _ \<Rightarrow> brew_samples cx d evs)"

text \<open>The first \<open>n\<close> voice frames that a stream of samples makes.\<close>

fun voice_frames :: "('e, 'd) codec \<Rightarrow> uuid \<Rightarrow> nat \<Rightarrow> 'e \<Rightarrow> i16 list \<Rightarrow> bytes list" where
  "voice_frames cx uid 0 e s = []"
| "voice_frames cx uid (Suc n) e s =
     (case cx_encode cx e (take ACELP_PCM_SAMPLES s) of (sub1, e1) \<Rightarrow>
      case cx_encode cx e1 (take ACELP_PCM_SAMPLES (drop ACELP_PCM_SAMPLES s)) of (sub2, e2) \<Rightarrow>
        (case build_traffic_frame uid sub1 sub2 of Some p \<Rightarrow> p | None \<Rightarrow> [])
          # voice_frames cx uid n e2 (drop (2 * ACELP_PCM_SAMPLES) s))"

text \<open>What is emitted to each side; an RTP packet's audio by its payload type, and its sequence number.\<close>

definition brew_frames :: "task_output list \<Rightarrow> bytes list" where
  "brew_frames outs = concat (map (\<lambda>out. case out of ToBrew p \<Rightarrow> [p] | _ \<Rightarrow> []) outs)"

definition rtp_packets :: "task_output list \<Rightarrow> bytes list" where
  "rtp_packets outs = concat (map (\<lambda>out. case out of ToSip p \<Rightarrow> [p] | _ \<Rightarrow> []) outs)"

definition audio_out :: "u8 \<Rightarrow> task_output list \<Rightarrow> bytes" where
  "audio_out payload_type outs =
     concat (map (drop 12) (filter (\<lambda>p. p ! 1 AND 0x7F = payload_type) (rtp_packets outs)))"

definition seq_field :: "bytes \<Rightarrow> bytes" where
  "seq_field p = take 2 (drop 2 p)"

lemma outputs_append [simp]:
  "brew_frames (a @ b) = brew_frames a @ brew_frames b" "rtp_packets (a @ b) = rtp_packets a @ rtp_packets b"
  "audio_out pt (a @ b) = audio_out pt a @ audio_out pt b"
  by (simp_all add: brew_frames_def rtp_packets_def audio_out_def)

lemma outputs_Nil [simp]: "brew_frames [] = []" "rtp_packets [] = []" "audio_out pt [] = []"
  by (simp_all add: brew_frames_def rtp_packets_def audio_out_def)

lemma length_be_bytes [simp]: "length (be_bytes n w) = n"
  by (simp add: be_bytes_def)

lemma packet_fields:
  "seq_field (rtp_packet pt seq ts ssrc pl) = be_bytes 2 seq" "drop 12 (rtp_packet pt seq ts ssrc pl) = pl"
  "rtp_packet pt seq ts ssrc pl ! Suc 0 = pt AND 0x7F"
  "seq_field (dtmf_packet ev st ts ssrc seq over) = be_bytes 2 seq"
  "dtmf_packet ev st ts ssrc seq over ! Suc 0 AND 0x7F = 101"
proof -
  show "seq_field (rtp_packet pt seq ts ssrc pl) = be_bytes 2 seq" "drop 12 (rtp_packet pt seq ts ssrc pl) = pl"
    "rtp_packet pt seq ts ssrc pl ! Suc 0 = pt AND 0x7F" "seq_field (dtmf_packet ev st ts ssrc seq over) = be_bytes 2 seq"
    by (simp_all add: seq_field_def rtp_packet_def dtmf_packet_def numeral_2_eq_2 [symmetric])
  show "dtmf_packet ev st ts ssrc seq over ! Suc 0 AND 0x7F = 101"
    by (simp add: dtmf_packet_def)
qed

lemma rtp_audio_total: "\<exists>r. rtp_audio pt buf = Some r"
  by (auto simp: rtp_audio_def Let_def index_at_def slice_def split: if_splits)

lemma unpack_total:
  assumes "length payload = STE_VOICE_PAYLOAD_BYTES" shows "\<exists>s1 s2. unpack_ste_voice_payload payload = Some (s1, s2)"
proof -
  have len: "length (drop 1 payload) = STE_VOICE_PACKED_BYTES" using assms by simp
  obtain bits where bits: "unpack_bits_msb (drop 1 payload) STE_VOICE_TOTAL_BITS = Some bits" "length bits = STE_VOICE_TOTAL_BITS"
    using unpack_bits_msb_eq [of STE_VOICE_TOTAL_BITS "drop 1 payload"] len by simp
  obtain s1 s2 where "pack_bits_msb (take 137 bits) = Some s1" "length s1 = 18" "pack_bits_msb (drop 137 bits) = Some s2" "length s2 = 18"
    using pack_bits_msb_spec [of "take 137 bits"] pack_bits_msb_spec [of "drop 137 bits"] bits(2) by (auto simp: div_ceil_def)
  then show ?thesis
    using assms bits by (simp add: unpack_ste_voice_payload_def slice_from_def slice_def)
qed

lemma frame_total:
  assumes "length sub1 = ACELP_CODED_FRAME_BYTES" "length sub2 = ACELP_CODED_FRAME_BYTES"
  shows "\<exists>p. build_traffic_frame uid sub1 sub2 = Some p"
proof -
  obtain b1 b2 where b: "unpack_bits_msb sub1 137 = Some b1" "length b1 = 137" "unpack_bits_msb sub2 137 = Some b2" "length b2 = 137"
    using unpack_bits_msb_eq [of 137 sub1] unpack_bits_msb_eq [of 137 sub2] assms by simp
  then obtain p where "pack_bits_msb (b1 @ b2) = Some p" "length p = 35"
    using pack_bits_msb_spec [of "b1 @ b2"] by (auto simp: div_ceil_def)
  with b show ?thesis by (simp add: build_traffic_frame_def pack_ste_voice_payload_def)
qed

section \<open>Every turn\<close>

definition codec_ok :: "('e, 'd) codec \<Rightarrow> bool" where
  "codec_ok cx \<longleftrightarrow> (\<forall>e pcm. length (fst (cx_encode cx e pcm)) = ACELP_CODED_FRAME_BYTES)"

definition seqs_from :: "u16 \<Rightarrow> nat \<Rightarrow> bytes list" where
  "seqs_from s n = map (\<lambda>k. be_bytes 2 (s + of_nat k)) [0..<n]"

lemma seqs_from_add: "seqs_from s (m + n) = seqs_from s m @ seqs_from (s + of_nat m) n"
proof -
  have "[0..<m + n] = [0..<m] @ map (\<lambda>k. m + k) [0..<n]"
    using upt_add_eq_append [of 0 m n] map_add_upt [of m n] by (simp add: add.commute)
  then show ?thesis by (simp add: seqs_from_def comp_def add.assoc)
qed

text \<open>What one turn does, in the same terms as the claim about whole runs.\<close>

definition turn_ok :: "('e, 'd) codec \<Rightarrow> task_event \<Rightarrow> ('e, 'd) transcoder \<Rightarrow> task_output list \<Rightarrow> ('e, 'd) transcoder \<Rightarrow> bool" where
  "turn_ok cx ev t outs t' \<longleftrightarrow>
     tz_payload_type t' = tz_payload_type t \<and> tz_call_id t' = tz_call_id t \<and>
     map seq_field (rtp_packets outs) = seqs_from (tz_seq t) (length (rtp_packets outs)) \<and>
     tz_seq t' = tz_seq t + of_nat (length (rtp_packets outs)) \<and>
     (\<forall>evs. audio_out (tz_payload_type t) outs
          @ map (encode_sample (tz_payload_type t)) (tz_from_brew t' @ brew_samples cx (tz_decoder t') evs) =
        map (encode_sample (tz_payload_type t)) (tz_from_brew t @ brew_samples cx (tz_decoder t) (ev # evs))) \<and>
     (\<forall>n rest. brew_frames outs @ voice_frames cx (tz_call_id t) n (tz_encoder t') (tz_from_sip t' @ rest) =
        voice_frames cx (tz_call_id t) (length (brew_frames outs) + n) (tz_encoder t)
          (tz_from_sip t @ sip_block (tz_payload_type t) ev @ rest)) \<and>
     tz_from_sip t' = drop (480 * length (brew_frames outs)) (tz_from_sip t @ sip_block (tz_payload_type t) ev) \<and>
     480 * length (brew_frames outs) \<le> length (tz_from_sip t @ sip_block (tz_payload_type t) ev)"

lemma quiet_turn:
  assumes "brew_frames outs = []" "rtp_packets outs = []" "tz_payload_type t' = tz_payload_type t" "tz_call_id t' = tz_call_id t"
    "tz_seq t' = tz_seq t" "tz_encoder t' = tz_encoder t"
    "tz_from_sip t' = tz_from_sip t @ sip_block (tz_payload_type t) ev"
    "\<And>evs. tz_from_brew t' @ brew_samples cx (tz_decoder t') evs = tz_from_brew t @ brew_samples cx (tz_decoder t) (ev # evs)"
  shows "turn_ok cx ev t outs t'"
  using assms by (simp add: turn_ok_def audio_out_def seqs_from_def flip: map_append)

lemma rtp_in_ok: "\<exists>outs t'. rtp_in now sender d t = Some (outs, t') \<and> turn_ok cx (RtpIn now sender d) t outs t'"
proof -
  obtain r where "rtp_audio (tz_payload_type t) (take 2048 d) = Some r" using rtp_audio_total by blast
  then show ?thesis
    by (cases r) (auto simp: rtp_in_def Let_def sip_block_def intro!: quiet_turn)
qed

lemma brew_in_ok:
  assumes "tz_payload_type t \<noteq> 101"
  shows "\<exists>outs t'. brew_in cx raw t = Some (outs, t') \<and> turn_ok cx (BrewIn raw) t outs t'"
proof (cases "21 \<le> length raw \<and> raw ! 0 = CLASS_FRAME \<and> raw ! 1 = FRAME_DTMF")
  case True
  then have "\<not> is_voice raw" by (simp add: is_voice_def)
  then have no_voice: "brew_samples cx d (BrewIn raw # evs) = brew_samples cx d evs" for d evs by simp
  have other: "sip_block pt (BrewIn raw) = []" for pt by (simp add: sip_block_def)
  show ?thesis
  proof (cases "dtmf_ascii_to_event (raw ! 20)")
    case None
    then show ?thesis using True no_voice other
      by (auto simp: brew_in_def index_at_def intro!: quiet_turn)
  next
    case (Some event)
    let ?outs = "map ToSip (send_dtmf_event event (tz_seq t) (tz_timestamp t) (tz_ssrc t))"
    have "brew_frames ?outs = []" "audio_out (tz_payload_type t) ?outs = []"
      "rtp_packets ?outs = send_dtmf_event event (tz_seq t) (tz_timestamp t) (tz_ssrc t)"
      using assms by (simp_all add: brew_frames_def audio_out_def rtp_packets_def send_dtmf_event_def packet_fields)
    then have "turn_ok cx (BrewIn raw) t ?outs (t\<lparr>tz_seq := tz_seq t + 3\<rparr>)"
      using no_voice other
      by (simp add: turn_ok_def send_dtmf_event_def packet_fields seqs_from_def numeral_3_eq_3)
    then show ?thesis using True Some by (simp add: brew_in_def index_at_def)
  qed
next
  case False
  have other: "sip_block pt (BrewIn raw) = []" for pt by (simp add: sip_block_def)
  show ?thesis
  proof (cases "is_voice raw")
    case True
    then have len: "length (take STE_VOICE_PAYLOAD_BYTES (drop 20 raw)) = STE_VOICE_PAYLOAD_BYTES" unfolding is_voice_def by auto
    from unpack_total [OF len] obtain s1 s2
      where sub: "unpack_ste_voice_payload (take STE_VOICE_PAYLOAD_BYTES (drop 20 raw)) = Some (s1, s2)" by blast
    obtain p1 d1 where p1: "cx_decode cx (tz_decoder t) s1 False = (p1, d1)" by fastforce
    obtain p2 d2 where p2: "cx_decode cx d1 s2 False = (p2, d2)" by fastforce
    have block: "voice_block cx (tz_decoder t) raw = (p1 @ p2, d2)" using sub p1 p2 by (simp add: voice_block_def)
    have "brew_in cx raw t = Some ([], t\<lparr>tz_from_brew := tz_from_brew t @ p1 @ p2, tz_decoder := d2\<rparr>)"
      using False True sub p1 p2 by (auto simp: brew_in_def is_voice_def slice_def)
    moreover have "turn_ok cx (BrewIn raw) t [] (t\<lparr>tz_from_brew := tz_from_brew t @ p1 @ p2, tz_decoder := d2\<rparr>)"
      using True other block by (intro quiet_turn) simp_all
    ultimately show ?thesis by blast
  next
    case novoice: False
    then have "brew_in cx raw t = Some ([ToControl raw], t)"
      using False by (auto simp: brew_in_def is_voice_def)
    moreover have "turn_ok cx (BrewIn raw) t [ToControl raw] t"
      using novoice other by (intro quiet_turn) (simp_all add: brew_frames_def rtp_packets_def)
    ultimately show ?thesis by blast
  qed
qed

lemma acelp_tick_ok:
  assumes "codec_ok cx"
  shows "\<exists>outs t'. acelp_tick cx t = Some (outs, t') \<and> turn_ok cx AcelpTick t outs t'"
proof (cases "2 * ACELP_PCM_SAMPLES \<le> length (tz_from_sip t)")
  case True
  obtain s1 e1 where s1: "cx_encode cx (tz_encoder t) (take 240 (tz_from_sip t)) = (s1, e1)" by fastforce
  obtain s2 e2 where s2: "cx_encode cx e1 (take 240 (drop 240 (tz_from_sip t))) = (s2, e2)" by fastforce
  have "length s1 = 18" "length s2 = 18" using assms s1 s2 unfolding codec_ok_def by (metis fst_conv)+
  then obtain p where p: "build_traffic_frame (tz_call_id t) s1 s2 = Some p" using frame_total by blast
  have "turn_ok cx AcelpTick t [ToBrew p] (t\<lparr>tz_from_sip := drop 480 (tz_from_sip t), tz_encoder := e2\<rparr>)"
    using True s1 s2 p
    by (simp add: turn_ok_def brew_frames_def rtp_packets_def audio_out_def seqs_from_def sip_block_def)
  then show ?thesis using True s1 s2 p by (simp add: acelp_tick_def)
next
  case False
  have "turn_ok cx AcelpTick t [] t" by (intro quiet_turn) (simp_all add: sip_block_def)
  then show ?thesis using False by (simp add: acelp_tick_def)
qed

lemma rtp_tick_ok:
  assumes "tz_payload_type t AND 0x7F = tz_payload_type t"
  shows "\<exists>outs t'. rtp_tick t = Some (outs, t') \<and> turn_ok cx RtpTick t outs t'"
proof (cases "RTP_SAMPLES_PER_PACKET \<le> length (tz_from_brew t)")
  case True
  let ?pt = "tz_payload_type t"
  let ?p = "rtp_packet ?pt (tz_seq t) (tz_timestamp t) (tz_ssrc t) (map (encode_sample ?pt) (take 160 (tz_from_brew t)))"
  let ?t = "t\<lparr>tz_from_brew := drop 160 (tz_from_brew t), tz_seq := tz_seq t + 1, tz_timestamp := tz_timestamp t + 160\<rparr>"
  have packets: "rtp_packets [ToSip ?p] = [?p]" "brew_frames [ToSip ?p] = []" by (simp_all add: rtp_packets_def brew_frames_def)
  have audio: "audio_out ?pt [ToSip ?p] = map (encode_sample ?pt) (take 160 (tz_from_brew t))"
    using assms by (simp add: audio_out_def packets packet_fields and.assoc)
  have "turn_ok cx RtpTick t [ToSip ?p] ?t"
    by (simp add: turn_ok_def packets audio packet_fields seqs_from_def sip_block_def flip: map_append append_assoc)
  then show ?thesis using True by (simp add: rtp_tick_def)
next
  case False
  have "turn_ok cx RtpTick t [] t" by (intro quiet_turn) (simp_all add: sip_block_def)
  then show ?thesis using False by (simp add: rtp_tick_def)
qed

lemma task_turn_ok:
  assumes "codec_ok cx" "tz_payload_type t = 0 \<or> tz_payload_type t = 8"
  shows "\<exists>outs t'. task_turn cx ev t = Some (outs, t') \<and> turn_ok cx ev t outs t'"
proof (cases ev)
  case (RtpIn now sender d)
  then show ?thesis using rtp_in_ok [of now sender d t cx] by (simp add: task_turn_def)
next
  case (BrewIn raw)
  have "tz_payload_type t \<noteq> 101" using assms(2) by auto
  with BrewIn show ?thesis using brew_in_ok [of t cx raw] by (simp add: task_turn_def)
next
  case AcelpTick
  then show ?thesis using acelp_tick_ok [OF assms(1), of t] by (simp add: task_turn_def)
next
  case RtpTick
  have "tz_payload_type t AND 0x7F = tz_payload_type t" using assms(2) by auto
  with RtpTick show ?thesis using rtp_tick_ok [of t cx] by (simp add: task_turn_def)
qed

lemma task_run_ok:
  assumes "codec_ok cx" "tz_payload_type t = 0 \<or> tz_payload_type t = 8"
  shows "\<exists>outs t' n. task_run cx evs t = Some (outs, t') \<and>
      brew_frames outs = voice_frames cx (tz_call_id t) n (tz_encoder t) (tz_from_sip t @ sip_samples (tz_payload_type t) evs) \<and>
      480 * n \<le> length (tz_from_sip t @ sip_samples (tz_payload_type t) evs) \<and>
      tz_from_sip t' = drop (480 * n) (tz_from_sip t @ sip_samples (tz_payload_type t) evs) \<and>
      audio_out (tz_payload_type t) outs @ map (encode_sample (tz_payload_type t)) (tz_from_brew t') =
        map (encode_sample (tz_payload_type t)) (tz_from_brew t @ brew_samples cx (tz_decoder t) evs) \<and>
      map seq_field (rtp_packets outs) = seqs_from (tz_seq t) (length (rtp_packets outs))"
  using assms(2)
proof (induction evs arbitrary: t)
  case Nil
  show ?case by (rule exI [of _ "[]"], rule exI [of _ t], rule exI [of _ 0]) (simp add: sip_samples_def seqs_from_def)
next
  case (Cons ev evs)
  obtain o1 t1 where o1: "task_turn cx ev t = Some (o1, t1)" and ok: "turn_ok cx ev t o1 t1"
    using task_turn_ok [OF assms(1) Cons.prems] by blast
  have keep: "tz_payload_type t1 = tz_payload_type t" "tz_call_id t1 = tz_call_id t" using ok by (simp_all add: turn_ok_def)
  obtain o2 t2 n where o2: "task_run cx evs t1 = Some (o2, t2)"
    and frames: "brew_frames o2 = voice_frames cx (tz_call_id t) n (tz_encoder t1) (tz_from_sip t1 @ sip_samples (tz_payload_type t) evs)"
    and enough: "480 * n \<le> length (tz_from_sip t1 @ sip_samples (tz_payload_type t) evs)"
    and rest: "tz_from_sip t2 = drop (480 * n) (tz_from_sip t1 @ sip_samples (tz_payload_type t) evs)"
    and audio: "audio_out (tz_payload_type t) o2 @ map (encode_sample (tz_payload_type t)) (tz_from_brew t2) =
      map (encode_sample (tz_payload_type t)) (tz_from_brew t1 @ brew_samples cx (tz_decoder t1) evs)"
    and seqs: "map seq_field (rtp_packets o2) = seqs_from (tz_seq t1) (length (rtp_packets o2))"
    using Cons.IH [of t1] Cons.prems unfolding keep by metis
  have split: "sip_samples (tz_payload_type t) (ev # evs) = sip_block (tz_payload_type t) ev @ sip_samples (tz_payload_type t) evs"
    by (simp add: sip_samples_def)
  let ?m = "length (brew_frames o1)"
  have "task_run cx (ev # evs) t = Some (o1 @ o2, t2)" using o1 o2 by simp
  moreover have "brew_frames (o1 @ o2) =
      voice_frames cx (tz_call_id t) (?m + n) (tz_encoder t) (tz_from_sip t @ sip_samples (tz_payload_type t) (ev # evs))"
  proof -
    have "\<forall>n rest. brew_frames o1 @ voice_frames cx (tz_call_id t) n (tz_encoder t1) (tz_from_sip t1 @ rest) =
        voice_frames cx (tz_call_id t) (?m + n) (tz_encoder t) (tz_from_sip t @ sip_block (tz_payload_type t) ev @ rest)"
      using ok unfolding turn_ok_def by blast
    then show ?thesis unfolding split by (simp only: outputs_append frames)
  qed
  moreover have "480 * (?m + n) \<le> length (tz_from_sip t @ sip_samples (tz_payload_type t) (ev # evs))"
  proof -
    have "length (tz_from_sip t1) = length (tz_from_sip t @ sip_block (tz_payload_type t) ev) - 480 * ?m"
      "480 * ?m \<le> length (tz_from_sip t @ sip_block (tz_payload_type t) ev)"
      using ok by (simp_all add: turn_ok_def)
    with enough show ?thesis unfolding split by (simp add: add_mult_distrib2)
  qed
  moreover have "tz_from_sip t2 = drop (480 * (?m + n)) (tz_from_sip t @ sip_samples (tz_payload_type t) (ev # evs))"
  proof -
    have "480 * ?m \<le> length (tz_from_sip t @ sip_block (tz_payload_type t) ev)"
      "tz_from_sip t1 = drop (480 * ?m) (tz_from_sip t @ sip_block (tz_payload_type t) ev)"
      using ok by (simp_all add: turn_ok_def)
    then have "tz_from_sip t1 @ sip_samples (tz_payload_type t) evs =
        drop (480 * ?m) ((tz_from_sip t @ sip_block (tz_payload_type t) ev) @ sip_samples (tz_payload_type t) evs)"
      by (simp only: drop_append) simp
    then have "tz_from_sip t2 = drop (480 * n + 480 * ?m) (tz_from_sip t @ sip_samples (tz_payload_type t) (ev # evs))"
      unfolding rest split by (simp only: drop_drop append_assoc)
    then show ?thesis by (simp only: add_mult_distrib2 add.commute)
  qed
  moreover have "audio_out (tz_payload_type t) (o1 @ o2) @ map (encode_sample (tz_payload_type t)) (tz_from_brew t2) =
      map (encode_sample (tz_payload_type t)) (tz_from_brew t @ brew_samples cx (tz_decoder t) (ev # evs))"
    using ok audio unfolding turn_ok_def by (simp only: outputs_append append_assoc)
  moreover have "map seq_field (rtp_packets (o1 @ o2)) = seqs_from (tz_seq t) (length (rtp_packets (o1 @ o2)))"
    using ok seqs unfolding turn_ok_def by (simp add: seqs_from_add)
  ultimately show ?case by blast
qed

text \<open>C16. The transcoder passes audio on faithfully.  Under any sequence of datagrams, Brew messages and
  timer ticks it never panics; the voice frames it sends to Brew are those of the received G.711
  stream cut into blocks of 480 samples, in order, the rest waiting in its buffer; the audio packets it
  sends to the SIP party, with what still waits, are the decoded Brew voice in order, no sample lost or
  doubled; and all its RTP packets, digits included, carry consecutive sequence numbers.\<close>

theorem transcoder_faithful:
  assumes "codec_ok cx" "pt = 0 \<or> pt = 8"
  shows "\<exists>outs t n. task_run cx evs (new_transcoder leg pt uid enc dec) = Some (outs, t) \<and>
    brew_frames outs = voice_frames cx uid n enc (sip_samples pt evs) \<and>
    480 * n \<le> length (sip_samples pt evs) \<and> tz_from_sip t = drop (480 * n) (sip_samples pt evs) \<and>
    audio_out pt outs @ map (encode_sample pt) (tz_from_brew t) = map (encode_sample pt) (brew_samples cx dec evs) \<and>
    map seq_field (rtp_packets outs) = map (\<lambda>k. be_bytes 2 (of_nat k :: u16)) [0..<length (rtp_packets outs)]"
  using task_run_ok [OF assms(1), of "new_transcoder leg pt uid enc dec"] assms(2)
  by (simp add: new_transcoder_def seqs_from_def)

text \<open>A codec of silence.\<close>

definition silent_codec :: "(unit, unit) codec" where
  "silent_codec = \<lparr>cx_encode = (\<lambda>e _. (replicate 18 0, e)), cx_decode = (\<lambda>d _ _. (replicate 240 0, d))\<rparr>"

theorem transcoder_faithful_witness:
  "\<exists>outs t n. task_run silent_codec [RtpTick, AcelpTick] (new_transcoder (new_leg 16000) 8 3 () ()) = Some (outs, t) \<and>
     brew_frames outs = voice_frames silent_codec 3 n () (sip_samples 8 [RtpTick, AcelpTick]) \<and> tz_from_sip t = []"
proof -
  have "codec_ok silent_codec" by (simp add: codec_ok_def silent_codec_def)
  from transcoder_faithful [OF this, of 8 "[RtpTick, AcelpTick]" "new_leg 16000" 3 "()" "()"]
  obtain outs t n where "task_run silent_codec [RtpTick, AcelpTick] (new_transcoder (new_leg 16000) 8 3 () ()) = Some (outs, t)"
    "brew_frames outs = voice_frames silent_codec 3 n () (sip_samples 8 [RtpTick, AcelpTick])"
    "tz_from_sip t = drop (480 * n) (sip_samples 8 [RtpTick, AcelpTick])" by auto
  moreover have "sip_samples 8 [RtpTick, AcelpTick] = []" by (simp add: sip_samples_def sip_block_def)
  ultimately show ?thesis by (intro exI conjI) simp_all
qed

end
