(* ===== verification/Spec2Isabelle.thy ===== *)
theory Spec2Isabelle
  imports Protocol_Parser Builders Fed_Codec Fed_Table Fed_Flood Monitor Sms_Queue Position_Facts Calls_Props
    Floor_Reach Ha_Repl Emergency_List G711 Sip_Roundtrip Sip_Findings Transcode_Task
begin

text \<open>
  Verification of brew-server, a switch for TETRA base stations.

  The program.  Base stations, terminals and other servers hold WebSocket connections and exchange
  binary Brew messages: registrations and affiliations of radios, group and private calls, voice
  frames, short data (SDS).  The router passes each packet on by the shared tables; servers federate
  by announcing which radios they reach; SDS to absent radios is stored; two servers can form a
  high-availability pair; SIP telephones and trunks call radios and are called by them.

  How the model is made.  Rust structs are records with prefixed fields, enums are datatypes, \<open>uN\<close> is
  \<open>N word\<close>, hash maps are finite maps, strings are lists of Unicode scalar values.  An operation that may
  panic (an index, a slice, an \<open>expect\<close>) has a result in the panic monad, where \<open>None\<close> is the panic;
  errors that the code returns are values of a sum.  State is passed explicitly: \<open>inner\<close> is the locked
  table set, \<open>app\<close> the whole server, \<open>sip_world\<close> the server with its SIP side.  The queue of a connection
  (\<open>cl_tx\<close>) and the list of SIP datagrams (\<open>w_sent\<close>) are the output.  Handlers run one at a time: a handler
  of the code takes the write lock around each change of the tables, and interleavings between two locks of
  one handler are not modelled.

  Theories, in the order of the layers.

  \<^item> \<open>Prelude\<close>, \<open>Utf8\<close>, \<open>Text\<close>: words, slices with panics, finite maps, UTF-8 with its lossy decoder, and the
    operations of Rust's \<open>str\<close>.
  \<^item> \<open>Protocol\<close>, \<open>Protocol_Parser\<close>, \<open>Builders\<close> (\<open>protocol.rs\<close>): the message data, the parser, every builder and the
    packing of voice.  The parser panics on no input and agrees with the builders; talker names are
    read by the septets of the bit stream.
  \<^item> \<open>State\<close>, \<open>App_State\<close>, \<open>Sessions\<close> (\<open>state.rs\<close>, the start of a session in \<open>server.rs\<close> and \<open>federation.rs\<close>): tables,
    connections, queues, the blacklist, a new connection and the tables it is sent.
  \<^item> \<open>Fed_Wire\<close>, \<open>Fed_Codec\<close>, \<open>Fed_Route\<close>, \<open>Fed_Table\<close>, \<open>Fed_Advert\<close>, \<open>Fed_Flood\<close> (\<open>fedroute.rs\<close>): federation messages
    and their round trip, the choice of a route, announcements without loops, adverts that are stored and
    forwarded at most once, and the consistency of the tables after every message.
  \<^item> \<open>Monitor\<close>, \<open>Store_Log\<close> (\<open>monitor.rs\<close>, \<open>store.rs\<close>): the history with its replay, and the log file, whose
    replay after a crash gives the records written.
  \<^item> \<open>Sms_Center\<close>, \<open>Sms_Queue\<close> (\<open>sms_center.rs\<close>): the store-and-forward queue as a state machine; nothing stored is
    lost and its limits hold.
  \<^item> \<open>Position\<close>, \<open>Position_Facts\<close> (\<open>position.rs\<close>): location reports in SDS.
  \<^item> \<open>Router_Sds\<close>, \<open>Router_Calls\<close>, \<open>Router\<close> (\<open>router.rs\<close>, \<open>blacklist.rs\<close>): short data, calls, registrations,
    the dispatcher, lost connections and the time-out sweep.  \<open>Router_Inv\<close>, \<open>Router_Step\<close>, \<open>Router_Reach\<close>,
    \<open>Floor\<close>, \<open>Floor_Reach\<close> and \<open>Calls_Props\<close> hold the invariants: every reachable state is consistent, no packet makes
    the router panic, a group has one call unless several are allowed, a lost connection leaves no trace.
  \<^item> \<open>Emergency_List\<close> (\<open>emergency.rs\<close>): the list of active emergencies and its announcement.
  \<^item> \<open>Election\<close>, \<open>Ha_Pair\<close>, \<open>Ha_Node\<close>, \<open>Ha_Repl\<close> (\<open>ha.rs\<close>, \<open>ha_repl.rs\<close>): the election as a pure step of one node,
    two nodes against each other (never both Active after they hear each other, one of them within two
    rounds, a split brain heals), the loop of a node with the virtual address, and the replication of
    the history.
  \<^item> \<open>Sip_Message\<close>, \<open>Sip_Headers\<close>, \<open>Sip_Roundtrip\<close>, \<open>Sip_Auth\<close> (\<open>sip/message.rs\<close>, \<open>sip/auth.rs\<close>): SIP messages, their header
    multimap as a refinement of a list of pairs, print and parse, digest authentication.
  \<^item> \<open>Sip_State\<close>, \<open>Sip_Media\<close> (\<open>sip/routing.rs\<close>, \<open>sip/state.rs\<close>, \<open>sip/media.rs\<close>): routes, registrations, trunks and
    calls, session descriptions, ports.
  \<^item> \<open>Sip_Bridge\<close>, \<open>Sip_Transport\<close> (\<open>sip/bridge.rs\<close>, \<open>sip/transport.rs\<close>): calls between SIP and Brew in both directions and
    every request and response.  \<open>Sip_World\<close>, \<open>Sip_Props\<close> and \<open>Sip_Findings\<close> prove that SIP calls are
    accounted for in every execution, that nobody registers or calls without authorisation, and what a BYE
    leaves, and show where the gateway departs from its own documentation or from the router's rules.
  \<^item> \<open>G711\<close>, \<open>Transcode_Task\<close> (\<open>transcode/g711.rs\<close>, \<open>transcode/task.rs\<close>): companding, and the transcoder task, which
    passes audio on in order and without loss.

  How the parts meet.  The router logs the effects it has outside the tables (\<open>st_log\<close>); \<open>end_bridged\<close> carries
  out those that end a SIP call.  The router's question whether SIP takes a private call is a parameter of
  its setup handler (\<open>ev_sip\<close>), answered by \<open>brew_to_sip\<close> with what it does to the state.  The SIP bridge
  changes the same tables by \<open>ring_private\<close>, \<open>seize_group\<close>, \<open>join_outbound\<close> and \<open>teardown_inner\<close>; the invariant of the
  router speaks of executions without SIP, because a group call from SIP does break the floor rule
  (\<open>sip_group_takes_floor\<close>).

  Parameters.  Code that is not in the repository is an argument: MD5, HMAC, JSON and \<open>bincode\<close>
  serialisation, the reading of \<open>host:port\<close>, coordinates in text, the ACELP codec, the outcome of binding a
  port or running the \<open>ip\<close> command, clocks, random tokens and UUIDs.  What a theorem needs of one is a
  hypothesis of the theorem (\<open>codec_ok\<close>, for one, says that a coded frame has 18 bytes).

  Loops.  Loops over input are structural recursion; scanners and the port search are functions with a
  measure, and the port search is proved to try every port before it gives up.  Only \<open>deliver_pending\<close>
  takes its turns as a list, one for every message that may be due, since each turn reads a clock.

  Not modelled.  Telemetry and the control channel (JSON documents for the dashboard), the dashboard, APRS,
  process start-up and the tools are input and output around the parts above.  Of the modelled files: the
  HTTP and WebSocket frameworks and the challenge of \<open>server.rs\<close>, dialling and TLS of \<open>federation.rs\<close>, the JSON file
  and the export of the SMS Center, the configuration hashes of the high-availability pair, the TOML
  configuration and its editing.
\<close>

end
